(* ===== verification/Prelude.thy ===== *)
theory Prelude
  imports Main "HOL-Library.Word"
begin

text \<open>
  Shared material of the development: names for Go's fixed-width integers, the
  outcome of a Go routine (it returns, it blocks on a lock or channel, or it
  panics), big-endian byte encodings (package encoding/binary), Go slices with
  their capacity, buffered channels, and decimal printing. The generic lemmas
  about them are collected here so that the component theories only unfold
  their own definitions.
\<close>

unbundle bit_operations_syntax

section \<open>Machine integers and collections of facts\<close>

type_synonym u8 = "8 word"
type_synonym u16 = "16 word"
type_synonym u32 = "32 word"
type_synonym u64 = "64 word"
type_synonym bytes = "8 word list"

named_theorems outcome_simps \<open>rewrite rules for the outcome monad\<close>
named_theorems chan_simps \<open>rewrite rules for buffered channels\<close>

section \<open>Outcomes of Go code\<close>

text \<open>
  A Go routine that runs to its end returns a value; it may instead wait for a
  lock, a channel or a wait group that its caller still holds, or panic (a
  runtime error, an explicit \<open>panic\<close>, or a fatal error of package sync).
\<close>

datatype 'a outcome = Ret 'a | Block | Panic string

fun obind :: "'a outcome \<Rightarrow> ('a \<Rightarrow> 'b outcome) \<Rightarrow> 'b outcome" where
  "obind (Ret x) f = f x"
| "obind Block f = Block"
| "obind (Panic m) f = Panic m"

definition is_ret :: "'a outcome \<Rightarrow> bool" where
  "is_ret r \<longleftrightarrow> (case r of Ret _ \<Rightarrow> True | _ \<Rightarrow> False)"

definition is_panic :: "'a outcome \<Rightarrow> bool" where
  "is_panic r \<longleftrightarrow> (case r of Panic _ \<Rightarrow> True | _ \<Rightarrow> False)"

lemma is_ret_simps [simp, outcome_simps]:
  "is_ret (Ret x)" "\<not> is_ret Block" "\<not> is_ret (Panic m)"
  by (simp_all add: is_ret_def)

lemma is_panic_simps [simp, outcome_simps]:
  "\<not> is_panic (Ret x)" "\<not> is_panic Block" "is_panic (Panic m)"
  by (simp_all add: is_panic_def)

lemma obind_eq_Ret [outcome_simps]:
  "obind r f = Ret y \<longleftrightarrow> (\<exists>x. r = Ret x \<and> f x = Ret y)"
  by (cases r) auto

lemma obind_assoc [outcome_simps]: "obind (obind r f) g = obind r (\<lambda>x. obind (f x) g)"
  by (cases r) auto

lemma is_ret_iff: "is_ret r \<longleftrightarrow> (\<exists>x. r = Ret x)"
  by (cases r) auto

section \<open>Big-endian encodings\<close>

text \<open>
  \<open>put_be n v\<close> is what \<open>binary.BigEndian.PutUint16/32/64\<close> stores (most
  significant byte first), \<open>get_be\<close> what \<open>Uint16/32/64\<close> reads back.
\<close>

fun put_be :: "nat \<Rightarrow> 'a::len word \<Rightarrow> bytes" where
  "put_be 0 v = []"
| "put_be (Suc n) v = ucast (drop_bit (8 * n) v) # put_be n v"

fun get_be :: "bytes \<Rightarrow> 'a::len word" where
  "get_be [] = 0"
| "get_be (b # bs) = push_bit (8 * length bs) (ucast b) OR get_be bs"

lemma length_put_be [simp]: "length (put_be n v) = n"
  by (induction n) auto

lemma bit_get_be:
  "bit (get_be bs :: 'a::len word) i \<longleftrightarrow>
     i < LENGTH('a) \<and> i < 8 * length bs \<and> bit (bs ! (length bs - 1 - i div 8)) (i mod 8)"
proof (induction bs)
  case Nil
  then show ?case by simp
next
  case (Cons b bs)
  have ix: "i div 8 < length bs \<Longrightarrow> length bs - i div 8 = Suc (length bs - 1 - i div 8)"
    by simp
  consider "i < 8 * length bs" | "8 * length bs \<le> i" "i < 8 * Suc (length bs)"
    | "8 * Suc (length bs) \<le> i" by linarith
  then show ?case
  proof cases
    case 1
    then have "i div 8 < length bs" by (simp add: less_mult_imp_div_less mult.commute)
    with 1 Cons ix show ?thesis
      by (auto simp: bit_simps nth_Cons')
  next
    case 2
    then have "i div 8 = length bs" "i - 8 * length bs = i mod 8"
      by (auto simp: minus_mult_div_eq_mod[symmetric] div_nat_eqI)
    with 2 Cons show ?thesis
      by (auto simp: bit_simps nth_Cons')
  next
    case 3
    then have "\<not> bit b (i - 8 * length bs)" by (auto dest: bit_imp_le_length)
    with 3 Cons show ?thesis
      by (auto simp: bit_simps)
  qed
qed

lemma bit_put_be_nth:
  "j < n \<Longrightarrow> k < 8 \<Longrightarrow> bit (put_be n v ! j) k \<longleftrightarrow> bit v (8 * (n - 1 - j) + k)"
proof (induction n arbitrary: j)
  case 0
  then show ?case by simp
next
  case (Suc n)
  then show ?case by (cases j) (auto simp: bit_simps)
qed

lemma get_be_put_be [simp]: "get_be (put_be n v) = take_bit (8 * n) v"
proof (rule bit_word_eqI)
  fix i
  assume i: "i < LENGTH('a)"
  show "bit (get_be (put_be n v) :: 'a word) i \<longleftrightarrow> bit (take_bit (8 * n) v) i"
  proof (cases "i < 8 * n")
    case True
    then have d: "i div 8 < n" by (simp add: less_mult_imp_div_less mult.commute)
    then have "n - 1 - (n - 1 - i div 8) = i div 8" by simp
    with d True i show ?thesis
      by (simp add: bit_get_be bit_put_be_nth bit_take_bit_iff)
  next
    case False
    then show ?thesis by (simp add: bit_get_be bit_take_bit_iff)
  qed
qed

lemma put_be_get_be:
  assumes "length bs = n" and "8 * n \<le> LENGTH('a)"
  shows "put_be n (get_be bs :: 'a::len word) = bs"
proof (rule nth_equalityI)
  fix j
  assume "j < length (put_be n (get_be bs :: 'a word))"
  then have j: "j < n" by simp
  show "put_be n (get_be bs :: 'a word) ! j = bs ! j"
  proof (rule bit_word_eqI)
    fix k
    assume k: "k < LENGTH(8)"
    have dm: "(8 * (n - 1 - j) + k) div 8 = n - 1 - j" "(8 * (n - 1 - j) + k) mod 8 = k"
      using k by simp_all
    have lt: "8 * (n - 1 - j) + k < 8 * n" using j k by simp
    have "n - 1 - (n - 1 - j) = j" using j by simp
    with j k dm lt assms show "bit (put_be n (get_be bs :: 'a word) ! j) k \<longleftrightarrow> bit (bs ! j) k"
      by (simp add: bit_put_be_nth bit_get_be)
  qed
qed (simp add: assms)

lemma get_be_inject:
  assumes "length xs = length ys" and "8 * length ys \<le> LENGTH('a)"
  shows "(get_be xs :: 'a::len word) = get_be ys \<longleftrightarrow> xs = ys"
  using put_be_get_be [of xs "length ys", where 'a = 'a] put_be_get_be [of ys "length ys", where 'a = 'a]
    assms by metis

section \<open>Slices\<close>

text \<open>
  A Go byte slice is a window on a backing array: \<open>backing\<close> is the array from
  the start of the slice to its capacity, \<open>slen\<close> its length. Reslicing
  \<open>b[:n]\<close> is legal up to the capacity and shares the array.
\<close>

record gslice =
  backing :: bytes
  slen :: nat

definition scap :: "gslice \<Rightarrow> nat" where
  "scap b = length (backing b)"

definition sbytes :: "gslice \<Rightarrow> bytes" where
  "sbytes b = take (slen b) (backing b)"

definition reslice :: "nat \<Rightarrow> gslice \<Rightarrow> gslice" where
  "reslice n b = b\<lparr>slen := n\<rparr>"

definition make_slice :: "nat \<Rightarrow> gslice" where
  "make_slice n = \<lparr>backing = replicate n 0, slen = n\<rparr>"

text \<open>\<open>clear(b)\<close> zeroes the elements up to the length, not the capacity.\<close>

definition clear_slice :: "gslice \<Rightarrow> gslice" where
  "clear_slice b = b\<lparr>backing := replicate (slen b) 0 @ drop (slen b) (backing b)\<rparr>"

text \<open>A store into the window \<open>b[i:i+len(bs)]\<close> of an array that is long enough.\<close>

definition put_at :: "nat \<Rightarrow> bytes \<Rightarrow> bytes \<Rightarrow> bytes" where
  "put_at i bs xs = take i xs @ bs @ drop (i + length bs) xs"

lemma length_put_at [simp]: "i + length bs \<le> length xs \<Longrightarrow> length (put_at i bs xs) = length xs"
  by (simp add: put_at_def)

lemma take_put_at_outside [simp]: "n \<le> i \<Longrightarrow> i \<le> length xs \<Longrightarrow> take n (put_at i bs xs) = take n xs"
  by (simp add: put_at_def)

lemma window_put_at [simp]:
  "i \<le> length xs \<Longrightarrow> take (length bs) (drop i (put_at i bs xs)) = bs"
  by (simp add: put_at_def)

lemma window_put_at_later [simp]:
  "j + n \<le> i \<Longrightarrow> i \<le> length xs \<Longrightarrow> take n (drop j (put_at i bs xs)) = take n (drop j xs)"
  by (auto simp: put_at_def drop_take min_def)

lemma drop_put_at_beyond [simp]:
  "i + length bs \<le> n \<Longrightarrow> i \<le> length xs \<Longrightarrow> drop n (put_at i bs xs) = drop n xs"
  by (simp add: put_at_def)

lemma sbytes_make_slice [simp]: "sbytes (make_slice n) = replicate n 0"
  by (simp add: sbytes_def make_slice_def)

section \<open>Buffered channels\<close>

text \<open>
  A buffered Go channel is its queue; \<open>cap\<close> is the size given to \<open>make\<close>.
  \<open>chan_send\<close> is the send of a \<open>select\<close> with a \<open>default\<close> branch: \<open>None\<close> when
  the channel is full. A plain send waits instead (\<open>chan_send_wait\<close>).
\<close>

definition chan_send :: "nat \<Rightarrow> 'a \<Rightarrow> 'a list \<Rightarrow> 'a list option" where
  "chan_send c x q = (if length q < c then Some (q @ [x]) else None)"

definition chan_recv :: "'a list \<Rightarrow> ('a \<times> 'a list) option" where
  "chan_recv q = (case q of [] \<Rightarrow> None | x # q' \<Rightarrow> Some (x, q'))"

definition chan_send_wait :: "nat \<Rightarrow> 'a \<Rightarrow> 'a list \<Rightarrow> 'a list outcome" where
  "chan_send_wait c x q = (case chan_send c x q of Some q' \<Rightarrow> Ret q' | None \<Rightarrow> Block)"

lemma chan_recv_simps [simp, chan_simps]: "chan_recv [] = None" "chan_recv (x # q) = Some (x, q)"
  by (simp_all add: chan_recv_def)

lemma chan_send_wait_room [simp, chan_simps]:
  "length q < c \<Longrightarrow> chan_send_wait c x q = Ret (q @ [x])"
  by (simp add: chan_send_wait_def chan_send_def)

lemma chan_send_wait_full [simp, chan_simps]:
  "c \<le> length q \<Longrightarrow> chan_send_wait c x q = Block"
  by (simp add: chan_send_wait_def chan_send_def)

text \<open>
  The contract a bounded FIFO gives its users: what a send does to the contents,
  that it is refused exactly when the channel is full, and that a receive takes
  the oldest element.
\<close>

locale bounded_fifo =
  fixes bound :: nat
    and send :: "'a \<Rightarrow> 'q \<Rightarrow> 'q option"
    and recv :: "'q \<Rightarrow> ('a \<times> 'q) option"
    and contents :: "'q \<Rightarrow> 'a list"
  assumes send_room: "length (contents q) < bound \<Longrightarrow> \<exists>q'. send x q = Some q' \<and> contents q' = contents q @ [x]"
    and send_full: "bound \<le> length (contents q) \<Longrightarrow> send x q = None"
    and recv_empty: "contents q = [] \<Longrightarrow> recv q = None"
    and recv_front: "contents q = x # xs \<Longrightarrow> \<exists>q'. recv q = Some (x, q') \<and> contents q' = xs"
begin

lemma send_Some_iff: "(\<exists>q'. send x q = Some q') \<longleftrightarrow> length (contents q) < bound"
  using send_room [of q x] send_full [of q x] by (cases "length (contents q) < bound") auto

lemma send_contents: "send x q = Some q' \<Longrightarrow> contents q' = contents q @ [x]"
  using send_room [of q x] send_full [of q x] by (cases "length (contents q) < bound") auto

lemma send_bounded:
  "length (contents q) \<le> bound \<Longrightarrow> send x q = Some q' \<Longrightarrow> length (contents q') \<le> bound"
  using send_Some_iff [of x q] send_contents [of x q q'] by auto

lemma recv_contents: "recv q = Some (x, q') \<Longrightarrow> contents q = x # contents q'"
proof (cases "contents q")
  case Nil
  then show "recv q = Some (x, q') \<Longrightarrow> ?thesis" by (simp add: recv_empty)
next
  case (Cons y ys)
  then show "recv q = Some (x, q') \<Longrightarrow> ?thesis" using recv_front [OF Cons] by auto
qed

lemma send_then_recv_order:
  assumes "send x q = Some q'" and "recv q' = Some (y, q'')"
  shows "contents q @ [x] = y # contents q''"
  using send_contents [OF assms(1)] recv_contents [OF assms(2)] by simp

end

interpretation fifo: bounded_fifo c "chan_send c" chan_recv "\<lambda>q. q" for c
  by unfold_locales (simp_all add: chan_send_def)

section \<open>Preservation along runs\<close>

text \<open>
  Several components are driven by a sequence of events, each of which returns a
  new state, blocks or panics. \<open>run_events\<close> executes a sequence; the locale
  states once that an invariant of the single events is an invariant of runs.
\<close>

fun run_events :: "('e \<Rightarrow> 's \<Rightarrow> 's outcome) \<Rightarrow> 'e list \<Rightarrow> 's \<Rightarrow> 's outcome" where
  "run_events f [] s = Ret s"
| "run_events f (e # es) s = obind (f e s) (run_events f es)"

lemma run_events_append:
  "run_events f (xs @ ys) s = obind (run_events f xs s) (run_events f ys)"
proof (induction xs arbitrary: s)
  case (Cons x xs)
  then show ?case by (cases "f x s") simp_all
qed simp

locale preserves =
  fixes step :: "'e \<Rightarrow> 's \<Rightarrow> 's outcome"
    and inv :: "'s \<Rightarrow> bool"
  assumes step_inv: "inv s \<Longrightarrow> step e s = Ret s' \<Longrightarrow> inv s'"
begin

lemma run_inv: "inv s \<Longrightarrow> run_events step es s = Ret s' \<Longrightarrow> inv s'"
  by (induction es arbitrary: s) (auto simp: obind_eq_Ret dest: step_inv)

lemma run_prefix_inv:
  "inv s \<Longrightarrow> run_events step (es @ fs) s = Ret s' \<Longrightarrow>
     \<exists>t. run_events step es s = Ret t \<and> inv t \<and> run_events step fs t = Ret s'"
  by (auto simp: run_events_append obind_eq_Ret intro: run_inv)

end

text \<open>
  Runs in which every event satisfies a condition in the state in which it happens, and
  invariants that only such events preserve.
\<close>

fun allowed :: "('e \<Rightarrow> 's \<Rightarrow> bool) \<Rightarrow> ('e \<Rightarrow> 's \<Rightarrow> 's outcome) \<Rightarrow> 'e list \<Rightarrow> 's \<Rightarrow> bool" where
  "allowed ok step [] s = True"
| "allowed ok step (e # es) s =
     (ok e s \<and> (case step e s of Ret s' \<Rightarrow> allowed ok step es s' | _ \<Rightarrow> True))"

lemma allowed_mono:
  "allowed ok step es s \<Longrightarrow> (\<And>e t. e \<in> set es \<Longrightarrow> ok e t \<Longrightarrow> ok' e t) \<Longrightarrow> allowed ok' step es s"
  by (induction es arbitrary: s) (auto split: outcome.splits)

locale preserves_when =
  fixes step :: "'e \<Rightarrow> 's \<Rightarrow> 's outcome"
    and ok :: "'e \<Rightarrow> 's \<Rightarrow> bool"
    and inv :: "'s \<Rightarrow> bool"
  assumes step_inv: "inv s \<Longrightarrow> ok e s \<Longrightarrow> step e s = Ret s' \<Longrightarrow> inv s'"
begin

lemma run_inv: "inv s \<Longrightarrow> allowed ok step es s \<Longrightarrow> run_events step es s = Ret s' \<Longrightarrow> inv s'"
  by (induction es arbitrary: s) (auto simp: obind_eq_Ret dest: step_inv)

end

section \<open>Codecs\<close>

text \<open>
  An encoder and a decoder with the round-trip law on well-formed values; a
  strict codec also accepts nothing but the encodings of well-formed values.
  Both the packet header and the textual form of IPv4 addresses are strict.
\<close>

locale codec =
  fixes enc :: "'a \<Rightarrow> 'w"
    and dec :: "'w \<Rightarrow> 'a option"
    and wf :: "'a \<Rightarrow> bool"
  assumes dec_enc: "wf a \<Longrightarrow> dec (enc a) = Some a"
begin

lemma enc_inject: "wf a \<Longrightarrow> wf b \<Longrightarrow> enc a = enc b \<longleftrightarrow> a = b"
  using dec_enc by (metis option.inject)

end

locale strict_codec = codec +
  assumes enc_dec: "dec w = Some a \<Longrightarrow> wf a \<and> enc a = w"
begin

lemma dec_iff: "dec w = Some a \<longleftrightarrow> wf a \<and> w = enc a"
  using dec_enc enc_dec by blast

lemma dec_inject: "dec w = Some a \<Longrightarrow> dec v = Some a \<Longrightarrow> w = v"
  using enc_dec by metis

end

section \<open>Decimal digits\<close>

text \<open>
  \<open>strconv.Itoa\<close> and \<open>%d\<close> for unsigned values, and the value of a digit string.
\<close>

definition digit_char :: "nat \<Rightarrow> char" where
  "digit_char d = char_of (48 + d)"

definition digit_val :: "char \<Rightarrow> nat" where
  "digit_val c = of_char c - 48"

definition is_digit :: "char \<Rightarrow> bool" where
  "is_digit c \<longleftrightarrow> 48 \<le> (of_char c :: nat) \<and> (of_char c :: nat) \<le> 57"

fun dec_string :: "nat \<Rightarrow> string" where
  "dec_string n = (if n < 10 then [digit_char n] else dec_string (n div 10) @ [digit_char (n mod 10)])"

declare dec_string.simps [simp del]

definition dec_value :: "string \<Rightarrow> nat" where
  "dec_value s = foldl (\<lambda>v c. v * 10 + digit_val c) 0 s"

lemma digit_char_val [simp]: "d < 10 \<Longrightarrow> digit_val (digit_char d) = d"
  by (simp add: digit_val_def digit_char_def)

lemma digit_char_is_digit [simp]: "d < 10 \<Longrightarrow> is_digit (digit_char d)"
  by (simp add: is_digit_def digit_char_def)

lemma dec_value_snoc: "dec_value (s @ [c]) = dec_value s * 10 + digit_val c"
  by (simp add: dec_value_def)

lemma dec_value_string [simp]: "dec_value (dec_string n) = n"
proof (induction n rule: dec_string.induct)
  case (1 n)
  then show ?case
    by (subst dec_string.simps) (auto simp: dec_value_snoc, simp add: dec_value_def)
qed

lemma dec_string_digits: "list_all is_digit (dec_string n)"
proof (induction n rule: dec_string.induct)
  case (1 n)
  then show ?case by (subst dec_string.simps) simp
qed

lemma dec_string_nonempty [simp]: "dec_string n \<noteq> []"
  by (subst dec_string.simps) simp

lemma dec_string_no_leading_zero:
  "hd (dec_string n) = CHR ''0'' \<Longrightarrow> length (dec_string n) = 1"
proof (induction n rule: dec_string.induct)
  case (1 n)
  show ?case
  proof (cases "n < 10")
    case True
    then show ?thesis by (subst dec_string.simps) simp
  next
    case False
    have pos: "hd (dec_string m) = CHR ''0'' \<Longrightarrow> length (dec_string m) = 1 \<Longrightarrow> m = 0" for m
      using dec_value_string [of m] by (cases "dec_string m") (auto simp: dec_value_def digit_val_def)
    from False 1 pos [of "n div 10"] show ?thesis
      by (subst dec_string.simps, subst (asm) (2) dec_string.simps) auto
  qed
qed

definition no_leading_zero :: "string \<Rightarrow> bool" where
  "no_leading_zero s \<longleftrightarrow> s \<noteq> [] \<and> (hd s = CHR ''0'' \<longrightarrow> length s = 1)"

lemma no_leading_zero_dec_string [simp]: "no_leading_zero (dec_string n)"
  by (simp add: no_leading_zero_def dec_string_no_leading_zero)

lemma digit_val_less: "is_digit c \<Longrightarrow> digit_val c < 10"
  by (auto simp: is_digit_def digit_val_def)

lemma digit_char_of_val: "is_digit c \<Longrightarrow> digit_char (digit_val c) = c"
  by (simp add: is_digit_def digit_val_def digit_char_def)

lemma char_of_48: "char_of (48 :: nat) = CHR ''0''"
  by code_simp

lemma digit_val_eq_0: "is_digit c \<Longrightarrow> digit_val c = 0 \<longleftrightarrow> c = CHR ''0''"
  using char_of_48 digit_char_of_val [of c] by (auto simp: digit_val_def digit_char_def)

lemma dec_value_pos:
  "list_all is_digit s \<Longrightarrow> s \<noteq> [] \<Longrightarrow> hd s \<noteq> CHR ''0'' \<Longrightarrow> 0 < dec_value s"
proof (induction s rule: rev_induct)
  case Nil
  then show ?case by simp
next
  case (snoc c s)
  then show ?case
    by (cases s) (auto simp: dec_value_snoc dec_value_def digit_val_eq_0 intro: gr0I)
qed

lemma dec_string_value:
  "list_all is_digit s \<Longrightarrow> no_leading_zero s \<Longrightarrow> dec_string (dec_value s) = s"
proof (induction s rule: rev_induct)
  case Nil
  then show ?case by (simp add: no_leading_zero_def)
next
  case (snoc c s)
  then have c: "is_digit c" and s: "list_all is_digit s" by auto
  show ?case
  proof (cases "s = []")
    case True
    with c show ?thesis
      by (subst dec_string.simps)
        (simp add: dec_value_def digit_val_less digit_char_of_val)
  next
    case False
    with snoc.prems have h: "hd s \<noteq> CHR ''0''" by (auto simp: no_leading_zero_def)
    with s False have pos: "0 < dec_value s" by (simp add: dec_value_pos)
    from h False have "no_leading_zero s" by (simp add: no_leading_zero_def)
    with snoc.IH s have IH: "dec_string (dec_value s) = s" by simp
    have "dec_value (s @ [c]) div 10 = dec_value s" "dec_value (s @ [c]) mod 10 = digit_val c"
      using digit_val_less [OF c] by (simp_all add: dec_value_snoc)
    moreover have "\<not> dec_value (s @ [c]) < 10" using pos by (simp add: dec_value_snoc)
    ultimately show ?thesis
      using IH c by (subst dec_string.simps) (simp add: digit_char_of_val)
  qed
qed

section \<open>Comparison\<close>

text \<open>\<open>cmp.Compare\<close> on an ordered type.\<close>

definition go_cmp :: "'a::linorder \<Rightarrow> 'a \<Rightarrow> int" where
  "go_cmp a b = (if a < b then - 1 else if a = b then 0 else 1)"

lemma go_cmp_eq_0 [simp]: "go_cmp a b = 0 \<longleftrightarrow> a = b"
  by (auto simp: go_cmp_def)

lemma go_cmp_antisym: "go_cmp a b = - go_cmp b a"
  by (auto simp: go_cmp_def)

lemma go_cmp_le_0 [simp]: "go_cmp a b \<le> 0 \<longleftrightarrow> a \<le> b"
  by (auto simp: go_cmp_def)

section \<open>Splitting strings\<close>

text \<open>\<open>strings.Split\<close> at a one-character separator, and its inverse.\<close>

fun split_char :: "char \<Rightarrow> string \<Rightarrow> string list" where
  "split_char c [] = [[]]"
| "split_char c (x # xs) =
     (if x = c then [] # split_char c xs
      else (case split_char c xs of [] \<Rightarrow> [[x]] | p # ps \<Rightarrow> (x # p) # ps))"

fun join_char :: "char \<Rightarrow> string list \<Rightarrow> string" where
  "join_char c [] = []"
| "join_char c [p] = p"
| "join_char c (p # q # ps) = p @ c # join_char c (q # ps)"

lemma split_char_nonempty [simp]: "split_char c s \<noteq> []"
  by (induction s) (auto split: list.splits)

lemma split_char_absent [simp]: "c \<notin> set s \<Longrightarrow> split_char c s = [s]"
  by (induction s) auto

lemma split_char_append [simp]: "c \<notin> set a \<Longrightarrow> split_char c (a @ c # b) = a # split_char c b"
  by (induction a) auto

lemma split_join [simp]:
  "ps \<noteq> [] \<Longrightarrow> \<forall>p \<in> set ps. c \<notin> set p \<Longrightarrow> split_char c (join_char c ps) = ps"
  by (induction c ps rule: join_char.induct) auto

lemma join_split [simp]: "join_char c (split_char c s) = s"
proof (induction s)
  case Nil
  then show ?case by simp
next
  case (Cons x xs)
  obtain p ps where "split_char c xs = p # ps" by (cases "split_char c xs") auto
  with Cons show ?case by (cases ps) auto
qed

lemma set_split_char: "p \<in> set (split_char c s) \<Longrightarrow> c \<notin> set p"
proof (induction s arbitrary: p)
  case Nil
  then show ?case by simp
next
  case (Cons x xs)
  then show ?case by (cases "split_char c xs") (auto split: if_splits)
qed

end
