(* ===== verification/Header.thy ===== *)
theory Header
  imports Prelude
begin

text \<open>
  Package header (src/pkg/header/header.go): the 16-byte header in front of every
  packet of the overlay. The record, \<open>NewHeader\<close>, \<open>Reset\<close>, \<open>Encode\<close>,
  \<open>encodeToSlice\<close>, \<open>Parse\<close> and \<open>String\<close> follow the source; a nil receiver is
  \<open>None\<close>. The lemmas show that encoding and parsing are inverse to each other,
  which bytes \<open>Parse\<close> accepts, and when each error is returned.
\<close>

section \<open>Constants and data\<close>

definition HeaderVersion :: u8 where "HeaderVersion = 1"
definition HeaderLen :: nat where "HeaderLen = 16"
definition HeaderPadding :: u16 where "HeaderPadding = 0xfeed"

definition MsgHandshake :: u8 where "MsgHandshake = 1"
definition MsgData :: u8 where "MsgData = 2"
definition MsgDiscovery :: u8 where "MsgDiscovery = 6"
definition MsgPunch :: u8 where "MsgPunch = 0xff"

lemmas header_consts = HeaderVersion_def HeaderLen_def HeaderPadding_def
lemmas message_types = MsgHandshake_def MsgData_def MsgDiscovery_def MsgPunch_def

record Header =
  Version :: u8
  Type :: u8
  SenderIndex :: u32
  Counter :: u64
  Padding :: u16

datatype header_error =
    HeaderNil
  | CapacityTooSmall
  | HeaderTooShort
  | VersionMismatch
  | PaddingInvalid

section \<open>Operations\<close>

definition NewHeader :: Header where
  "NewHeader = \<lparr>Version = 0, Type = 0, SenderIndex = 0, Counter = 0, Padding = 0\<rparr>"

definition Reset :: "Header \<Rightarrow> Header" where
  "Reset h = h\<lparr>Version := HeaderVersion, Type := 0, SenderIndex := 0, Counter := 0,
     Padding := HeaderPadding\<rparr>"

definition encodeToSlice :: "gslice \<Rightarrow> Header \<Rightarrow> gslice" where
  "encodeToSlice b h =
     (let b = reslice HeaderLen b;
          a0 = (backing b)[0 := Version h];
          a1 = a0[1 := Type h];
          a2 = put_at 2 (put_be 4 (SenderIndex h)) a1;
          a3 = put_at 6 (put_be 8 (Counter h)) a2;
          a4 = put_at 14 (put_be 2 (Padding h)) a3
      in b\<lparr>backing := a4\<rparr>)"

definition Encode ::
  "Header option \<Rightarrow> gslice \<Rightarrow> u8 \<Rightarrow> u32 \<Rightarrow> u64 \<Rightarrow> header_error + gslice \<times> Header" where
  "Encode h b t index counter =
     (case h of
        None \<Rightarrow> Inl HeaderNil
      | Some h \<Rightarrow>
          if scap b < HeaderLen then Inl CapacityTooSmall
          else let h' = h\<lparr>Version := HeaderVersion, Type := t, SenderIndex := index,
                          Counter := counter, Padding := HeaderPadding\<rparr>
               in Inr (encodeToSlice b h', h'))"

text \<open>
  \<open>Parse\<close> fills the receiver before it validates, so the fields are overwritten
  even when the version or the padding is refused.
\<close>

definition Parse :: "Header option \<Rightarrow> bytes \<Rightarrow> header_error option \<times> Header option" where
  "Parse h b =
     (case h of
        None \<Rightarrow> (Some HeaderNil, None)
      | Some h \<Rightarrow>
          if length b < HeaderLen then (Some HeaderTooShort, Some h)
          else let h' = h\<lparr>Version := b ! 0, Type := b ! 1,
                          SenderIndex := get_be (take 4 (drop 2 b)),
                          Counter := get_be (take 8 (drop 6 b)),
                          Padding := get_be (take 2 (drop 14 b))\<rparr>
               in if Version h' \<noteq> HeaderVersion then (Some VersionMismatch, Some h')
                  else if Padding h' \<noteq> HeaderPadding then (Some PaddingInvalid, Some h')
                  else (None, Some h'))"

definition hex_char :: "nat \<Rightarrow> char" where
  "hex_char d = (if d < 10 then char_of (48 + d) else char_of (87 + d))"

fun hex_string :: "nat \<Rightarrow> string" where
  "hex_string n = (if n < 16 then [hex_char n] else hex_string (n div 16) @ [hex_char (n mod 16)])"

declare hex_string.simps [simp del]

definition header_String :: "Header option \<Rightarrow> string" where
  "header_String h =
     (case h of
        None \<Rightarrow> ''<nil>''
      | Some h \<Rightarrow>
          ''header: {version: '' @ dec_string (unat (Version h)) @
          '', type: '' @ dec_string (unat (Type h)) @
          '', index: '' @ dec_string (unat (SenderIndex h)) @
          '', counter :'' @ dec_string (unat (Counter h)) @
          '', padding: #'' @ hex_string (unat (Padding h)))"

section \<open>Wire format\<close>

text \<open>The 16 bytes of a header in wire order, the reference for \<open>encodeToSlice\<close>.\<close>

definition wire :: "Header \<Rightarrow> bytes" where
  "wire h = Version h # Type h # put_be 4 (SenderIndex h) @ put_be 8 (Counter h) @ put_be 2 (Padding h)"

definition header_ok :: "Header \<Rightarrow> bool" where
  "header_ok h \<longleftrightarrow> Version h = HeaderVersion \<and> Padding h = HeaderPadding"

definition parse_frame :: "bytes \<Rightarrow> Header option" where
  "parse_frame b =
     (if length b = HeaderLen \<and> fst (Parse (Some NewHeader) b) = None
      then snd (Parse (Some NewHeader) b) else None)"

lemma length_wire [simp]: "length (wire h) = HeaderLen"
  by (simp add: wire_def HeaderLen_def)

lemma wire_windows [simp]:
  "wire h ! 0 = Version h" "wire h ! Suc 0 = Type h"
  "take 4 (drop 2 (wire h)) = put_be 4 (SenderIndex h)"
  "take 8 (drop 6 (wire h)) = put_be 8 (Counter h)"
  "take 2 (drop 14 (wire h)) = put_be 2 (Padding h)"
  by (simp_all add: wire_def)

lemma list_16_split:
  assumes "16 \<le> length (xs :: 'a list)"
  shows "take 16 xs = xs ! 0 # xs ! 1 # take 4 (drop 2 xs) @ take 8 (drop 6 xs) @ take 2 (drop 14 xs)"
proof -
  have "take 16 xs = take 2 xs @ take 14 (drop 2 xs)" by (simp flip: take_add)
  also have "take 14 (drop 2 xs) = take 4 (drop 2 xs) @ take 10 (drop 6 xs)"
    using take_add [of 4 10 "drop 2 xs"] by simp
  also have "take 10 (drop 6 xs) = take 8 (drop 6 xs) @ take 2 (drop 14 xs)"
    using take_add [of 8 2 "drop 6 xs"] by simp
  also have "take 2 xs = [xs ! 0, xs ! 1]"
    using assms by (cases xs; cases "tl xs") (auto simp: numeral_2_eq_2)
  finally show ?thesis by simp
qed

lemma encodeToSlice_wire:
  assumes "HeaderLen \<le> scap b"
  shows "sbytes (encodeToSlice b h) = wire h"
    and "backing (encodeToSlice b h) = wire h @ drop HeaderLen (backing b)"
    and "slen (encodeToSlice b h) = HeaderLen"
proof -
  let ?a = "backing (encodeToSlice b h)"
  have len: "length ?a = scap b"
    using assms by (simp add: encodeToSlice_def reslice_def scap_def HeaderLen_def Let_def)
  have ne: "backing b \<noteq> []" using assms by (auto simp: scap_def HeaderLen_def)
  have len16: "16 \<le> length ?a" using assms len by (simp add: HeaderLen_def)
  have "take 16 ?a = ?a ! 0 # ?a ! 1 # take 4 (drop 2 ?a) @ take 8 (drop 6 ?a) @ take 2 (drop 14 ?a)"
    by (rule list_16_split [OF len16])
  also have "\<dots> = wire h"
    using assms ne
    by (simp add: encodeToSlice_def reslice_def wire_def scap_def HeaderLen_def Let_def
        put_at_def nth_append drop_take min_def)
  finally have front: "take 16 ?a = wire h" .
  have tail_eq: "drop 16 ?a = drop 16 (backing b)"
    using assms
    by (simp add: encodeToSlice_def reslice_def scap_def HeaderLen_def Let_def)
  show "slen (encodeToSlice b h) = HeaderLen"
    by (simp add: encodeToSlice_def reslice_def Let_def)
  then show "sbytes (encodeToSlice b h) = wire h"
    using front by (simp add: sbytes_def HeaderLen_def)
  show "backing (encodeToSlice b h) = wire h @ drop HeaderLen (backing b)"
    using front tail_eq append_take_drop_id [of 16 ?a] by (simp add: HeaderLen_def)
qed

text \<open>The header that \<open>Parse\<close> reads off the first sixteen bytes.\<close>

definition header_at :: "bytes \<Rightarrow> Header" where
  "header_at b = \<lparr>Version = b ! 0, Type = b ! 1, SenderIndex = get_be (take 4 (drop 2 b)),
     Counter = get_be (take 8 (drop 6 b)), Padding = get_be (take 2 (drop 14 b))\<rparr>"

lemma Parse_header_at:
  "Parse (Some h) b =
     (if length b < HeaderLen then (Some HeaderTooShort, Some h)
      else if Version (header_at b) \<noteq> HeaderVersion then (Some VersionMismatch, Some (header_at b))
      else if Padding (header_at b) \<noteq> HeaderPadding then (Some PaddingInvalid, Some (header_at b))
      else (None, Some (header_at b)))"
  by (cases h) (simp add: Parse_def header_at_def Let_def)

lemma header_at_wire [simp]: "header_at (wire h @ rest) = h"
proof -
  define b where "b = wire h @ rest"
  have "b ! 0 = Version h" "b ! 1 = Type h"
    "take 4 (drop 2 b) = put_be 4 (SenderIndex h)"
    "take 8 (drop 6 b) = put_be 8 (Counter h)"
    "take 2 (drop 14 b) = put_be 2 (Padding h)"
    by (simp_all add: b_def wire_def)
  then show ?thesis
    unfolding b_def [symmetric] by (cases h) (simp add: header_at_def take_bit_word_eq_self)
qed

lemma wire_header_at: "HeaderLen \<le> length b \<Longrightarrow> wire (header_at b) = take HeaderLen b"
  unfolding HeaderLen_def
  by (subst list_16_split) (simp_all add: wire_def header_at_def put_be_get_be)

lemma header_at_padding:
  assumes "HeaderLen \<le> length b"
  shows "Padding (header_at b) = HeaderPadding \<longleftrightarrow> b ! 14 = 0xfe \<and> b ! 15 = 0xed"
proof -
  have win: "take 2 (drop 14 b) = [b ! 14, b ! 15]"
    using assms by (intro nth_equalityI) (auto simp: HeaderLen_def nth_Cons' less_2_cases_iff)
  have pad: "HeaderPadding = get_be [0xfe, 0xed]"
    by (simp add: HeaderPadding_def)
  show ?thesis
    unfolding header_at_def Header.select_convs win pad by (subst get_be_inject) simp_all
qed

lemma Parse_accepts:
  "fst (Parse (Some h) b) = None \<longleftrightarrow>
     HeaderLen \<le> length b \<and> b ! 0 = HeaderVersion \<and> b ! 14 = 0xfe \<and> b ! 15 = 0xed"
  using header_at_padding [of b] by (auto simp: Parse_header_at) (simp_all add: header_at_def)

lemma Parse_accepts_result:
  "fst (Parse (Some h) b) = None \<Longrightarrow> snd (Parse (Some h) b) = Some (header_at b)"
  by (auto simp: Parse_header_at split: if_splits)

interpretation frame: strict_codec wire parse_frame header_ok
proof unfold_locales
  fix h :: Header
  assume "header_ok h"
  then show "parse_frame (wire h) = Some h"
    using header_at_wire [of h "[]"]
    by (simp add: parse_frame_def Parse_header_at header_ok_def del: header_at_wire)
next
  fix w and h :: Header
  assume "parse_frame w = Some h"
  then show "header_ok h \<and> wire h = w"
    using wire_header_at [of w]
    by (auto simp: parse_frame_def Parse_header_at header_ok_def split: if_splits)
qed

section \<open>Properties\<close>

text \<open>
  C37 (round trip). Encoding a header into any slice of capacity at least sixteen
  succeeds, yields a slice of exactly sixteen bytes over the same array with the
  bytes behind it untouched, and parsing those bytes, whatever payload follows,
  gives back the message type, sender index and counter.
\<close>

theorem Encode_then_Parse:
  assumes "HeaderLen \<le> scap b"
  shows "\<exists>out h'. Encode (Some h) b t index counter = Inr (out, h') \<and>
     slen out = HeaderLen \<and> scap out = scap b \<and>
     drop HeaderLen (backing out) = drop HeaderLen (backing b) \<and>
     Parse (Some h0) (sbytes out @ payload) =
       (None, Some \<lparr>Version = HeaderVersion, Type = t, SenderIndex = index,
          Counter = counter, Padding = HeaderPadding\<rparr>)"
proof -
  let ?h = "h\<lparr>Version := HeaderVersion, Type := t, SenderIndex := index,
               Counter := counter, Padding := HeaderPadding\<rparr>"
  have "Encode (Some h) b t index counter = Inr (encodeToSlice b ?h, ?h)"
    using assms by (simp add: Encode_def Let_def)
  moreover have "scap (encodeToSlice b ?h) = scap b"
    using assms by (simp add: scap_def encodeToSlice_wire)
  ultimately show ?thesis
    using assms by (cases h) (simp add: encodeToSlice_wire Parse_header_at)
qed

theorem Encode_then_Parse_witness:
  "HeaderLen \<le> scap (make_slice 20) \<and>
   (\<exists>out h'. Encode (Some NewHeader) (make_slice 20) MsgData 7 258 = Inr (out, h') \<and>
     slen out = HeaderLen \<and> scap out = scap (make_slice 20) \<and>
     drop HeaderLen (backing out) = drop HeaderLen (backing (make_slice 20)) \<and>
     Parse (Some NewHeader) (sbytes out @ [9]) =
       (None, Some \<lparr>Version = HeaderVersion, Type = MsgData, SenderIndex = 7,
          Counter = 258, Padding = HeaderPadding\<rparr>))"
proof -
  have cap: "HeaderLen \<le> scap (make_slice 20)"
    by (simp add: HeaderLen_def scap_def make_slice_def)
  then show ?thesis using Encode_then_Parse [OF cap] by blast
qed

text \<open>
  C38 (round trip, other direction). A packet that \<open>Parse\<close> accepts starts with
  exactly the sixteen bytes that \<open>Encode\<close> writes for the parsed fields, so no two
  different wire headers are read as the same header.
\<close>

theorem Parse_then_Encode:
  assumes "Parse (Some h) b = (None, Some h')" and "HeaderLen \<le> scap s"
  shows "map_sum id (sbytes \<circ> fst) (Encode (Some h0) s (Type h') (SenderIndex h') (Counter h')) =
     Inr (take HeaderLen b)"
proof -
  from assms(1) have h': "h' = header_at b" and ok: "header_ok h'" and len: "HeaderLen \<le> length b"
    by (auto simp: Parse_header_at header_ok_def split: if_splits)
  have "h0\<lparr>Version := HeaderVersion, Type := Type h', SenderIndex := SenderIndex h',
           Counter := Counter h', Padding := HeaderPadding\<rparr> = h'"
    using ok by (cases h0; cases h') (simp add: header_ok_def)
  then show ?thesis
    using assms(2) h' wire_header_at [OF len] by (simp add: Encode_def Let_def encodeToSlice_wire)
qed

theorem Parse_then_Encode_witness:
  "map_sum id (sbytes \<circ> fst)
     (Encode (Some NewHeader) (make_slice 16) MsgPunch 5 0) =
   Inr [1, 0xff, 0, 0, 0, 5, 0, 0, 0, 0, 0, 0, 0, 0, 0xfe, 0xed]"
proof -
  let ?h = "\<lparr>Version = HeaderVersion, Type = MsgPunch, SenderIndex = 5, Counter = 0, Padding = HeaderPadding\<rparr>"
  let ?b = "[1, 0xff, 0, 0, 0, 5, 0, 0, 0, 0, 0, 0, 0, 0, 0xfe, 0xed] :: bytes"
  have w: "wire ?h = ?b"
    by code_simp
  have "Parse (Some NewHeader) (wire ?h @ []) = (None, Some ?h)"
    by (simp only: Parse_header_at header_at_wire) (simp add: header_consts wire_def)
  then have p: "Parse (Some NewHeader) ?b = (None, Some ?h)" by (simp only: w append_Nil2)
  have s: "HeaderLen \<le> scap (make_slice 16)" by (simp add: HeaderLen_def scap_def make_slice_def)
  show ?thesis using Parse_then_Encode [OF p s, of NewHeader] by (simp add: HeaderLen_def)
qed

text \<open>
  The result of \<open>Parse\<close> on every input: a nil receiver, fewer than
  sixteen bytes, a version other than 1 and a padding other than 0xfeed are
  reported in this order, and everything else is accepted.
\<close>

lemma Parse_errors:
  "fst (Parse h b) =
     (if h = None then Some HeaderNil
      else if length b < 16 then Some HeaderTooShort
      else if b ! 0 \<noteq> 1 then Some VersionMismatch
      else if \<not> (b ! 14 = 0xfe \<and> b ! 15 = 0xed) then Some PaddingInvalid
      else None)"
proof (cases h)
  case None
  then show ?thesis by (simp add: Parse_def)
next
  case (Some g)
  then show ?thesis
    using header_at_padding [of b]
    by (auto simp: Parse_header_at header_at_def HeaderLen_def HeaderVersion_def)
qed

end
