(* ===== verification/NetAddr.thy ===== *)
theory NetAddr
  imports Prelude "HOL-Library.Char_ord" "HOL-Library.List_Lexorder" "HOL-Library.Product_Lexorder"
begin

text \<open>
  Network addresses: what the program uses of the standard packages net and
  net/netip (\<open>netip.Addr\<close>, \<open>netip.Prefix\<close>, \<open>netip.AddrPort\<close>, \<open>net.IP\<close>,
  \<open>net.UDPAddr\<close>), and the address helpers of src/node/helpers.go. IPv4 text is
  parsed and printed in full; the IPv6 text forms are a parameter (\<open>ip6_text\<close>),
  since no behaviour of the program depends on their syntax. The order of
  addresses is \<open>Addr.Compare\<close>.
\<close>

section \<open>Addresses\<close>

datatype Addr = NoAddr | Addr4 u32 | Addr6 "128 word" string

fun BitLen :: "Addr \<Rightarrow> nat" where
  "BitLen NoAddr = 0"
| "BitLen (Addr4 a) = 32"
| "BitLen (Addr6 a z) = 128"

fun addr_num :: "Addr \<Rightarrow> nat" where
  "addr_num NoAddr = 0"
| "addr_num (Addr4 a) = unat a"
| "addr_num (Addr6 a z) = unat a"

fun addr_zone :: "Addr \<Rightarrow> string" where
  "addr_zone (Addr6 a z) = z"
| "addr_zone _ = []"

definition IsValid :: "Addr \<Rightarrow> bool" where
  "IsValid a \<longleftrightarrow> a \<noteq> NoAddr"

text \<open>\<open>Addr.Compare\<close>: by family, then by number, then by zone.\<close>

definition Compare :: "Addr \<Rightarrow> Addr \<Rightarrow> int" where
  "Compare a b =
     (if BitLen a < BitLen b then - 1
      else if BitLen b < BitLen a then 1
      else if addr_num a < addr_num b then - 1
      else if addr_num b < addr_num a then 1
      else if addr_zone a < addr_zone b then - 1
      else if addr_zone b < addr_zone a then 1
      else 0)"

definition addr_key :: "Addr \<Rightarrow> nat \<times> nat \<times> string" where
  "addr_key a = (BitLen a, addr_num a, addr_zone a)"

lemma addr_key_inject [simp]: "addr_key a = addr_key b \<longleftrightarrow> a = b"
  by (cases a; cases b) (auto simp: addr_key_def word_unat_eq_iff)

instantiation Addr :: linorder
begin

definition less_eq_Addr :: "Addr \<Rightarrow> Addr \<Rightarrow> bool" where
  "less_eq_Addr a b \<longleftrightarrow> addr_key a \<le> addr_key b"

definition less_Addr :: "Addr \<Rightarrow> Addr \<Rightarrow> bool" where
  "less_Addr a b \<longleftrightarrow> addr_key a < addr_key b"

instance
  by standard (auto simp: less_eq_Addr_def less_Addr_def order.order_iff_strict, metis addr_key_inject linorder_less_linear)

end

lemma Compare_order: "Compare a b = go_cmp a b"
  using addr_key_inject [of a b]
  by (auto simp: Compare_def go_cmp_def less_Addr_def addr_key_def less_prod_def' simp del: addr_key_inject)

lemma Compare_eq_0 [simp]: "Compare a b = 0 \<longleftrightarrow> a = b"
  by (simp add: Compare_order)

text \<open>
  \<open>Addr.Next\<close>: the following address of the same family, the zero \<open>Addr\<close> after
  the last one. (The program never takes the successor of an invalid address:
  \<open>AllocatePeerIP\<close> stops there.)
\<close>

fun Next :: "Addr \<Rightarrow> Addr" where
  "Next NoAddr = NoAddr"
| "Next (Addr4 a) = (if a + 1 = 0 then NoAddr else Addr4 (a + 1))"
| "Next (Addr6 a z) = (if a + 1 = 0 then NoAddr else Addr6 (a + 1) z)"

section \<open>Text of IPv4 addresses\<close>

definition octet :: "string \<Rightarrow> u8 option" where
  "octet s =
     (if list_all is_digit s \<and> no_leading_zero s \<and> dec_value s \<le> 255
      then Some (of_nat (dec_value s)) else None)"

definition parseIPv4 :: "string \<Rightarrow> u32 option" where
  "parseIPv4 s =
     (case map octet (split_char (CHR ''.'') s) of
        [Some a, Some b, Some c, Some d] \<Rightarrow> Some (get_be [a, b, c, d])
      | _ \<Rightarrow> None)"

definition string4 :: "u32 \<Rightarrow> string" where
  "string4 a = join_char (CHR ''.'') (map (\<lambda>b. dec_string (unat b)) (put_be 4 a))"

lemma octet_dec_string [simp]: "octet (dec_string (unat b)) = Some b"
  using unsigned_less [of b, where 'a = nat] by (simp add: octet_def dec_string_digits)

lemma dec_string_octet: "octet s = Some b \<Longrightarrow> dec_string (unat b) = s"
  by (auto simp: octet_def unat_of_nat take_bit_nat_eq_self dec_string_value split: if_splits)

lemma dot_not_digit: "\<not> is_digit (CHR ''.'')"
  by (simp add: is_digit_def)

lemma dot_notin_dec_string [simp]: "CHR ''.'' \<notin> set (dec_string n)"
  using dec_string_digits [of n] dot_not_digit by (auto simp: list_all_iff)

lemma put_be_4: "put_be 4 (v :: u32) =
   [ucast (drop_bit 24 v), ucast (drop_bit 16 v), ucast (drop_bit 8 v), ucast v]"
  by (simp add: eval_nat_numeral)

interpretation ipv4_text: strict_codec string4 parseIPv4 "\<lambda>_. True"
proof unfold_locales
  fix a :: u32
  have "split_char (CHR ''.'') (string4 a) = map (\<lambda>b. dec_string (unat b)) (put_be 4 a)"
    unfolding string4_def by (rule split_join) (auto simp: put_be_4)
  moreover have "get_be (put_be 4 a) = a" by (simp add: take_bit_word_eq_self)
  ultimately show "parseIPv4 (string4 a) = Some a"
    by (simp add: parseIPv4_def put_be_4)
next
  fix s and a :: u32
  assume "parseIPv4 s = Some a"
  then obtain p q r t where sp: "split_char (CHR ''.'') s = [p, q, r, t]"
    and oc: "octet p \<noteq> None" "octet q \<noteq> None" "octet r \<noteq> None" "octet t \<noteq> None"
    and a: "a = get_be [the (octet p), the (octet q), the (octet r), the (octet t)]"
    by (auto simp: parseIPv4_def split: list.splits option.splits)
  have "put_be 4 a = [the (octet p), the (octet q), the (octet r), the (octet t)]"
    unfolding a by (rule put_be_get_be) simp_all
  with oc have "map (\<lambda>b. dec_string (unat b)) (put_be 4 a) = [p, q, r, t]"
    by (auto simp: dec_string_octet)
  then have "string4 a = join_char (CHR ''.'') (split_char (CHR ''.'') s)"
    by (simp only: string4_def sp)
  then show "True \<and> string4 a = s" by simp
qed

section \<open>General text forms\<close>

record ip6_text =
  parse6 :: "string \<Rightarrow> Addr option"
  string6 :: "128 word \<Rightarrow> string \<Rightarrow> string"

text \<open>\<open>netip.ParseAddr\<close> looks for the first character that decides the family.\<close>

fun addr_family :: "string \<Rightarrow> char option" where
  "addr_family [] = None"
| "addr_family (c # cs) =
     (if c = CHR ''.'' \<or> c = CHR '':'' \<or> c = CHR ''%'' then Some c else addr_family cs)"

definition netip_ParseAddr :: "ip6_text \<Rightarrow> string \<Rightarrow> Addr option" where
  "netip_ParseAddr ip6 s =
     (case addr_family s of
        Some c \<Rightarrow> if c = CHR ''.'' then map_option Addr4 (parseIPv4 s)
                  else if c = CHR '':'' then parse6 ip6 s else None
      | None \<Rightarrow> None)"

definition addr_String :: "ip6_text \<Rightarrow> Addr \<Rightarrow> string" where
  "addr_String ip6 a =
     (case a of NoAddr \<Rightarrow> ''invalid IP'' | Addr4 v \<Rightarrow> string4 v | Addr6 v z \<Rightarrow> string6 ip6 v z)"

lemma addr_family_dec_string: "addr_family (dec_string n @ s) = addr_family s"
proof -
  have "list_all is_digit t \<Longrightarrow> addr_family (t @ s) = addr_family s" for t
    by (induction t) (auto simp: is_digit_def)
  then show ?thesis by (simp add: dec_string_digits)
qed

lemma ParseAddr_string4 [simp]: "netip_ParseAddr ip6 (string4 a) = Some (Addr4 a)"
proof -
  have "addr_family (string4 a) = Some (CHR ''.'')"
    by (simp add: string4_def put_be_4 addr_family_dec_string)
  then show ?thesis by (simp add: netip_ParseAddr_def ipv4_text.dec_enc)
qed

lemma ParseAddr_String_valid:
  "BitLen a = 32 \<Longrightarrow> netip_ParseAddr ip6 (addr_String ip6 a) = Some a"
  by (cases a) (auto simp: addr_String_def)

lemma ParseAddr_not_zero:
  "(\<And>t. parse6 ip6 t \<noteq> Some NoAddr) \<Longrightarrow> netip_ParseAddr ip6 s = Some a \<Longrightarrow> IsValid a"
  by (auto simp: netip_ParseAddr_def IsValid_def split: option.splits if_splits)

section \<open>Prefixes\<close>

record Prefix =
  pAddr :: Addr
  pBits :: nat

definition valid_Prefix :: "Prefix \<Rightarrow> bool" where
  "valid_Prefix p \<longleftrightarrow> IsValid (pAddr p) \<and> pBits p \<le> BitLen (pAddr p)"

text \<open>\<open>netip.ParsePrefix\<close>: the text behind the last slash is the number of bits.\<close>

definition netip_ParsePrefix :: "ip6_text \<Rightarrow> string \<Rightarrow> Prefix option" where
  "netip_ParsePrefix ip6 s =
     (let ps = split_char (CHR ''/'') s; bs = last ps; as = join_char (CHR ''/'') (butlast ps)
      in if length ps < 2 then None
         else case netip_ParseAddr ip6 as of
                None \<Rightarrow> None
              | Some a \<Rightarrow>
                  if addr_zone a \<noteq> [] then None
                  else if list_all is_digit bs \<and> no_leading_zero bs \<and> dec_value bs \<le> BitLen a
                  then Some \<lparr>pAddr = a, pBits = dec_value bs\<rparr> else None)"

definition prefix_String :: "ip6_text \<Rightarrow> Prefix \<Rightarrow> string" where
  "prefix_String ip6 p = addr_String ip6 (pAddr p) @ CHR ''/'' # dec_string (pBits p)"

lemma slash_not_in_dec_string: "CHR ''/'' \<notin> set (dec_string n)"
  using dec_string_digits [of n] by (auto simp: list_all_iff is_digit_def)

lemma slash_not_in_string4: "CHR ''/'' \<notin> set (string4 v)"
  by (simp add: string4_def put_be_4 slash_not_in_dec_string)

lemma ParsePrefix_string4:
  "b \<le> 32 \<Longrightarrow> netip_ParsePrefix ip6 (string4 v @ CHR ''/'' # dec_string b) = Some \<lparr>pAddr = Addr4 v, pBits = b\<rparr>"
  by (simp add: netip_ParsePrefix_def slash_not_in_string4 slash_not_in_dec_string dec_string_digits)

text \<open>\<open>Prefix.Masked\<close> clears the host bits, \<open>Prefix.Contains\<close> compares the network bits.\<close>

fun mask_addr :: "nat \<Rightarrow> Addr \<Rightarrow> Addr" where
  "mask_addr n NoAddr = NoAddr"
| "mask_addr n (Addr4 a) = Addr4 (push_bit (32 - n) (drop_bit (32 - n) a))"
| "mask_addr n (Addr6 a z) = Addr6 (push_bit (128 - n) (drop_bit (128 - n) a)) []"

definition Masked :: "Prefix \<Rightarrow> Prefix" where
  "Masked p = p\<lparr>pAddr := mask_addr (pBits p) (pAddr p)\<rparr>"

definition Contains :: "Prefix \<Rightarrow> Addr \<Rightarrow> bool" where
  "Contains p ip =
     (if \<not> valid_Prefix p \<or> addr_zone ip \<noteq> [] then False
      else case (pAddr p, ip) of
             (Addr4 a, Addr4 b) \<Rightarrow> drop_bit (32 - pBits p) (a XOR b) = 0
           | (Addr6 a _, Addr6 b _) \<Rightarrow> drop_bit (128 - pBits p) (a XOR b) = 0
           | _ \<Rightarrow> False)"

text \<open>The last address of a prefix: all host bits set.\<close>

fun last_addr :: "nat \<Rightarrow> Addr \<Rightarrow> Addr" where
  "last_addr n NoAddr = NoAddr"
| "last_addr n (Addr4 a) = Addr4 (a OR mask (32 - n))"
| "last_addr n (Addr6 a z) = Addr6 (a OR mask (128 - n)) []"

lemma word_xor_eq_0: "a XOR b = (0 :: 'a::len word) \<longleftrightarrow> a = b"
  by (auto simp: bit_eq_iff bit_xor_iff)

lemma Contains4:
  "pBits p \<le> 32 \<Longrightarrow> pAddr p = Addr4 a \<Longrightarrow>
     Contains p (Addr4 b) \<longleftrightarrow> drop_bit (32 - pBits p) a = drop_bit (32 - pBits p) b"
  by (simp add: Contains_def valid_Prefix_def IsValid_def word_xor_eq_0)

lemma Contains_family: "Contains p ip \<Longrightarrow> BitLen (pAddr p) = BitLen ip \<and> IsValid ip"
  by (cases "pAddr p"; cases ip) (auto simp: Contains_def IsValid_def split: if_splits)

section \<open>Package net\<close>

text \<open>
  A \<open>net.IP\<close> is a byte slice of length 4 or 16; the 16-byte form of an IPv4
  address carries a fixed prefix.
\<close>

type_synonym netIP = bytes

definition v4InV6Prefix :: bytes where
  "v4InV6Prefix = replicate 10 0 @ [0xff, 0xff]"

definition IP_Equal :: "netIP \<Rightarrow> netIP \<Rightarrow> bool" where
  "IP_Equal ip x =
     (if length ip = length x then ip = x
      else if length ip = 4 \<and> length x = 16 then take 12 x = v4InV6Prefix \<and> ip = drop 12 x
      else if length ip = 16 \<and> length x = 4 then take 12 ip = v4InV6Prefix \<and> drop 12 ip = x
      else False)"

definition To4 :: "netIP \<Rightarrow> netIP" where
  "To4 ip = (if length ip = 4 then ip
             else if length ip = 16 \<and> take 12 ip = v4InV6Prefix then drop 12 ip else [])"

definition AddrFromSlice :: "bytes \<Rightarrow> Addr" where
  "AddrFromSlice b =
     (if length b = 4 then Addr4 (get_be b)
      else if length b = 16 then Addr6 (get_be b) [] else NoAddr)"

fun AsSlice :: "Addr \<Rightarrow> bytes" where
  "AsSlice NoAddr = []"
| "AsSlice (Addr4 a) = put_be 4 a"
| "AsSlice (Addr6 a z) = put_be 16 a"

record UDPAddr =
  uIP :: netIP
  uPort :: u16

record AddrPort =
  apAddr :: Addr
  apPort :: u16

definition udp_AddrPort :: "UDPAddr \<Rightarrow> AddrPort" where
  "udp_AddrPort u = \<lparr>apAddr = AddrFromSlice (uIP u), apPort = uPort u\<rparr>"

lemma AddrFromSlice_AsSlice: "addr_zone a = [] \<Longrightarrow> AddrFromSlice (AsSlice a) = a"
  by (cases a) (simp_all add: AddrFromSlice_def take_bit_word_eq_self)

lemma IP_Equal_refl [simp]: "IP_Equal ip ip"
  by (simp add: IP_Equal_def)

lemma IP_Equal_sym: "IP_Equal a b \<longleftrightarrow> IP_Equal b a"
  by (auto simp: IP_Equal_def)

lemma To4_Equal: "length (To4 ip) = 4 \<Longrightarrow> IP_Equal ip (To4 ip)"
  by (auto simp: To4_def IP_Equal_def split: if_splits)

lemma IP_Equal_To4:
  assumes "length (To4 ip) = 4" and "length x = 4"
  shows "IP_Equal ip x \<longleftrightarrow> To4 ip = x"
  using assms by (auto simp: To4_def IP_Equal_def split: if_splits)

section \<open>Helpers of package node\<close>

definition CompareAddrPort :: "AddrPort \<Rightarrow> AddrPort \<Rightarrow> int" where
  "CompareAddrPort p1 p2 =
     (let c = Compare (apAddr p1) (apAddr p2)
      in if c \<noteq> 0 then c else go_cmp (apPort p1) (apPort p2))"

text \<open>\<open>ParseAddr\<close> and \<open>ParseAddrPort\<close> return the zero value beside their error.\<close>

definition ParseAddr :: "ip6_text \<Rightarrow> string \<Rightarrow> Addr \<times> bool" where
  "ParseAddr ip6 s = (case netip_ParseAddr ip6 s of None \<Rightarrow> (NoAddr, False) | Some a \<Rightarrow> (a, True))"

text \<open>
  \<open>netip.ParseAddrPort\<close> splits at the last colon and removes the brackets of an
  IPv6 address (which must be there for one, and must not for IPv4).
\<close>

definition parse_port :: "string \<Rightarrow> u16 option" where
  "parse_port s = (if s \<noteq> [] \<and> list_all is_digit s \<and> dec_value s < 65536
                   then Some (of_nat (dec_value s)) else None)"

definition netip_ParseAddrPort :: "ip6_text \<Rightarrow> string \<Rightarrow> AddrPort option" where
  "netip_ParseAddrPort ip6 s =
     (let ps = split_char (CHR '':'') s; port = last ps;
          host = join_char (CHR '':'') (butlast ps);
          br = host \<noteq> [] \<and> hd host = CHR ''['';
          ip = (if br then butlast (tl host) else host)
      in if length ps < 2 \<or> host = [] \<or> port = [] then None
         else if br \<and> (length host < 2 \<or> last host \<noteq> CHR '']'') then None
         else case (parse_port port, netip_ParseAddr ip6 ip) of
                (Some n, Some a) \<Rightarrow>
                  if (BitLen a = 128) = br then Some \<lparr>apAddr = a, apPort = n\<rparr> else None
              | _ \<Rightarrow> None)"

definition ParseAddrPort :: "ip6_text \<Rightarrow> string \<Rightarrow> AddrPort \<times> bool" where
  "ParseAddrPort ip6 s =
     (case netip_ParseAddrPort ip6 s of
        None \<Rightarrow> (\<lparr>apAddr = NoAddr, apPort = 0\<rparr>, False) | Some a \<Rightarrow> (a, True))"

lemma colon_not_in_dec_string: "CHR '':'' \<notin> set (dec_string n)"
  using dec_string_digits [of n] by (auto simp: list_all_iff is_digit_def)

lemma colon_not_in_string4: "CHR '':'' \<notin> set (string4 v)"
  by (simp add: string4_def put_be_4 colon_not_in_dec_string)

lemma string4_head: "string4 v \<noteq> []" "hd (string4 v) \<noteq> CHR ''[''"
proof -
  obtain c s where s: "dec_string (unat (ucast (drop_bit 24 v) :: u8)) = c # s" by (cases "dec_string (unat (ucast (drop_bit 24 v) :: u8))") simp_all
  then have "is_digit c" using dec_string_digits [of "unat (ucast (drop_bit 24 v) :: u8)"] by simp
  then show "string4 v \<noteq> []" "hd (string4 v) \<noteq> CHR ''[''" using s by (auto simp: string4_def put_be_4 is_digit_def)
qed

lemma parse_port_dec_string: "parse_port (dec_string (unat (n :: u16))) = Some n"
  using unsigned_less [of n, where 'a = nat] by (simp add: parse_port_def dec_string_digits)

lemma ParseAddrPort_string4:
  "netip_ParseAddrPort ip6 (string4 v @ CHR '':'' # dec_string (unat (n :: u16))) = Some \<lparr>apAddr = Addr4 v, apPort = n\<rparr>"
proof -
  have "split_char (CHR '':'') (string4 v @ CHR '':'' # dec_string (unat n)) = [string4 v, dec_string (unat n)]"
    by (simp add: colon_not_in_string4 colon_not_in_dec_string)
  then show ?thesis by (simp add: netip_ParseAddrPort_def string4_head parse_port_dec_string)
qed

section \<open>Properties\<close>

text \<open>
  The textual form of an IPv4 address parses back to it, and
  a text that is accepted as an IPv4 address is the canonical form of the parsed
  address: no leading zeros, no other spelling of the same address.
\<close>

lemma IPv4_text_roundtrip:
  "netip_ParseAddr ip6 (addr_String ip6 (Addr4 a)) = Some (Addr4 a) \<and>
   (parseIPv4 s = Some a \<longleftrightarrow> s = string4 a)"
  using ParseAddr_String_valid [of "Addr4 a"] ipv4_text.dec_iff [of s a] by simp

text \<open>
  \<open>CompareAddrPort\<close> is a total order on address and port: it
  returns 0 exactly for equal endpoints, is antisymmetric and transitive.
\<close>

lemma CompareAddrPort_order:
  "(CompareAddrPort p q = 0 \<longleftrightarrow> p = q) \<and>
   CompareAddrPort p q = - CompareAddrPort q p \<and>
   (CompareAddrPort p q \<le> 0 \<and> CompareAddrPort q r \<le> 0 \<longrightarrow> CompareAddrPort p r \<le> 0)"
proof -
  have key: "CompareAddrPort p q = go_cmp (apAddr p, apPort p) (apAddr q, apPort q)" for p q
    by (auto simp: CompareAddrPort_def go_cmp_def Compare_order less_prod_def' Let_def)
  have "(apAddr p, apPort p) = (apAddr q, apPort q) \<longleftrightarrow> p = q"
    by (cases p; cases q) simp
  then have "CompareAddrPort p q = 0 \<longleftrightarrow> p = q" by (simp only: key go_cmp_eq_0)
  moreover have "CompareAddrPort p q = - CompareAddrPort q p" unfolding key by (rule go_cmp_antisym)
  moreover have "CompareAddrPort p q \<le> 0 \<and> CompareAddrPort q r \<le> 0 \<longrightarrow> CompareAddrPort p r \<le> 0"
    unfolding key go_cmp_le_0 using order_trans by blast
  ultimately show ?thesis by blast
qed

end
