(* ===== verification/Buffers.thy ===== *)
theory Buffers
  imports Header NetAddr
begin

text \<open>
  Packet buffers and their pools (src/node/queue.go). A buffer is a record of the
  source's fields; the peer it belongs to is the address of that peer. The two
  \<open>sync.Pool\<close>s keep returned buffers; which buffer \<open>Get\<close> takes, or whether it
  allocates a new one, is up to the runtime and is the parameter \<open>pick\<close>. The
  lemmas show that a buffer handed out never shows bytes of an earlier packet
  and that the usage counters count the buffers outside the pools.
\<close>

section \<open>Data\<close>

definition BufferSize :: nat where "BufferSize = 1600"

record InboundBuffer =
  ib_in :: gslice
  ib_packet :: gslice
  ib_raddr :: "UDPAddr option"
  ib_size :: nat
  ib_header :: Header
  ib_peer :: "nat option"

record OutboundBuffer =
  ob_out :: gslice
  ob_packet :: gslice
  ob_size :: nat
  ob_header :: Header
  ob_peer :: "nat option"

record bufs =
  InboundBuffers :: "InboundBuffer list"
  OutboundBuffers :: "OutboundBuffer list"
  IBuffersInUse :: u64
  OBuffersInUse :: u64

record pick =
  pick_in :: "InboundBuffer list \<Rightarrow> nat option"
  pick_out :: "OutboundBuffer list \<Rightarrow> nat option"

section \<open>Operations\<close>

definition NewInboundBuffer :: InboundBuffer where
  "NewInboundBuffer = \<lparr>ib_in = make_slice BufferSize, ib_packet = make_slice BufferSize,
     ib_raddr = None, ib_size = 0, ib_header = NewHeader, ib_peer = None\<rparr>"

definition NewOutboundBuffer :: OutboundBuffer where
  "NewOutboundBuffer = \<lparr>ob_out = make_slice BufferSize, ob_packet = make_slice BufferSize,
     ob_size = 0, ob_header = NewHeader, ob_peer = None\<rparr>"

text \<open>\<open>sync.Pool.Get\<close>: an arbitrary pooled item, or a new one.\<close>

definition pool_take :: "('b list \<Rightarrow> nat option) \<Rightarrow> 'b \<Rightarrow> 'b list \<Rightarrow> 'b \<times> 'b list" where
  "pool_take sel fresh xs =
     (case sel xs of
        Some i \<Rightarrow> if i < length xs then (xs ! i, take i xs @ drop (Suc i) xs) else (fresh, xs)
      | None \<Rightarrow> (fresh, xs))"

definition GetInboundBuffer :: "pick \<Rightarrow> bufs \<Rightarrow> InboundBuffer \<times> bufs" where
  "GetInboundBuffer pk s =
     (let s = s\<lparr>IBuffersInUse := IBuffersInUse s + 1\<rparr>;
          (b, xs) = pool_take (pick_in pk) NewInboundBuffer (InboundBuffers s)
      in (b, s\<lparr>InboundBuffers := xs\<rparr>))"

definition scrub_in :: "InboundBuffer \<Rightarrow> InboundBuffer" where
  "scrub_in b = b\<lparr>ib_in := clear_slice (ib_in b), ib_packet := clear_slice (ib_packet b),
     ib_raddr := None, ib_size := 0, ib_header := Reset (ib_header b), ib_peer := None\<rparr>"

definition PutInboundBuffer :: "InboundBuffer \<Rightarrow> bufs \<Rightarrow> bufs" where
  "PutInboundBuffer b s =
     s\<lparr>InboundBuffers := scrub_in b # InboundBuffers s,
       IBuffersInUse := IBuffersInUse s + NOT 0\<rparr>"

definition GetOutboundBuffer :: "pick \<Rightarrow> bufs \<Rightarrow> OutboundBuffer \<times> bufs" where
  "GetOutboundBuffer pk s =
     (let s = s\<lparr>OBuffersInUse := OBuffersInUse s + 1\<rparr>;
          (b, xs) = pool_take (pick_out pk) NewOutboundBuffer (OutboundBuffers s)
      in (b, s\<lparr>OutboundBuffers := xs\<rparr>))"

definition scrub_out :: "OutboundBuffer \<Rightarrow> OutboundBuffer" where
  "scrub_out b = b\<lparr>ob_out := clear_slice (ob_out b), ob_packet := clear_slice (ob_packet b),
     ob_size := 0, ob_peer := None, ob_header := Reset (ob_header b)\<rparr>"

definition PutOutboundBuffer :: "OutboundBuffer \<Rightarrow> bufs \<Rightarrow> bufs" where
  "PutOutboundBuffer b s =
     s\<lparr>OutboundBuffers := scrub_out b # OutboundBuffers s,
       OBuffersInUse := OBuffersInUse s + NOT 0\<rparr>"

section \<open>Shape and cleanliness\<close>

text \<open>
  The arrays a buffer is allocated with keep their length for its whole life;
  a clean buffer is one whose visible bytes are zero and whose fields are reset.
\<close>

definition full_slice :: "gslice \<Rightarrow> bool" where
  "full_slice b \<longleftrightarrow> slen b = BufferSize \<and> scap b = BufferSize"

definition shape_in :: "InboundBuffer \<Rightarrow> bool" where
  "shape_in b \<longleftrightarrow> full_slice (ib_in b)"

definition shape_out :: "OutboundBuffer \<Rightarrow> bool" where
  "shape_out b \<longleftrightarrow> full_slice (ob_out b) \<and> full_slice (ob_packet b)"

definition clean_in :: "InboundBuffer \<Rightarrow> bool" where
  "clean_in b \<longleftrightarrow> ib_in b = make_slice BufferSize \<and> list_all (\<lambda>x. x = 0) (sbytes (ib_packet b)) \<and>
     ib_raddr b = None \<and> ib_size b = 0 \<and> ib_peer b = None"

definition clean_out :: "OutboundBuffer \<Rightarrow> bool" where
  "clean_out b \<longleftrightarrow> ob_out b = make_slice BufferSize \<and> ob_packet b = make_slice BufferSize \<and>
     ob_size b = 0 \<and> ob_peer b = None"

lemma clear_full_slice: "full_slice b \<Longrightarrow> clear_slice b = make_slice BufferSize"
  by (cases b) (simp add: clear_slice_def full_slice_def make_slice_def scap_def)

lemma sbytes_clear_slice: "list_all (\<lambda>x. x = 0) (sbytes (clear_slice b))"
  by (simp add: sbytes_def clear_slice_def list_all_iff)

lemma full_make_slice [simp]: "full_slice (make_slice BufferSize)"
  by (simp add: full_slice_def make_slice_def scap_def)

lemma clean_in_shape: "clean_in b \<Longrightarrow> shape_in b"
  by (simp add: clean_in_def shape_in_def)

lemma clean_out_shape: "clean_out b \<Longrightarrow> shape_out b"
  by (simp add: clean_out_def shape_out_def)

lemma pool_take_cases:
  assumes "pool_take sel fresh xs = (b, ys)"
  shows "(b = fresh \<and> ys = xs) \<or> (b \<in> set xs \<and> set ys \<subseteq> set xs \<and> Suc (length ys) = length xs)"
  using assms
  by (auto simp: pool_take_def split: option.splits if_splits dest: in_set_takeD in_set_dropD)

text \<open>
  The contract of a pool towards the packet paths. \<open>free\<close> is the pool's content,
  \<open>used\<close> the counter, \<open>shape\<close> what a buffer keeps while it is in use.
\<close>

locale buffer_pool =
  fixes get :: "'s \<Rightarrow> 'b \<times> 's"
    and put :: "'b \<Rightarrow> 's \<Rightarrow> 's"
    and free :: "'s \<Rightarrow> 'b list"
    and used :: "'s \<Rightarrow> u64"
    and shape :: "'b \<Rightarrow> bool"
    and clean :: "'b \<Rightarrow> bool"
  assumes get_clean: "list_all clean (free s) \<Longrightarrow> get s = (b, s') \<Longrightarrow> clean b \<and> list_all clean (free s')"
    and get_used: "get s = (b, s') \<Longrightarrow> used s' = used s + 1"
    and put_clean: "list_all clean (free s) \<Longrightarrow> shape b \<Longrightarrow> list_all clean (free (put b s))"
    and put_used: "used (put b s) = used s - 1"
    and clean_shape: "clean b \<Longrightarrow> shape b"
begin

lemma get_put_used: "get s = (b, s') \<Longrightarrow> used (put b' s') = used s"
  by (simp add: get_used put_used)

lemma get_put_clean:
  "list_all clean (free s) \<Longrightarrow> get s = (b, s') \<Longrightarrow> shape b' \<Longrightarrow> list_all clean (free (put b' s'))"
  using get_clean put_clean by blast

end

interpretation inpool: buffer_pool "GetInboundBuffer pk" PutInboundBuffer InboundBuffers IBuffersInUse
  shape_in clean_in for pk
proof unfold_locales
  fix s s' :: bufs and b
  assume "list_all clean_in (InboundBuffers s)" "GetInboundBuffer pk s = (b, s')"
  then show "clean_in b \<and> list_all clean_in (InboundBuffers s')"
    by (auto simp: GetInboundBuffer_def Let_def list_all_iff clean_in_def NewInboundBuffer_def
        sbytes_make_slice split: prod.splits dest!: pool_take_cases)
next
  fix s s' :: bufs and b
  assume "GetInboundBuffer pk s = (b, s')"
  then show "IBuffersInUse s' = IBuffersInUse s + 1"
    by (auto simp: GetInboundBuffer_def Let_def split: prod.splits)
next
  fix s :: bufs and b
  assume "list_all clean_in (InboundBuffers s)" "shape_in b"
  then show "list_all clean_in (InboundBuffers (PutInboundBuffer b s))"
    by (simp add: PutInboundBuffer_def clean_in_def scrub_in_def shape_in_def clear_full_slice
        sbytes_clear_slice)
qed (simp_all add: PutInboundBuffer_def clean_in_shape)

interpretation outpool: buffer_pool "GetOutboundBuffer pk" PutOutboundBuffer OutboundBuffers OBuffersInUse
  shape_out clean_out for pk
proof unfold_locales
  fix s s' :: bufs and b
  assume "list_all clean_out (OutboundBuffers s)" "GetOutboundBuffer pk s = (b, s')"
  then show "clean_out b \<and> list_all clean_out (OutboundBuffers s')"
    by (auto simp: GetOutboundBuffer_def Let_def list_all_iff clean_out_def NewOutboundBuffer_def
        split: prod.splits dest!: pool_take_cases)
next
  fix s s' :: bufs and b
  assume "GetOutboundBuffer pk s = (b, s')"
  then show "OBuffersInUse s' = OBuffersInUse s + 1"
    by (auto simp: GetOutboundBuffer_def Let_def split: prod.splits)
next
  fix s :: bufs and b
  assume "list_all clean_out (OutboundBuffers s)" "shape_out b"
  then show "list_all clean_out (OutboundBuffers (PutOutboundBuffer b s))"
    by (simp add: PutOutboundBuffer_def clean_out_def scrub_out_def shape_out_def clear_full_slice)
qed (simp_all add: PutOutboundBuffer_def clean_out_shape)

section \<open>Histories\<close>

text \<open>Any sequence of pool operations, as the routines of the node issue them.\<close>

datatype pool_op =
    GetIn | PutIn InboundBuffer | GetOut | PutOut OutboundBuffer

fun pool_event :: "pick \<Rightarrow> pool_op \<Rightarrow> bufs \<Rightarrow> bufs" where
  "pool_event pk GetIn s = snd (GetInboundBuffer pk s)"
| "pool_event pk (PutIn b) s = PutInboundBuffer b s"
| "pool_event pk GetOut s = snd (GetOutboundBuffer pk s)"
| "pool_event pk (PutOut b) s = PutOutboundBuffer b s"

fun event_shape :: "pool_op \<Rightarrow> bool" where
  "event_shape (PutIn b) = shape_in b"
| "event_shape (PutOut b) = shape_out b"
| "event_shape _ = True"

definition no_bufs :: bufs where
  "no_bufs = \<lparr>InboundBuffers = [], OutboundBuffers = [], IBuffersInUse = 0, OBuffersInUse = 0\<rparr>"

definition pools_clean :: "bufs \<Rightarrow> bool" where
  "pools_clean s \<longleftrightarrow> list_all clean_in (InboundBuffers s) \<and> list_all clean_out (OutboundBuffers s)"

definition out_balance :: "pool_op list \<Rightarrow> int" where
  "out_balance es = int (count_list es GetOut) - int (length (filter (\<lambda>e. case e of PutOut _ \<Rightarrow> True | _ \<Rightarrow> False) es))"

definition in_balance :: "pool_op list \<Rightarrow> int" where
  "in_balance es = int (count_list es GetIn) - int (length (filter (\<lambda>e. case e of PutIn _ \<Rightarrow> True | _ \<Rightarrow> False) es))"

lemma Get_frames [simp]:
  "OutboundBuffers (snd (GetInboundBuffer pk s)) = OutboundBuffers s"
  "InboundBuffers (snd (GetOutboundBuffer pk s)) = InboundBuffers s"
  "OBuffersInUse (snd (GetInboundBuffer pk s)) = OBuffersInUse s"
  "IBuffersInUse (snd (GetOutboundBuffer pk s)) = IBuffersInUse s"
  by (simp_all add: GetInboundBuffer_def GetOutboundBuffer_def Let_def split: prod.splits)

lemma Put_frames [simp]:
  "OutboundBuffers (PutInboundBuffer b s) = OutboundBuffers s"
  "InboundBuffers (PutOutboundBuffer b' s) = InboundBuffers s"
  "OBuffersInUse (PutInboundBuffer b s) = OBuffersInUse s"
  "IBuffersInUse (PutOutboundBuffer b' s) = IBuffersInUse s"
  by (simp_all add: PutInboundBuffer_def PutOutboundBuffer_def)

lemma pool_event_clean: "pools_clean s \<Longrightarrow> event_shape e \<Longrightarrow> pools_clean (pool_event pk e s)"
  by (cases e)
    (auto simp: pools_clean_def inpool.put_clean outpool.put_clean
      dest: inpool.get_clean [OF _ prod.collapse [symmetric]] outpool.get_clean [OF _ prod.collapse [symmetric]])

lemma pool_event_used:
  "IBuffersInUse (pool_event pk e s) = IBuffersInUse s + of_int (in_balance [e])"
  "OBuffersInUse (pool_event pk e s) = OBuffersInUse s + of_int (out_balance [e])"
  by (cases e; simp add: in_balance_def out_balance_def inpool.put_used outpool.put_used
      inpool.get_used [OF prod.collapse [symmetric]] outpool.get_used [OF prod.collapse [symmetric]])+

lemma balance_Cons:
  "in_balance (e # es) = in_balance [e] + in_balance es"
  "out_balance (e # es) = out_balance [e] + out_balance es"
  by (auto simp: in_balance_def out_balance_def)

lemma pool_history:
  assumes "pools_clean s" and "list_all event_shape es"
  shows "pools_clean (fold (pool_event pk) es s) \<and>
     IBuffersInUse (fold (pool_event pk) es s) = IBuffersInUse s + of_int (in_balance es) \<and>
     OBuffersInUse (fold (pool_event pk) es s) = OBuffersInUse s + of_int (out_balance es)"
  using assms
proof (induction es arbitrary: s)
  case Nil
  then show ?case by (simp add: in_balance_def out_balance_def)
next
  case (Cons e es)
  then show ?case
    by (simp add: pool_event_clean pool_event_used balance_Cons [of e es] algebra_simps)
qed

section \<open>Properties\<close>

text \<open>
  C36 (safety). After any history of buffer operations that starts with empty
  pools, every buffer handed out for receiving or sending is clean: all 1600 bytes of its array
  are zero and its address, size and peer are unset, so no byte of an earlier
  packet can leak into a later one. The two usage counters equal the number of
  buffers taken minus the number returned, modulo \<open>2^64\<close>.
\<close>

theorem pool_never_leaks:
  assumes "list_all event_shape es" and "s = fold (pool_event pk) es no_bufs"
  shows "clean_in (fst (GetInboundBuffer pk' s)) \<and> clean_out (fst (GetOutboundBuffer pk' s)) \<and>
     IBuffersInUse s = of_int (in_balance es) \<and> OBuffersInUse s = of_int (out_balance es)"
proof -
  have "pools_clean no_bufs" by (simp add: pools_clean_def no_bufs_def)
  then have h: "pools_clean s" "IBuffersInUse s = of_int (in_balance es)"
    "OBuffersInUse s = of_int (out_balance es)"
    using pool_history [of no_bufs es pk] assms by (simp_all add: no_bufs_def)
  then show ?thesis
    using inpool.get_clean [of s pk', OF _ prod.collapse [symmetric]]
      outpool.get_clean [of s pk', OF _ prod.collapse [symmetric]]
    by (simp add: pools_clean_def)
qed

theorem pool_never_leaks_witness:
  "list_all event_shape [GetIn, PutIn (NewInboundBuffer\<lparr>ib_size := 3\<rparr>), GetOut] \<and>
   IBuffersInUse (fold (pool_event \<lparr>pick_in = (\<lambda>_. Some 0), pick_out = (\<lambda>_. None)\<rparr>)
     [GetIn, PutIn (NewInboundBuffer\<lparr>ib_size := 3\<rparr>), GetOut] no_bufs) = 0"
proof -
  let ?es = "[GetIn, PutIn (NewInboundBuffer\<lparr>ib_size := 3\<rparr>), GetOut]"
  have es: "list_all event_shape ?es"
    by (simp add: shape_in_def NewInboundBuffer_def)
  moreover have "in_balance ?es = 0" by (simp add: in_balance_def)
  ultimately show ?thesis using pool_never_leaks [OF es refl] by simp
qed

end
