(* ===== verification/PeerTransport.thy ===== *)
theory PeerTransport
  imports Buffers
begin

text \<open>
  One remote peer of a node: src/node/noise.go, src/node/peer.go (without
  \<open>AddPeer\<close>, which belongs to the node's maps) and src/node/peer_transport.go.
  The Noise library is the parameter \<open>noise_lib\<close>. The state is the \<open>Peer\<close> struct
  together with what its routines do to the outside (\<open>world\<close>: the buffer pools,
  the packets sent on the socket, the packets written to the tunnel, the punch
  requests). One iteration of a routine, one timer callback or one call is one
  step; waiting for \<open>pendingLock\<close>, a channel or the wait group is \<open>Block\<close>, and a
  nil dereference, a slice bound, an explicit panic or unlocking an unlocked
  mutex is \<open>Panic\<close>.
\<close>

section \<open>The Noise library and the environment\<close>

record ('hs, 'cs, 'kp) noise_lib =
  new_handshake :: "bool \<Rightarrow> 'kp \<Rightarrow> bytes option \<Rightarrow> 'hs option"
  write_message :: "'hs \<Rightarrow> (bytes \<times> 'hs \<times> ('cs \<times> 'cs) option) option"
  read_message :: "'hs \<Rightarrow> bytes \<Rightarrow> ('hs \<times> ('cs \<times> 'cs) option) option"
  cs_encrypt :: "'cs \<Rightarrow> bytes \<Rightarrow> (bytes \<times> 'cs) option"
  cs_decrypt :: "'cs \<Rightarrow> bytes \<Rightarrow> bytes \<times> 'cs \<times> bool"
  cs_Nonce :: "'cs \<Rightarrow> u64"
  cs_SetNonce :: "u64 \<Rightarrow> 'cs \<Rightarrow> 'cs"

text \<open>
  What a peer reads of its node: the library, the choice of pooled buffers, the
  node's id and its key pair.
\<close>

record ('hs, 'cs, 'kp) env =
  lib :: "('hs, 'cs, 'kp) noise_lib"
  pk :: pick
  nid :: u32
  keyPair :: 'kp

text \<open>\<open>CreateHandshake\<close> gives the remote static key to the initiator only.\<close>

definition CreateHandshake ::
  "('hs, 'cs, 'kp) noise_lib \<Rightarrow> bool \<Rightarrow> 'kp \<Rightarrow> bytes \<Rightarrow> 'hs option" where
  "CreateHandshake l init keypair rs =
     new_handshake l init keypair (if init then Some rs else None)"

section \<open>State\<close>

definition CountHandshakeRetries :: u64 where "CountHandshakeRetries = 10"
definition InboundChannelSize :: nat where "InboundChannelSize = 1024"
definition OutboundChannelSize :: nat where "OutboundChannelSize = 1024"
definition HandshakeChannelSize :: nat where "HandshakeChannelSize = 3"
definition TimerHandshakeTimeout :: nat where "TimerHandshakeTimeout = 5"
definition TimerRxTimeout :: nat where "TimerRxTimeout = 15"
definition TimerKeepalive :: nat where "TimerKeepalive = 10"

datatype timer = Stopped | Armed nat

text \<open>
  A routine that drains a channel: not started or finished, waiting for the
  channel, or holding a buffer it took and waiting for \<open>pendingLock\<close>.
\<close>

datatype 'b routine = Exited | Idle | Holding 'b

record ('hs, 'cs) Peer =
  Hostname :: string
  raddr :: "UDPAddr option"
  peerIP :: Addr
  peerID :: u32
  hs :: "'hs option"
  rx :: "'cs option"
  tx :: "'cs option"
  hstate :: u64
  initiator :: bool
  pubkey :: bytes
  handshakeSent :: timer
  receivedPacket :: timer
  keepalive :: timer
  handshakeRetries :: u64
  inbound :: "InboundBuffer option list"
  outbound :: "OutboundBuffer option list"
  handshakes :: "InboundBuffer option list"
  running :: bool
  inTransport :: bool
  pendingLock :: bool
  inRoutine :: "InboundBuffer routine"
  outRoutine :: "OutboundBuffer routine"
  hsRoutine :: "InboundBuffer routine"

record world =
  pools :: bufs
  udp_out :: "(bytes \<times> UDPAddr) list"
  tun_out :: "bytes list"
  punches :: "u32 list"

type_synonym ('hs, 'cs) pstate = "('hs, 'cs) Peer \<times> world"

definition NewPeer :: "('hs, 'cs) Peer" where
  "NewPeer = \<lparr>Hostname = [], raddr = None, peerIP = NoAddr, peerID = 0,
     hs = None, rx = None, tx = None, hstate = 0, initiator = False, pubkey = [],
     handshakeSent = Stopped, receivedPacket = Stopped, keepalive = Stopped,
     handshakeRetries = 0, inbound = [], outbound = [], handshakes = [],
     running = False, inTransport = False, pendingLock = False,
     inRoutine = Exited, outRoutine = Exited, hsRoutine = Exited\<rparr>"

section \<open>Effects\<close>

definition nil_deref :: "'a outcome" where
  "nil_deref = Panic ''invalid memory address or nil pointer dereference''"

definition put_in :: "InboundBuffer \<Rightarrow> world \<Rightarrow> world" where
  "put_in b w = w\<lparr>pools := PutInboundBuffer b (pools w)\<rparr>"

definition put_out :: "OutboundBuffer \<Rightarrow> world \<Rightarrow> world" where
  "put_out b w = w\<lparr>pools := PutOutboundBuffer b (pools w)\<rparr>"

definition get_out :: "pick \<Rightarrow> world \<Rightarrow> OutboundBuffer \<times> world" where
  "get_out c w = (let (b, s) = GetOutboundBuffer c (pools w) in (b, w\<lparr>pools := s\<rparr>))"

text \<open>\<open>WriteToUDP\<close> without an address returns an error, which every caller ignores.\<close>

definition send_udp :: "bytes \<Rightarrow> UDPAddr option \<Rightarrow> world \<Rightarrow> world" where
  "send_udp bs a w = (case a of None \<Rightarrow> w | Some a \<Rightarrow> w\<lparr>udp_out := udp_out w @ [(bs, a)]\<rparr>)"

text \<open>\<open>buffer.in[HeaderLen:buffer.size]\<close>.\<close>

definition in_payload :: "InboundBuffer \<Rightarrow> bytes outcome" where
  "in_payload b =
     (if HeaderLen \<le> ib_size b \<and> ib_size b \<le> scap (ib_in b)
      then Ret (drop HeaderLen (take (ib_size b) (backing (ib_in b))))
      else Panic ''slice bounds out of range'')"

text \<open>\<open>buffer.packet[:buffer.size]\<close>.\<close>

definition out_payload :: "OutboundBuffer \<Rightarrow> bytes outcome" where
  "out_payload b =
     (if ob_size b \<le> scap (ob_packet b) then Ret (take (ob_size b) (backing (ob_packet b)))
      else Panic ''slice bounds out of range'')"

text \<open>
  \<open>buffer.header.Encode(buffer.out, \<dots>)\<close> whose error is dropped by all callers:
  the encoded bytes and the buffer with its array and header written.
\<close>

definition encode_out :: "u8 \<Rightarrow> u32 \<Rightarrow> u64 \<Rightarrow> OutboundBuffer \<Rightarrow> bytes \<times> OutboundBuffer" where
  "encode_out t i c b =
     (case Encode (Some (ob_header b)) (ob_out b) t i c of
        Inl _ \<Rightarrow> ([], b)
      | Inr (s, h) \<Rightarrow> (sbytes s, b\<lparr>ob_out := (ob_out b)\<lparr>backing := backing s\<rparr>, ob_header := h\<rparr>))"

section \<open>Endpoints\<close>

definition UpdateEndpoint ::
  "UDPAddr option \<Rightarrow> ('hs, 'cs) Peer \<Rightarrow> ('hs, 'cs) Peer outcome" where
  "UpdateEndpoint addr p =
     (case (raddr p, addr) of
        (Some old, Some new) \<Rightarrow>
          Ret (if \<not> IP_Equal (uIP old) (uIP new) \<or> uPort old \<noteq> uPort new
               then p\<lparr>raddr := Some new\<rparr> else p)
      | _ \<Rightarrow> nil_deref)"

definition UpdateEndpointLocked ::
  "UDPAddr option \<Rightarrow> ('hs, 'cs) Peer \<Rightarrow> ('hs, 'cs) Peer outcome" where
  "UpdateEndpointLocked addr p =
     (case (raddr p, addr) of
        (Some old, Some new) \<Rightarrow>
          Ret (if \<not> IP_Equal (uIP old) (uIP new) \<or> uPort old \<noteq> uPort new
               then p\<lparr>raddr := Some new\<rparr> else p)
      | _ \<Rightarrow> nil_deref)"

definition RequestPunch :: "('hs, 'cs) Peer \<Rightarrow> world \<Rightarrow> world" where
  "RequestPunch p w = w\<lparr>punches := punches w @ [peerID p]\<rparr>"

section \<open>Resetting\<close>

text \<open>
  The flush loops return every queued buffer to its pool; a nil entry (the signal
  of \<open>Stop\<close>) would be dereferenced.
\<close>

fun flushInboundQueue :: "InboundBuffer option list \<Rightarrow> world \<Rightarrow> world outcome" where
  "flushInboundQueue [] w = Ret w"
| "flushInboundQueue (Some b # q) w = flushInboundQueue q (put_in b w)"
| "flushInboundQueue (None # q) w = nil_deref"

fun flushOutboundQueue :: "OutboundBuffer option list \<Rightarrow> world \<Rightarrow> world outcome" where
  "flushOutboundQueue [] w = Ret w"
| "flushOutboundQueue (Some b # q) w = flushOutboundQueue q (put_out b w)"
| "flushOutboundQueue (None # q) w = nil_deref"

definition flushHandshakeQueue :: "InboundBuffer option list \<Rightarrow> world \<Rightarrow> world outcome" where
  "flushHandshakeQueue q w = flushInboundQueue q w"

definition flushQueues :: "('hs, 'cs) pstate \<Rightarrow> ('hs, 'cs) pstate outcome" where
  "flushQueues st =
     (case st of (p, w) \<Rightarrow>
        obind (flushHandshakeQueue (handshakes p) w) (\<lambda>w1.
        obind (flushOutboundQueue (outbound p) w1) (\<lambda>w2.
        obind (flushInboundQueue (inbound p) w2) (\<lambda>w3.
        Ret (p\<lparr>handshakes := [], outbound := [], inbound := []\<rparr>, w3)))))"

definition ResetState :: "('hs, 'cs) pstate \<Rightarrow> ('hs, 'cs) pstate outcome" where
  "ResetState st =
     (case st of (p, w) \<Rightarrow>
        let wasRunning = running p;
            p1 = p\<lparr>running := False, handshakeRetries := 0, receivedPacket := Stopped,
                   keepalive := Stopped\<rparr>
        in obind (flushQueues (p1, w)) (\<lambda>(p2, w2).
           Ret (p2\<lparr>hs := None, rx := None, tx := None, initiator := False, hstate := 0,
                   inTransport := False, running := wasRunning\<rparr>, w2)))"

section \<open>Handshake messages\<close>

definition InitHandshake ::
  "('hs, 'cs, 'kp) env \<Rightarrow> bool \<Rightarrow> ('hs, 'cs) Peer \<Rightarrow> ('hs, 'cs) Peer \<times> bool" where
  "InitHandshake e init p =
     (let h = CreateHandshake (lib e) init (keyPair e) (pubkey p)
      in (p\<lparr>initiator := init, hs := h\<rparr>, h \<noteq> None))"

definition handshakeP1 ::
  "('hs, 'cs, 'kp) env \<Rightarrow> OutboundBuffer \<Rightarrow> ('hs, 'cs) pstate \<Rightarrow> ('hs, 'cs) pstate outcome" where
  "handshakeP1 e buffer st =
     (case st of (p, w) \<Rightarrow>
        let (final, buffer) = encode_out MsgHandshake (nid e) 0 buffer
        in case hs p of
             None \<Rightarrow> nil_deref
           | Some h \<Rightarrow>
               (case write_message (lib e) h of
                  None \<Rightarrow> Panic ''error writing first handshake message''
                | Some (m, h', _) \<Rightarrow>
                    Ret (p\<lparr>hs := Some h', hstate := 1\<rparr>,
                         put_out buffer (send_udp (final @ m) (raddr p) w))))"

definition TrySendHandshake ::
  "('hs, 'cs, 'kp) env \<Rightarrow> bool \<Rightarrow> ('hs, 'cs) pstate \<Rightarrow> ('hs, 'cs) pstate outcome" where
  "TrySendHandshake e retry st =
     (case st of (p, w) \<Rightarrow>
        let p = p\<lparr>handshakeRetries := handshakeRetries p + 1\<rparr>
        in if retry \<and> handshakeRetries p > CountHandshakeRetries
           then ResetState (p\<lparr>handshakeSent := Stopped\<rparr>, w)
           else let w = (if retry then RequestPunch p w else w);
                    (p, ok) = InitHandshake e True p
                in if \<not> ok then Panic ''handshake initialisation''
                   else let (buffer, w) = get_out (pk e) w
                        in obind (handshakeP1 e buffer (p, w)) (\<lambda>(p, w).
                           Ret (p\<lparr>handshakeSent := Armed 3\<rparr>, w)))"

text \<open>
  \<open>handshakeP2\<close> returns whether it succeeded; the received buffer goes back to the
  pool on every path (it is deferred).
\<close>

definition handshakeP2 ::
  "('hs, 'cs, 'kp) env \<Rightarrow> InboundBuffer \<Rightarrow> ('hs, 'cs) pstate \<Rightarrow>
     (bool \<times> ('hs, 'cs) pstate) outcome" where
  "handshakeP2 e buffer st =
     (case st of (p, w) \<Rightarrow>
        if initiator p then
          (case hs p of
             None \<Rightarrow> nil_deref
           | Some h \<Rightarrow>
               obind (in_payload buffer) (\<lambda>msg.
                 case read_message (lib e) h msg of
                   None \<Rightarrow> Ret (False, (p\<lparr>tx := None, rx := None\<rparr>, put_in buffer w))
                 | Some (h', cs) \<Rightarrow>
                     Ret (True, (p\<lparr>tx := map_option fst cs, rx := map_option snd cs,
                                   raddr := ib_raddr buffer, hs := None\<rparr>, put_in buffer w))))
        else
          (let (p, ok) = InitHandshake e False p
           in if \<not> ok then Ret (False, (p, put_in buffer w))
              else case hs p of
                     None \<Rightarrow> nil_deref
                   | Some h \<Rightarrow>
                       obind (in_payload buffer) (\<lambda>msg.
                         case read_message (lib e) h msg of
                           None \<Rightarrow> Ret (False, (p, put_in buffer w))
                         | Some (h', _) \<Rightarrow>
                             obind (UpdateEndpointLocked (ib_raddr buffer) (p\<lparr>hs := Some h'\<rparr>)) (\<lambda>p.
                             let (outbuf, w) = get_out (pk e) w;
                                 (final, outbuf) = encode_out MsgHandshake (nid e) 1 outbuf
                             in case write_message (lib e) h' of
                                  None \<Rightarrow> Ret (False, (p\<lparr>rx := None, tx := None\<rparr>,
                                                 put_in buffer (put_out outbuf w)))
                                | Some (m, h'', cs) \<Rightarrow>
                                    Ret (True, (p\<lparr>hs := Some h'', rx := map_option fst cs,
                                                  tx := map_option snd cs\<rparr>,
                                                put_in buffer (put_out outbuf
                                                  (send_udp (final @ m) (raddr p) w))))))))"

section \<open>The pending lock\<close>

text \<open>
  \<open>pendingLock\<close> is held for writing while no session keys exist. Taking it again
  waits; releasing it when it is free is a fatal error of package sync.
\<close>

definition lock_pending :: "('hs, 'cs) Peer \<Rightarrow> ('hs, 'cs) Peer outcome" where
  "lock_pending p = (if pendingLock p then Block else Ret (p\<lparr>pendingLock := True\<rparr>))"

definition unlock_pending :: "('hs, 'cs) Peer \<Rightarrow> ('hs, 'cs) Peer outcome" where
  "unlock_pending p =
     (if pendingLock p then Ret (p\<lparr>pendingLock := False\<rparr>)
      else Panic ''sync: Unlock of unlocked RWMutex'')"

section \<open>The handshake routine\<close>

text \<open>The common part of the three cases: process the message, then enter transport.\<close>

definition finish_handshake ::
  "('hs, 'cs, 'kp) env \<Rightarrow> InboundBuffer \<Rightarrow> ('hs, 'cs) pstate \<Rightarrow> ('hs, 'cs) pstate outcome" where
  "finish_handshake e buffer st =
     obind (handshakeP2 e buffer st) (\<lambda>(ok, p, w).
       if \<not> ok then Panic ''handshake failed''
       else obind (unlock_pending (p\<lparr>hstate := 2, inTransport := True\<rparr>)) (\<lambda>p.
            Ret (p\<lparr>handshakeRetries := 0, handshakeSent := Stopped\<rparr>, w)))"

definition Handshake_message ::
  "('hs, 'cs, 'kp) env \<Rightarrow> InboundBuffer \<Rightarrow> ('hs, 'cs) pstate \<Rightarrow> ('hs, 'cs) pstate outcome" where
  "Handshake_message e buffer st =
     (case st of (p, w) \<Rightarrow>
        if hstate p = 0 then
          (if Counter (ib_header buffer) \<noteq> 0 then Panic ''header counter doesnt match state 0''
           else obind (finish_handshake e buffer (p, w)) (\<lambda>(p, w).
                Ret (p\<lparr>keepalive := Armed (TimerKeepalive + 5)\<rparr>, w)))
        else if hstate p = 1 then
          (if Counter (ib_header buffer) \<noteq> 1 then Panic ''header counter doesnt match state 1''
           else obind (finish_handshake e buffer (p, w)) (\<lambda>(p, w).
                Ret (p\<lparr>keepalive := Armed TimerKeepalive\<rparr>, w)))
        else if hstate p = 2 then
          obind (lock_pending p) (\<lambda>p.
          obind (UpdateEndpoint (ib_raddr buffer) p) (\<lambda>p.
          obind (finish_handshake e buffer (p, w)) (\<lambda>(p, w).
          Ret (p\<lparr>keepalive := Armed TimerKeepalive, receivedPacket := Armed TimerRxTimeout\<rparr>, w))))
        else Panic ''out of sequence handshake message received'')"

text \<open>
  One iteration of \<open>Handshake\<close>: take the next message of the channel (nil ends
  the routine). An empty channel leaves the routine waiting.
\<close>

definition Handshake ::
  "('hs, 'cs, 'kp) env \<Rightarrow> ('hs, 'cs) pstate \<Rightarrow> ('hs, 'cs) pstate outcome" where
  "Handshake e st =
     (case st of (p, w) \<Rightarrow>
        if hsRoutine p \<noteq> Idle then Ret (p, w)
        else case chan_recv (handshakes p) of
               None \<Rightarrow> Ret (p, w)
             | Some (None, q) \<Rightarrow> Ret (p\<lparr>handshakes := q, hsRoutine := Exited\<rparr>, w)
             | Some (Some b, q) \<Rightarrow> Handshake_message e b (p\<lparr>handshakes := q\<rparr>, w))"

section \<open>The data routines\<close>

definition append_slice :: "gslice \<Rightarrow> bytes \<Rightarrow> gslice" where
  "append_slice s xs =
     (if slen s + length xs \<le> scap s
      then \<lparr>backing = put_at (slen s) xs (backing s), slen = slen s + length xs\<rparr>
      else \<lparr>backing = sbytes s @ xs, slen = slen s + length xs\<rparr>)"

text \<open>The body of \<open>Inbound\<close> for one buffer, under the read lock.\<close>

definition Inbound_packet ::
  "('hs, 'cs, 'kp) env \<Rightarrow> InboundBuffer \<Rightarrow> ('hs, 'cs) pstate \<Rightarrow> ('hs, 'cs) pstate outcome" where
  "Inbound_packet e buffer st =
     (case st of (p, w) \<Rightarrow>
        case rx p of
          None \<Rightarrow> nil_deref
        | Some c \<Rightarrow>
            let c = cs_SetNonce (lib e) (Counter (ib_header buffer)) c
            in obind (in_payload buffer) (\<lambda>msg.
               let (packet, c, ok) = cs_decrypt (lib e) c msg;
                   buffer = buffer\<lparr>ib_packet := append_slice (reslice 0 (ib_packet buffer)) packet\<rparr>;
                   p = p\<lparr>rx := Some c\<rparr>
               in if \<not> ok then Ret (p, put_in buffer w)
                  else let p = p\<lparr>receivedPacket := Armed TimerRxTimeout\<rparr>;
                           w = (if 0 < slen (ib_packet buffer)
                                then w\<lparr>tun_out := tun_out w @ [sbytes (ib_packet buffer)]\<rparr> else w)
                       in obind (UpdateEndpoint (ib_raddr buffer) p) (\<lambda>p.
                          Ret (p, put_in buffer w))))"

text \<open>The body of \<open>Outbound\<close> for one buffer, under the read lock.\<close>

definition Outbound_packet ::
  "('hs, 'cs, 'kp) env \<Rightarrow> OutboundBuffer \<Rightarrow> ('hs, 'cs) pstate \<Rightarrow> ('hs, 'cs) pstate outcome" where
  "Outbound_packet e buffer st =
     (case st of (p, w) \<Rightarrow>
        case tx p of
          None \<Rightarrow> nil_deref
        | Some c \<Rightarrow>
            let (out, buffer) = encode_out MsgData (nid e) (cs_Nonce (lib e) c) buffer
            in obind (out_payload buffer) (\<lambda>msg.
               case cs_encrypt (lib e) c msg of
                 None \<Rightarrow> Ret (p, put_out buffer w)
               | Some (ct, c') \<Rightarrow>
                   Ret (p\<lparr>tx := Some c', keepalive := Armed TimerKeepalive\<rparr>,
                        put_out buffer (send_udp (out @ ct) (raddr p) w))))"

text \<open>
  The routines take a buffer from their channel and then wait for the lock; the
  two halves of an iteration are separate steps.
\<close>

definition Inbound ::
  "('hs, 'cs, 'kp) env \<Rightarrow> ('hs, 'cs) pstate \<Rightarrow> ('hs, 'cs) pstate outcome" where
  "Inbound e st =
     (case st of (p, w) \<Rightarrow>
        case inRoutine p of
          Exited \<Rightarrow> Ret (p, w)
        | Idle \<Rightarrow>
            (case chan_recv (inbound p) of
               None \<Rightarrow> Ret (p, w)
             | Some (None, q) \<Rightarrow> Ret (p\<lparr>inbound := q, inRoutine := Exited\<rparr>, w)
             | Some (Some b, q) \<Rightarrow> Ret (p\<lparr>inbound := q, inRoutine := Holding b\<rparr>, w))
        | Holding b \<Rightarrow>
            if pendingLock p then Block
            else Inbound_packet e b (p\<lparr>inRoutine := Idle\<rparr>, w))"

definition Outbound ::
  "('hs, 'cs, 'kp) env \<Rightarrow> ('hs, 'cs) pstate \<Rightarrow> ('hs, 'cs) pstate outcome" where
  "Outbound e st =
     (case st of (p, w) \<Rightarrow>
        case outRoutine p of
          Exited \<Rightarrow> Ret (p, w)
        | Idle \<Rightarrow>
            (case chan_recv (outbound p) of
               None \<Rightarrow> Ret (p, w)
             | Some (None, q) \<Rightarrow> Ret (p\<lparr>outbound := q, outRoutine := Exited\<rparr>, w)
             | Some (Some b, q) \<Rightarrow> Ret (p\<lparr>outbound := q, outRoutine := Holding b\<rparr>, w))
        | Holding b \<Rightarrow>
            if pendingLock p then Block
            else Outbound_packet e b (p\<lparr>outRoutine := Idle\<rparr>, w))"

section \<open>Entry points\<close>

definition InboundPacket ::
  "InboundBuffer \<Rightarrow> ('hs, 'cs) pstate \<Rightarrow> ('hs, 'cs) pstate" where
  "InboundPacket buffer st =
     (case st of (p, w) \<Rightarrow>
        if \<not> running p then (p, put_in buffer w)
        else case chan_send InboundChannelSize (Some buffer) (inbound p) of
               Some q \<Rightarrow> (p\<lparr>inbound := q\<rparr>, w)
             | None \<Rightarrow> (p, w))"

definition OutboundPacket ::
  "('hs, 'cs, 'kp) env \<Rightarrow> OutboundBuffer \<Rightarrow> ('hs, 'cs) pstate \<Rightarrow> ('hs, 'cs) pstate outcome" where
  "OutboundPacket e buffer st =
     (case st of (p, w) \<Rightarrow>
        if \<not> running p then Ret (p, put_out buffer w)
        else let p = (case chan_send OutboundChannelSize (Some buffer) (outbound p) of
                        Some q \<Rightarrow> p\<lparr>outbound := q\<rparr>
                      | None \<Rightarrow> p)
             in if \<not> inTransport p \<and> hstate p = 0 then TrySendHandshake e False (p, w)
                else Ret (p, w))"

text \<open>What \<open>OnUDPPacket\<close> does with a handshake message for a known peer.\<close>

definition HandshakePacket ::
  "InboundBuffer \<Rightarrow> ('hs, 'cs) pstate \<Rightarrow> ('hs, 'cs) pstate outcome" where
  "HandshakePacket buffer st =
     (case st of (p, w) \<Rightarrow>
        if running p
        then obind (chan_send_wait HandshakeChannelSize (Some buffer) (handshakes p)) (\<lambda>q.
             Ret (p\<lparr>handshakes := q\<rparr>, w))
        else Ret (p, w))"

section \<open>Timers\<close>

definition HandshakeTimeout ::
  "('hs, 'cs, 'kp) env \<Rightarrow> ('hs, 'cs) pstate \<Rightarrow> ('hs, 'cs) pstate outcome" where
  "HandshakeTimeout e st =
     (case st of (p, w) \<Rightarrow>
        if 0 < hstate p then
          let p = p\<lparr>inTransport := False\<rparr>
          in if initiator p then TrySendHandshake e True (p, w) else Ret (p, w)
        else Ret (p, w))"

definition TXTimeout ::
  "('hs, 'cs, 'kp) env \<Rightarrow> nat \<Rightarrow> ('hs, 'cs) pstate \<Rightarrow> ('hs, 'cs) pstate outcome" where
  "TXTimeout e self st =
     (case st of (p, w) \<Rightarrow>
        if outbound p = [] then
          let (buffer, w) = get_out (pk e) w;
              buffer = buffer\<lparr>ob_peer := Some self\<rparr>
          in obind (chan_send_wait OutboundChannelSize (Some buffer) (outbound p)) (\<lambda>q.
             Ret (p\<lparr>outbound := q\<rparr>, w))
        else Ret (p, w))"

definition RXTimeout ::
  "('hs, 'cs, 'kp) env \<Rightarrow> ('hs, 'cs) pstate \<Rightarrow> ('hs, 'cs) pstate outcome" where
  "RXTimeout e st =
     (case st of (p, w) \<Rightarrow>
        if \<not> inTransport p then Ret (p, w)
        else let p = p\<lparr>keepalive := Stopped, receivedPacket := Stopped\<rparr>
             in obind (lock_pending p) (\<lambda>p.
                let p = p\<lparr>hstate := 0\<rparr>
                in if \<not> initiator p
                   then ResetState (p\<lparr>receivedPacket := Stopped, handshakeSent := Stopped\<rparr>, w)
                   else TrySendHandshake e True (p, w)))"

section \<open>Starting and stopping\<close>

text \<open>\<open>Start\<close> reports an error (\<open>False\<close>) for a peer that already runs.\<close>

definition peer_Start :: "('hs, 'cs) Peer \<Rightarrow> (bool \<times> ('hs, 'cs) Peer) outcome" where
  "peer_Start p =
     (if running p then Ret (False, p)
      else obind (lock_pending p) (\<lambda>p.
           Ret (True, p\<lparr>inRoutine := Idle, outRoutine := Idle, hsRoutine := Idle,
                        running := True, inTransport := False\<rparr>)))"

text \<open>
  \<open>Stop\<close> sends nil to the three routines and waits for them. A routine that waits
  for its channel reads the nil and ends; one that holds a buffer first needs the
  pending lock, which \<open>Stop\<close> releases only afterwards.
\<close>

definition await_routine :: "'b option list \<Rightarrow> 'b routine \<Rightarrow> bool \<Rightarrow> 'b option list outcome" where
  "await_routine q r locked =
     (case r of
        Exited \<Rightarrow> Ret (q @ [None])
      | Idle \<Rightarrow> Ret q
      | Holding b \<Rightarrow> if locked then Block else nil_deref)"

text \<open>
  A \<open>Stop\<close> that waits for ever holds the mutex of its peer, which is then not running and still has
  its pending lock taken. Whoever needs the mutex - another \<open>Stop\<close>, an update - waits too.
\<close>

definition stopping :: "('hs, 'cs) Peer \<Rightarrow> bool" where
  "stopping p \<longleftrightarrow> \<not> running p \<and> pendingLock p"

definition peer_Stop :: "('hs, 'cs) pstate \<Rightarrow> ('hs, 'cs) pstate outcome" where
  "peer_Stop st =
     (case st of (p, w) \<Rightarrow>
        if stopping p then Block else
        obind (ResetState (p\<lparr>running := False\<rparr>, w)) (\<lambda>(p, w).
        obind (await_routine (handshakes p) (hsRoutine p) (pendingLock p)) (\<lambda>hq.
        obind (await_routine (inbound p) (inRoutine p) (pendingLock p)) (\<lambda>iq.
        obind (await_routine (outbound p) (outRoutine p) (pendingLock p)) (\<lambda>oq.
        obind (unlock_pending (p\<lparr>handshakes := hq, inbound := iq, outbound := oq,
                 hsRoutine := Exited, inRoutine := Exited, outRoutine := Exited\<rparr>)) (\<lambda>p.
        Ret (p, w)))))))"

end
