(* ===== verification/PeerInvariant.thy ===== *)
theory PeerInvariant
  imports PeerTransport
begin

text \<open>
  The state machine of a peer: the events that drive it, the invariant that ties
  the handshake state to \<open>pendingLock\<close>, the session keys, the timers and the
  routines, and its consequences. The invariant holds for the handshake pattern
  IK of the Noise library (\<open>noise_ik\<close>: the second message completes it).
\<close>

section \<open>Events\<close>

datatype peer_event =
    EvOutboundPacket OutboundBuffer
  | EvInboundPacket InboundBuffer
  | EvHandshakePacket InboundBuffer
  | EvInbound
  | EvOutbound
  | EvHandshake
  | EvHandshakeTimer
  | EvRxTimer
  | EvTxTimer
  | EvStart
  | EvStop

text \<open>
  A timer event is the expiry of that timer: it happens only while the timer is
  armed, and the timer is stopped when its callback starts. \<open>self\<close> is the peer's
  address, which keepalive buffers carry.
\<close>

fun peer_step ::
  "('hs, 'cs, 'kp) env \<Rightarrow> nat \<Rightarrow> peer_event \<Rightarrow> ('hs, 'cs) pstate \<Rightarrow> ('hs, 'cs) pstate outcome" where
  "peer_step e self (EvOutboundPacket b) st = OutboundPacket e b st"
| "peer_step e self (EvInboundPacket b) st = Ret (InboundPacket b st)"
| "peer_step e self (EvHandshakePacket b) st = HandshakePacket b st"
| "peer_step e self EvInbound st = Inbound e st"
| "peer_step e self EvOutbound st = Outbound e st"
| "peer_step e self EvHandshake st = Handshake e st"
| "peer_step e self EvHandshakeTimer (p, w) =
     (if handshakeSent p = Stopped then Ret (p, w)
      else HandshakeTimeout e (p\<lparr>handshakeSent := Stopped\<rparr>, w))"
| "peer_step e self EvRxTimer (p, w) =
     (if receivedPacket p = Stopped then Ret (p, w)
      else RXTimeout e (p\<lparr>receivedPacket := Stopped\<rparr>, w))"
| "peer_step e self EvTxTimer (p, w) =
     (if keepalive p = Stopped then Ret (p, w)
      else TXTimeout e self (p\<lparr>keepalive := Stopped\<rparr>, w))"
| "peer_step e self EvStart (p, w) = obind (peer_Start p) (\<lambda>(_, p). Ret (p, w))"
| "peer_step e self EvStop st = peer_Stop st"

section \<open>The handshake pattern\<close>

text \<open>An initiator's handshake state after it wrote the first message.\<close>

definition awaiting :: "('hs, 'cs, 'kp) noise_lib \<Rightarrow> 'hs \<Rightarrow> bool" where
  "awaiting l h \<longleftrightarrow>
     (\<exists>k rs h0 m cs. new_handshake l True k rs = Some h0 \<and> write_message l h0 = Some (m, h, cs))"

text \<open>
  Documented behaviour of the Noise pattern IK, which has two messages: reading
  the second message (initiator) and writing it (responder) yields the pair of
  cipher states.
\<close>

definition noise_ik :: "('hs, 'cs, 'kp) noise_lib \<Rightarrow> bool" where
  "noise_ik l \<longleftrightarrow>
     (\<forall>h msg h' cs. awaiting l h \<and> read_message l h msg = Some (h', cs) \<longrightarrow> cs \<noteq> None) \<and>
     (\<forall>k h msg h' cs m h'' cs'.
        new_handshake l False k None = Some h \<and> read_message l h msg = Some (h', cs) \<and>
        write_message l h' = Some (m, h'', cs') \<longrightarrow> cs' \<noteq> None)"

lemma noise_ik_initiator:
  "noise_ik l \<Longrightarrow> awaiting l h \<Longrightarrow> read_message l h msg = Some (h', cs) \<Longrightarrow> cs \<noteq> None"
  unfolding noise_ik_def by blast

lemma noise_ik_responder:
  "noise_ik l \<Longrightarrow> new_handshake l False k None = Some h \<Longrightarrow> read_message l h msg = Some (h', cs) \<Longrightarrow>
     write_message l h' = Some (m, h'', cs') \<Longrightarrow> cs' \<noteq> None"
  unfolding noise_ik_def by blast

section \<open>Resetting as one update\<close>

definition no_nil :: "('hs, 'cs) Peer \<Rightarrow> bool" where
  "no_nil p \<longleftrightarrow> None \<notin> set (inbound p) \<and> None \<notin> set (outbound p) \<and> None \<notin> set (handshakes p)"

definition reset_peer :: "('hs, 'cs) Peer \<Rightarrow> ('hs, 'cs) Peer" where
  "reset_peer p = p\<lparr>handshakeRetries := 0, receivedPacket := Stopped, keepalive := Stopped,
     handshakes := [], outbound := [], inbound := [], hs := None, rx := None, tx := None,
     initiator := False, hstate := 0, inTransport := False\<rparr>"

definition reset_pools :: "('hs, 'cs) Peer \<Rightarrow> bufs \<Rightarrow> bufs" where
  "reset_pools p s =
     fold (\<lambda>b. PutInboundBuffer (the b)) (inbound p)
       (fold (\<lambda>b. PutOutboundBuffer (the b)) (outbound p)
         (fold (\<lambda>b. PutInboundBuffer (the b)) (handshakes p) s))"

lemma flushInboundQueue_Ret:
  "None \<notin> set q \<Longrightarrow>
     flushInboundQueue q w = Ret (w\<lparr>pools := fold (\<lambda>b. PutInboundBuffer (the b)) q (pools w)\<rparr>)"
  by (induction q w rule: flushInboundQueue.induct) (auto simp: put_in_def)

lemma flushOutboundQueue_Ret:
  "None \<notin> set q \<Longrightarrow>
     flushOutboundQueue q w = Ret (w\<lparr>pools := fold (\<lambda>b. PutOutboundBuffer (the b)) q (pools w)\<rparr>)"
  by (induction q w rule: flushOutboundQueue.induct) (auto simp: put_out_def)

lemma ResetState_Ret:
  "no_nil p \<Longrightarrow> ResetState (p, w) = Ret (reset_peer p, w\<lparr>pools := reset_pools p (pools w)\<rparr>)"
  by (simp add: ResetState_def flushQueues_def flushHandshakeQueue_def flushInboundQueue_Ret
      flushOutboundQueue_Ret no_nil_def reset_peer_def reset_pools_def Let_def)

section \<open>The invariant\<close>

definition peer_wf :: "('hs, 'cs, 'kp) noise_lib \<Rightarrow> ('hs, 'cs) Peer \<Rightarrow> bool" where
  "peer_wf l p \<longleftrightarrow>
     no_nil p \<and>
     length (inbound p) \<le> InboundChannelSize \<and> length (outbound p) \<le> OutboundChannelSize \<and>
     length (handshakes p) \<le> HandshakeChannelSize \<and>
     (hsRoutine p = (if running p then Idle else Exited)) \<and>
     (running p \<longleftrightarrow> inRoutine p \<noteq> Exited) \<and> (running p \<longleftrightarrow> outRoutine p \<noteq> Exited) \<and>
     hstate p \<in> {0, 1, 2} \<and>
     (\<not> running p \<longrightarrow> \<not> pendingLock p \<and> hstate p = 0) \<and>
     (running p \<longrightarrow> (pendingLock p \<longleftrightarrow> hstate p \<noteq> 2)) \<and>
     (hstate p = 2 \<longrightarrow> inTransport p) \<and> (hstate p = 0 \<longrightarrow> \<not> inTransport p) \<and>
     (handshakeSent p \<noteq> Stopped \<longrightarrow> hstate p \<noteq> 2) \<and>
     (hstate p = 0 \<longrightarrow> \<not> initiator p) \<and>
     (hstate p = 2 \<and> initiator p \<longrightarrow> hs p = None) \<and>
     (hstate p = 1 \<longrightarrow> initiator p \<and> (\<exists>h. hs p = Some h \<and> awaiting l h)) \<and>
     (hstate p = 2 \<longrightarrow> rx p \<noteq> None \<and> tx p \<noteq> None)"

definition peer_inv :: "('hs, 'cs, 'kp) env \<Rightarrow> ('hs, 'cs) pstate \<Rightarrow> bool" where
  "peer_inv e st \<longleftrightarrow> noise_ik (lib e) \<and> peer_wf (lib e) (fst st)"

lemma peer_wf_NewPeer: "peer_wf l NewPeer"
  by (simp add: peer_wf_def NewPeer_def no_nil_def)

text \<open>Fields that identify a peer or carry its endpoint do not matter for the invariant.\<close>

lemma peer_wf_identity [simp]:
  "peer_wf l (p\<lparr>raddr := a\<rparr>) = peer_wf l p" "peer_wf l (p\<lparr>Hostname := n\<rparr>) = peer_wf l p"
  "peer_wf l (p\<lparr>peerIP := i\<rparr>) = peer_wf l p" "peer_wf l (p\<lparr>peerID := d\<rparr>) = peer_wf l p"
  "peer_wf l (p\<lparr>pubkey := k\<rparr>) = peer_wf l p"
  "peer_wf l (p\<lparr>handshakeRetries := r\<rparr>) = peer_wf l p"
  "peer_wf l (p\<lparr>keepalive := t\<rparr>) = peer_wf l p"
  "peer_wf l (p\<lparr>receivedPacket := t\<rparr>) = peer_wf l p"
  by (simp_all add: peer_wf_def no_nil_def)

lemma ResetState_wf:
  assumes "no_nil p" "running p" "pendingLock p" "hsRoutine p = Idle" "inRoutine p \<noteq> Exited"
    "outRoutine p \<noteq> Exited" "ResetState (p, w) = Ret (p', w')"
  shows "peer_wf l p'"
  using assms by (auto simp: ResetState_Ret reset_peer_def peer_wf_def no_nil_def)

section \<open>Preservation, operation by operation\<close>

text \<open>What holds of a running peer while the pending lock is held and no keys exist.\<close>

definition peer_pending :: "('hs, 'cs) Peer \<Rightarrow> bool" where
  "peer_pending p \<longleftrightarrow>
     no_nil p \<and>
     length (inbound p) \<le> InboundChannelSize \<and> length (outbound p) \<le> OutboundChannelSize \<and>
     length (handshakes p) \<le> HandshakeChannelSize \<and>
     running p \<and> hsRoutine p = Idle \<and> inRoutine p \<noteq> Exited \<and> outRoutine p \<noteq> Exited \<and>
     pendingLock p"

lemma peer_pending_updates [simp]:
  "peer_pending (p\<lparr>handshakeRetries := r\<rparr>) = peer_pending p"
  "peer_pending (p\<lparr>handshakeSent := t\<rparr>) = peer_pending p"
  "peer_pending (p\<lparr>receivedPacket := t\<rparr>) = peer_pending p"
  "peer_pending (p\<lparr>keepalive := t\<rparr>) = peer_pending p"
  "peer_pending (p\<lparr>hstate := s\<rparr>) = peer_pending p"
  "peer_pending (p\<lparr>initiator := i\<rparr>) = peer_pending p"
  "peer_pending (p\<lparr>hs := h\<rparr>) = peer_pending p"
  "peer_pending (p\<lparr>raddr := a\<rparr>) = peer_pending p"
  "peer_pending (p\<lparr>inTransport := t'\<rparr>) = peer_pending p"
  by (simp_all add: peer_pending_def no_nil_def)

lemma peer_pending_reset: "peer_pending p \<Longrightarrow> peer_wf l (reset_peer p\<lparr>handshakeSent := t\<rparr>)"
  by (simp add: peer_pending_def peer_wf_def reset_peer_def no_nil_def)

lemma peer_pending_wf:
  "peer_wf l p \<Longrightarrow> running p \<Longrightarrow> hstate p \<noteq> 2 \<Longrightarrow> peer_pending p"
  by (auto simp: peer_wf_def peer_pending_def)

lemma handshakeP1_Ret:
  assumes "handshakeP1 e b (p, w) = Ret (p', w')"
  shows "\<exists>h m h' cs. hs p = Some h \<and> write_message (lib e) h = Some (m, h', cs) \<and>
    p' = p\<lparr>hs := Some h', hstate := 1\<rparr>"
  using assms by (auto simp: handshakeP1_def nil_deref_def split: prod.splits option.splits)

lemma InitHandshake_simps:
  "fst (InitHandshake e i p) =
     p\<lparr>initiator := i, hs := new_handshake (lib e) i (keyPair e) (if i then Some (pubkey p) else None)\<rparr>"
  "snd (InitHandshake e i p) \<longleftrightarrow>
     new_handshake (lib e) i (keyPair e) (if i then Some (pubkey p) else None) \<noteq> None"
  by (simp_all add: InitHandshake_def CreateHandshake_def Let_def)

lemma TrySendHandshake_wf:
  assumes "peer_pending p" and "TrySendHandshake e retry (p, w) = Ret (p', w')"
  shows "peer_wf (lib e) p'"
proof -
  let ?p = "p\<lparr>handshakeRetries := handshakeRetries p + 1\<rparr>"
  consider (exceeded) "ResetState (?p\<lparr>handshakeSent := Stopped\<rparr>, w) = Ret (p', w')"
    | (sent) b w1 q w2 where "snd (InitHandshake e True ?p)"
        "handshakeP1 e b (fst (InitHandshake e True ?p), w1) = Ret (q, w2)"
        "p' = q\<lparr>handshakeSent := Armed 3\<rparr>"
    using assms(2)
    by (auto simp: TrySendHandshake_def obind_eq_Ret Let_def split: if_splits prod.splits)
  then show ?thesis
  proof cases
    case exceeded
    then show ?thesis
      using assms(1) by (intro ResetState_wf [OF _ _ _ _ _ _ exceeded]) (auto simp: peer_pending_def no_nil_def)
  next
    case sent
    from handshakeP1_Ret [OF sent(2)] obtain h m h' cs where
      "hs (fst (InitHandshake e True ?p)) = Some h" "write_message (lib e) h = Some (m, h', cs)"
      and q: "q = fst (InitHandshake e True ?p)\<lparr>hs := Some h', hstate := 1\<rparr>" by blast
    then have aw: "awaiting (lib e) h'" unfolding awaiting_def by (simp add: InitHandshake_simps) blast
    show ?thesis
      unfolding sent(3) q InitHandshake_simps using assms(1) aw by (auto simp: peer_pending_def peer_wf_def no_nil_def)
  qed
qed

text \<open>A processed handshake message leaves both cipher states in place.\<close>

lemma UpdateEndpoint_Ret:
  "UpdateEndpoint a p = Ret p' \<Longrightarrow> \<exists>b. p' = p\<lparr>raddr := b\<rparr>"
  "UpdateEndpointLocked a p = Ret p' \<Longrightarrow> \<exists>b. p' = p\<lparr>raddr := b\<rparr>"
  by (auto simp: UpdateEndpoint_def UpdateEndpointLocked_def nil_deref_def split: option.splits if_splits)
    (metis Peer.surjective Peer.update_convs(2))+

lemma handshakeP2_Ret:
  assumes "noise_ik (lib e)" and "initiator p \<Longrightarrow> (\<exists>h. hs p = Some h \<and> awaiting (lib e) h)"
    and "handshakeP2 e b (p, w) = Ret (True, (p', w'))"
  obtains h a c d where "initiator p \<Longrightarrow> h = None"
    and "p' = p\<lparr>hs := h, raddr := a, rx := Some c, tx := Some d\<rparr>"
proof (cases "initiator p")
  case True
  with assms(2) obtain h where h: "hs p = Some h" "awaiting (lib e) h" by blast
  from assms(3) True h obtain msg h' cs where
    r: "read_message (lib e) h msg = Some (h', cs)" and
    p': "p' = p\<lparr>tx := map_option fst cs, rx := map_option snd cs, raddr := ib_raddr b, hs := None\<rparr>"
    by (auto simp: handshakeP2_def obind_eq_Ret split: option.splits)
  from noise_ik_initiator [OF assms(1) h(2) r] obtain c d where "cs = Some (c, d)" by auto
  with p' show ?thesis by (intro that [where h = None and a = "ib_raddr b" and c = d and d = c]) simp_all
next
  case False
  from assms(3) False obtain h msg h' cs q a m h'' cs' where
    n: "new_handshake (lib e) False (keyPair e) None = Some h" and
    r: "read_message (lib e) h msg = Some (h', cs)" and
    wr: "write_message (lib e) h' = Some (m, h'', cs')" and
    q: "q = p\<lparr>initiator := False, hs := Some h', raddr := a\<rparr>" and
    p': "p' = q\<lparr>hs := Some h'', rx := map_option fst cs', tx := map_option snd cs'\<rparr>"
    by (auto simp: handshakeP2_def InitHandshake_def CreateHandshake_def obind_eq_Ret Let_def nil_deref_def
        case_prod_beta split: option.splits if_splits dest!: UpdateEndpoint_Ret)
  from noise_ik_responder [OF assms(1) n r wr] obtain c d where "cs' = Some (c, d)" by auto
  with p' q False show ?thesis by (intro that [where h = "Some h''" and a = a and c = c and d = d]) (simp_all add: Peer.equality)
qed

lemma peer_wfD:
  assumes "peer_wf l p"
  shows "no_nil p" "length (inbound p) \<le> InboundChannelSize" "length (outbound p) \<le> OutboundChannelSize"
    "length (handshakes p) \<le> HandshakeChannelSize"
    "hsRoutine p = (if running p then Idle else Exited)"
    "inRoutine p \<noteq> Exited \<longleftrightarrow> running p" "outRoutine p \<noteq> Exited \<longleftrightarrow> running p"
    "hstate p = 0 \<or> hstate p = 1 \<or> hstate p = 2"
    "\<not> running p \<Longrightarrow> \<not> pendingLock p" "\<not> running p \<Longrightarrow> hstate p = 0"
    "running p \<Longrightarrow> pendingLock p \<longleftrightarrow> hstate p \<noteq> 2"
    "hstate p = 2 \<Longrightarrow> inTransport p"
    "hstate p = 2 \<Longrightarrow> handshakeSent p = Stopped"
    "hstate p = 0 \<Longrightarrow> \<not> initiator p"
    "hstate p = 2 \<Longrightarrow> initiator p \<Longrightarrow> hs p = None"
    "hstate p = 1 \<Longrightarrow> initiator p"
    "hstate p = 1 \<Longrightarrow> \<exists>h. hs p = Some h \<and> awaiting l h"
    "hstate p = 2 \<Longrightarrow> rx p \<noteq> None" "hstate p = 2 \<Longrightarrow> tx p \<noteq> None"
    "hstate p = 0 \<Longrightarrow> \<not> inTransport p"
  using assms unfolding peer_wf_def by blast+

lemma finish_handshake_Ret:
  assumes "noise_ik (lib e)" and "initiator p \<Longrightarrow> (\<exists>h. hs p = Some h \<and> awaiting (lib e) h)"
    and "finish_handshake e b (p, w) = Ret (p', w')"
  obtains h a c d where "pendingLock p" and "initiator p \<Longrightarrow> h = None"
    and "p' = p\<lparr>hs := h, raddr := a, rx := Some c, tx := Some d, hstate := 2, inTransport := True,
      pendingLock := False, handshakeRetries := 0, handshakeSent := Stopped\<rparr>"
proof -
  from assms(3) obtain q w2 where q: "handshakeP2 e b (p, w) = Ret (True, (q, w2))"
    and l: "pendingLock q" and p': "p' = q\<lparr>hstate := 2, inTransport := True, pendingLock := False,
      handshakeRetries := 0, handshakeSent := Stopped\<rparr>"
    by (auto simp: finish_handshake_def unlock_pending_def obind_eq_Ret split: if_splits)
  show ?thesis
  proof (rule handshakeP2_Ret [OF assms(1,2) q])
    fix h a c d
    assume h: "initiator p \<Longrightarrow> h = None" and "q = p\<lparr>hs := h, raddr := a, rx := Some c, tx := Some d\<rparr>"
    then show ?thesis using l p' by (intro that [where h = h and a = a and c = c and d = d, OF _ h]) simp_all
  qed
qed

lemma transport_wf:
  assumes "peer_wf l p" and "running p" and "initiator p \<Longrightarrow> h = None"
  shows "peer_wf l (p\<lparr>hs := h, raddr := a, rx := Some c, tx := Some d, hstate := 2, inTransport := True,
      pendingLock := False, handshakeRetries := 0, handshakeSent := Stopped\<rparr>)"
  unfolding peer_wf_def no_nil_def
  using assms(2,3) peer_wfD(1-7) [OF assms(1)] unfolding no_nil_def by simp

lemma Handshake_message_wf:
  assumes "noise_ik (lib e)" and wf: "peer_wf (lib e) p" and r: "running p"
    and "Handshake_message e b (p, w) = Ret (p', w')"
  shows "peer_wf (lib e) p'"
proof -
  have hs: "\<exists>h. hs p = Some h \<and> awaiting (lib e) h" if "initiator p" "hstate p \<noteq> 2"
    using peer_wfD(8,14,17) [OF wf] that by blast
  consider (fresh) q w2 t where "hstate p \<noteq> 2" "finish_handshake e b (p, w) = Ret (q, w2)"
      "p' = q\<lparr>keepalive := t\<rparr>"
    | (again) a q w2 where "hstate p = 2"
      "finish_handshake e b (p\<lparr>pendingLock := True, raddr := a\<rparr>, w) = Ret (q, w2)"
      "p' = q\<lparr>keepalive := Armed TimerKeepalive, receivedPacket := Armed TimerRxTimeout\<rparr>"
    using assms(4)
    by (auto simp: Handshake_message_def lock_pending_def obind_eq_Ret
        split: if_splits dest!: UpdateEndpoint_Ret(1))
  then show ?thesis
  proof cases
    case fresh
    have "initiator p \<Longrightarrow> (\<exists>h. hs p = Some h \<and> awaiting (lib e) h)" using hs fresh(1) by blast
    from finish_handshake_Ret [OF assms(1) this fresh(2)] show ?thesis
      using transport_wf [OF wf r] unfolding fresh(3) by (metis peer_wf_identity(7))
  next
    case again
    show ?thesis
    proof (cases "initiator p")
      case True
      with peer_wfD(15) [OF wf] again(1) have "hs p = None" by blast
      with again(2) True show ?thesis by (simp add: finish_handshake_def handshakeP2_def nil_deref_def)
    next
      case False
      show ?thesis
      proof (rule finish_handshake_Ret [OF assms(1) _ again(2)])
        fix h a' c d
        assume q: "q = p\<lparr>pendingLock := True, raddr := a, hs := h, raddr := a', rx := Some c, tx := Some d,
          hstate := 2, inTransport := True, pendingLock := False, handshakeRetries := 0,
          handshakeSent := Stopped\<rparr>"
        have "q = p\<lparr>hs := h, raddr := a', rx := Some c, tx := Some d, hstate := 2, inTransport := True,
            pendingLock := False, handshakeRetries := 0, handshakeSent := Stopped\<rparr>"
          unfolding q by simp
        with transport_wf [OF wf r] False show ?thesis unfolding again(3) peer_wf_identity by blast
      qed (use False in simp)
    qed
  qed
qed


text \<open>Updates of single fields that keep the invariant.\<close>

lemma peer_wf_updates:
  assumes "peer_wf l p"
  shows "peer_wf l (p\<lparr>rx := Some c\<rparr>)" "peer_wf l (p\<lparr>tx := Some c\<rparr>)"
    "peer_wf l (p\<lparr>handshakeSent := Stopped\<rparr>)"
    "None \<notin> set q \<Longrightarrow> length q \<le> InboundChannelSize \<Longrightarrow> peer_wf l (p\<lparr>inbound := q\<rparr>)"
    "None \<notin> set q' \<Longrightarrow> length q' \<le> OutboundChannelSize \<Longrightarrow> peer_wf l (p\<lparr>outbound := q'\<rparr>)"
    "None \<notin> set q \<Longrightarrow> length q \<le> HandshakeChannelSize \<Longrightarrow> peer_wf l (p\<lparr>handshakes := q\<rparr>)"
    "running p \<Longrightarrow> r \<noteq> Exited \<Longrightarrow> peer_wf l (p\<lparr>inRoutine := r\<rparr>)"
    "running p \<Longrightarrow> r' \<noteq> Exited \<Longrightarrow> peer_wf l (p\<lparr>outRoutine := r'\<rparr>)"
  using assms by (auto simp: peer_wf_def no_nil_def)

lemma no_nilD:
  assumes "no_nil p"
  shows "None \<notin> set (inbound p)" "None \<notin> set (outbound p)" "None \<notin> set (handshakes p)"
  using assms by (simp_all add: no_nil_def)

lemma Handshake_wf:
  assumes "noise_ik (lib e)" and wf: "peer_wf (lib e) p" and "Handshake e (p, w) = Ret (p', w')"
  shows "peer_wf (lib e) p'"
proof (cases "handshakes p")
  case Nil
  with assms show ?thesis by (simp add: Handshake_def split: if_splits)
next
  case (Cons x q)
  with no_nilD(3) [OF peer_wfD(1) [OF wf]] obtain b where x: "x = Some b" and q: "None \<notin> set q"
    by (cases x) auto
  have l: "length q \<le> HandshakeChannelSize" using peer_wfD(4) [OF wf] Cons by simp
  show ?thesis
  proof (cases "hsRoutine p = Idle")
    case True
    then have "running p" using peer_wfD(5) [OF wf] by (simp split: if_splits)
    with True Cons x assms(3) show ?thesis
      by (intro Handshake_message_wf [OF assms(1) peer_wf_updates(6) [OF wf q l]]) (simp_all add: Handshake_def)
  next
    case False
    with assms show ?thesis by (simp add: Handshake_def)
  qed
qed

lemma Inbound_packet_Ret:
  assumes "Inbound_packet e b (p, w) = Ret (p', w')"
  shows "p' = p\<lparr>rx := rx p', receivedPacket := receivedPacket p', raddr := raddr p'\<rparr> \<and> rx p' \<noteq> None"
  using assms
  by (auto simp: Inbound_packet_def obind_eq_Ret Let_def case_prod_beta nil_deref_def
      split: option.splits if_splits dest!: UpdateEndpoint_Ret(1))

lemma Outbound_packet_Ret:
  assumes "Outbound_packet e b (p, w) = Ret (p', w')"
  shows "p' = p\<lparr>tx := tx p', keepalive := keepalive p'\<rparr> \<and> tx p' \<noteq> None"
  using assms
  by (auto simp: Outbound_packet_def obind_eq_Ret Let_def case_prod_beta nil_deref_def
      split: option.splits if_splits)

lemma Inbound_wf:
  assumes wf: "peer_wf l p" and "Inbound e (p, w) = Ret (p', w')"
  shows "peer_wf l p'"
proof (cases "inRoutine p")
  case Exited
  with assms show ?thesis by (simp add: Inbound_def)
next
  case Idle
  then have r: "running p" using peer_wfD(6) [OF wf] by simp
  show ?thesis
  proof (cases "inbound p")
    case Nil
    with Idle assms show ?thesis by (simp add: Inbound_def)
  next
    case (Cons x q)
    with no_nilD(1) [OF peer_wfD(1) [OF wf]] obtain b where x: "x = Some b" and q: "None \<notin> set q"
      by (cases x) auto
    have l: "length q \<le> InboundChannelSize" using peer_wfD(2) [OF wf] Cons by simp
    have "p' = p\<lparr>inbound := q, inRoutine := Holding b\<rparr>" using assms(2) Idle Cons x by (simp add: Inbound_def)
    with peer_wf_updates(7) [OF peer_wf_updates(4) [OF wf q l]] r show ?thesis by simp
  qed
next
  case (Holding b)
  then have r: "running p" using peer_wfD(6) [OF wf] by simp
  from Holding assms(2) have "Inbound_packet e b (p\<lparr>inRoutine := Idle\<rparr>, w) = Ret (p', w')"
    by (simp add: Inbound_def split: if_splits)
  from Inbound_packet_Ret [OF this] peer_wf_updates(1) [OF peer_wf_updates(7) [OF wf r]]
  show ?thesis by (metis not_None_eq peer_wf_identity(1,8) routine.distinct(1))
qed

lemma Outbound_wf:
  assumes wf: "peer_wf l p" and "Outbound e (p, w) = Ret (p', w')"
  shows "peer_wf l p'"
proof (cases "outRoutine p")
  case Exited
  with assms show ?thesis by (simp add: Outbound_def)
next
  case Idle
  then have r: "running p" using peer_wfD(7) [OF wf] by simp
  show ?thesis
  proof (cases "outbound p")
    case Nil
    with Idle assms show ?thesis by (simp add: Outbound_def)
  next
    case (Cons x q)
    with no_nilD(2) [OF peer_wfD(1) [OF wf]] obtain b where x: "x = Some b" and q: "None \<notin> set q"
      by (cases x) auto
    have l: "length q \<le> OutboundChannelSize" using peer_wfD(3) [OF wf] Cons by simp
    have "p' = p\<lparr>outbound := q, outRoutine := Holding b\<rparr>" using assms(2) Idle Cons x by (simp add: Outbound_def)
    with peer_wf_updates(8) [OF peer_wf_updates(5) [OF wf q l]] r show ?thesis by simp
  qed
next
  case (Holding b)
  then have r: "running p" using peer_wfD(7) [OF wf] by simp
  from Holding assms(2) have "Outbound_packet e b (p\<lparr>outRoutine := Idle\<rparr>, w) = Ret (p', w')"
    by (simp add: Outbound_def split: if_splits)
  from Outbound_packet_Ret [OF this] peer_wf_updates(2) [OF peer_wf_updates(8) [OF wf r]]
    peer_wf_updates(8) [OF wf r]
  show ?thesis by (metis not_None_eq peer_wf_identity(7) routine.distinct(1))
qed

lemma chan_send_no_nil:
  assumes "chan_send c (Some b) q = Some q'" and "None \<notin> set q"
  shows "None \<notin> set q' \<and> length q' \<le> c"
  using fifo.send_contents [OF assms(1)] fifo.send_Some_iff [of c "Some b" q] assms by auto

lemma chan_send_wait_Ret: "chan_send_wait c x q = Ret q' \<longleftrightarrow> chan_send c x q = Some q'"
  by (auto simp: chan_send_wait_def split: option.splits)

lemma InboundPacket_wf:
  assumes "peer_wf l p" and "InboundPacket b (p, w) = (p', w')"
  shows "peer_wf l p'"
  using assms peer_wf_updates(4) [OF assms(1)] no_nilD [OF peer_wfD(1) [OF assms(1)]]
  by (auto simp: InboundPacket_def split: if_splits option.splits dest: chan_send_no_nil)

lemma HandshakePacket_wf:
  assumes "peer_wf l p" and "HandshakePacket b (p, w) = Ret (p', w')"
  shows "peer_wf l p'"
  using assms peer_wf_updates(6) [OF assms(1)] no_nilD [OF peer_wfD(1) [OF assms(1)]]
  by (auto simp: HandshakePacket_def obind_eq_Ret chan_send_wait_Ret split: if_splits dest: chan_send_no_nil)

lemma OutboundPacket_wf:
  assumes wf: "peer_wf (lib e) p" and "OutboundPacket e b (p, w) = Ret (p', w')"
  shows "peer_wf (lib e) p'"
proof (cases "running p")
  case True
  let ?p = "case chan_send OutboundChannelSize (Some b) (outbound p) of Some q \<Rightarrow> p\<lparr>outbound := q\<rparr> | None \<Rightarrow> p"
  have wf': "peer_wf (lib e) ?p" and r: "running ?p"
    using peer_wf_updates(5) [OF wf] no_nilD [OF peer_wfD(1) [OF wf]] wf True
    by (auto split: option.splits dest: chan_send_no_nil)
  show ?thesis
  proof (cases "\<not> inTransport ?p \<and> hstate ?p = 0")
    case h: True
    with True assms(2) have "TrySendHandshake e False (?p, w) = Ret (p', w')"
      by (simp add: OutboundPacket_def Let_def)
    with h show ?thesis by (intro TrySendHandshake_wf [OF peer_pending_wf [OF wf' r]]) auto
  next
    case False
    with True assms(2) have "p' = ?p" unfolding OutboundPacket_def Let_def prod.case if_False by auto
    with wf' show ?thesis by simp
  qed
qed (use assms in \<open>simp add: OutboundPacket_def\<close>)

lemma HandshakeTimeout_wf:
  assumes wf: "peer_wf (lib e) p" and "hstate p \<noteq> 2" and "HandshakeTimeout e (p, w) = Ret (p', w')"
  shows "peer_wf (lib e) p'"
proof (cases "hstate p = 0")
  case True
  with assms show ?thesis by (simp add: HandshakeTimeout_def)
next
  case False
  with peer_wfD(8) [OF wf] assms(2) have h: "hstate p = 1" by blast
  then have "initiator p" "running p" using peer_wfD(10,16) [OF wf] by auto
  then show ?thesis
    using assms(3) h peer_pending_wf [OF wf]
    by (intro TrySendHandshake_wf [where p = "p\<lparr>inTransport := False\<rparr>" and retry = True])
       (simp_all add: HandshakeTimeout_def Let_def)
qed

lemma TXTimeout_wf:
  assumes "peer_wf l p" and "TXTimeout e self (p, w) = Ret (p', w')"
  shows "peer_wf l p'"
  using assms peer_wf_updates(5) [of l p]
  by (auto simp: TXTimeout_def obind_eq_Ret Let_def case_prod_beta OutboundChannelSize_def
      split: if_splits)

lemma RXTimeout_wf:
  assumes wf: "peer_wf (lib e) p" and "RXTimeout e (p, w) = Ret (p', w')"
  shows "peer_wf (lib e) p'"
proof (cases "inTransport p \<and> \<not> pendingLock p")
  case True
  let ?q = "p\<lparr>keepalive := Stopped, receivedPacket := Stopped, pendingLock := True, hstate := 0\<rparr>"
  have "running p" using True peer_wfD(10,20) [OF wf] by blast
  then have pend: "peer_pending ?q"
    using peer_wfD(1-7) [OF wf] by (simp add: peer_pending_def no_nil_def)
  show ?thesis
  proof (cases "initiator p")
    case i: True
    show ?thesis
      using assms(2) True i by (intro TrySendHandshake_wf [OF pend]) (simp_all add: RXTimeout_def lock_pending_def Let_def)
  next
    case False
    have rs: "ResetState (p\<lparr>keepalive := Stopped, pendingLock := True, hstate := 0, receivedPacket := Stopped,
        handshakeSent := Stopped\<rparr>, w) = Ret (p', w')"
      using assms(2) True False by (simp add: RXTimeout_def lock_pending_def Let_def)
    then show ?thesis
      using pend by (intro ResetState_wf [OF _ _ _ _ _ _ rs]) (auto simp: peer_pending_def no_nil_def)
  qed
next
  case False
  with assms show ?thesis by (auto simp: RXTimeout_def lock_pending_def Let_def split: if_splits)
qed

lemma peer_Start_wf:
  assumes wf: "peer_wf l p" and "peer_Start p = Ret (ok, p')"
  shows "peer_wf l p'"
proof (cases "running p")
  case False
  with assms peer_wfD(9,10) [OF wf] have "hstate p = 0" "\<not> pendingLock p"
    "p' = p\<lparr>pendingLock := True, inRoutine := Idle, outRoutine := Idle, hsRoutine := Idle, running := True,
       inTransport := False\<rparr>"
    by (auto simp: peer_Start_def lock_pending_def)
  moreover have "\<not> initiator p" using peer_wfD(14) [OF wf] calculation by blast
  ultimately show ?thesis using peer_wfD(1-4) [OF wf] by (simp add: peer_wf_def no_nil_def)
qed (use assms in \<open>simp add: peer_Start_def\<close>)

text \<open>
  Stopping succeeds only for a peer whose routines all wait for their channels
  and whose pending lock is held.
\<close>

lemma peer_wf_not_stopping: "peer_wf l p \<Longrightarrow> \<not> stopping p"
  using peer_wfD(9) [of l p] by (auto simp: stopping_def)

lemma peer_Stop_Ret:
  assumes wf: "peer_wf l p" and "peer_Stop (p, w) = Ret (p', w')"
  shows "running p \<and> hstate p \<noteq> 2 \<and> inRoutine p = Idle \<and> outRoutine p = Idle \<and>
    p' = reset_peer p\<lparr>running := False, pendingLock := False, hsRoutine := Exited, inRoutine := Exited,
      outRoutine := Exited\<rparr> \<and> w' = w\<lparr>pools := reset_pools p (pools w)\<rparr>"
proof -
  have nn: "no_nil (p\<lparr>running := False\<rparr>)" using peer_wfD(1) [OF wf] by (simp add: no_nil_def)
  have rp: "reset_pools (p\<lparr>running := False\<rparr>) s = reset_pools p s" for s by (simp add: reset_pools_def)
  have lk: "pendingLock p" and "inRoutine p = Idle \<or> inRoutine p = Exited"
    and "outRoutine p = Idle \<or> outRoutine p = Exited"
    using assms(2) unfolding peer_Stop_def prod.case if_not_P [OF peer_wf_not_stopping [OF wf]] ResetState_Ret [OF nn] obind.simps
    by (auto simp: await_routine_def unlock_pending_def obind_eq_Ret reset_peer_def nil_deref_def
        split: routine.splits if_splits)
  moreover have r: "running p" "hstate p \<noteq> 2" using lk peer_wfD(9,11) [OF wf] by auto
  ultimately have ri: "inRoutine p = Idle" "outRoutine p = Idle" "hsRoutine p = Idle"
    using peer_wfD(5-7) [OF wf] by auto
  show ?thesis
    using assms(2) lk r ri unfolding peer_Stop_def prod.case if_not_P [OF peer_wf_not_stopping [OF wf]] ResetState_Ret [OF nn] obind.simps rp
    by (auto simp: await_routine_def unlock_pending_def reset_peer_def intro!: Peer.equality)
qed

lemma peer_Stop_wf:
  assumes "peer_wf l p" and "peer_Stop (p, w) = Ret (p', w')"
  shows "peer_wf l p'"
  using peer_Stop_Ret [OF assms] by (simp add: peer_wf_def reset_peer_def no_nil_def)

lemma peer_step_wf:
  assumes ik: "noise_ik (lib e)" and wf: "peer_wf (lib e) p" and "peer_step e self ev (p, w) = Ret (p', w')"
  shows "peer_wf (lib e) p'"
  using assms(3)
proof (cases ev)
  case EvHandshakeTimer
  show ?thesis
  proof (cases "handshakeSent p = Stopped")
    case False
    then have "hstate (p\<lparr>handshakeSent := Stopped\<rparr>) \<noteq> 2" using peer_wfD(13) [OF wf] by auto
    with False EvHandshakeTimer assms(3) HandshakeTimeout_wf [OF peer_wf_updates(3) [OF wf]] show ?thesis by simp
  qed (use EvHandshakeTimer assms(3) wf in simp)
next
  case EvRxTimer
  with assms(3) wf show ?thesis by (auto split: if_splits dest: RXTimeout_wf [rotated])
next
  case EvTxTimer
  with assms(3) wf show ?thesis by (auto split: if_splits dest: TXTimeout_wf [rotated])
next
  case EvStart
  with assms(3) wf show ?thesis by (auto simp: obind_eq_Ret intro: peer_Start_wf)
qed (use ik wf in \<open>auto intro: OutboundPacket_wf InboundPacket_wf HandshakePacket_wf Inbound_wf Outbound_wf
      Handshake_wf peer_Stop_wf\<close>)

interpretation peer: preserves "peer_step e self" "peer_inv e" for e self
proof unfold_locales
  fix s s' ev
  assume "peer_inv e s" "peer_step e self ev s = Ret s'"
  then show "peer_inv e s'" using peer_step_wf [of e "fst s" self ev "snd s" "fst s'" "snd s'"]
    by (simp add: peer_inv_def)
qed

end
