(* ===== verification/PeerSafety.thy ===== *)
theory PeerSafety
  imports PeerInvariant
begin

text \<open>
  The second invariant of a peer: every buffer it holds, in a channel or in a
  routine, has the length the packet paths rely on, the endpoint is known and the
  pools are clean. With the first invariant it shows that the data paths never
  panic, whatever packets arrive.
\<close>

section \<open>Buffers in flight\<close>

definition in_ok :: "InboundBuffer \<Rightarrow> bool" where
  "in_ok b \<longleftrightarrow> shape_in b \<and> ib_raddr b \<noteq> None \<and> HeaderLen \<le> ib_size b \<and> ib_size b \<le> BufferSize"

definition out_ok :: "OutboundBuffer \<Rightarrow> bool" where
  "out_ok b \<longleftrightarrow> shape_out b \<and> ob_size b \<le> BufferSize"

fun holds :: "('b \<Rightarrow> bool) \<Rightarrow> 'b routine \<Rightarrow> bool" where
  "holds P (Holding b) = P b"
| "holds P _ = True"

definition peer_live :: "('hs, 'cs) Peer \<Rightarrow> bool" where
  "peer_live p \<longleftrightarrow>
     raddr p \<noteq> None \<and>
     list_all (pred_option in_ok) (inbound p) \<and> list_all (pred_option in_ok) (handshakes p) \<and>
     list_all (pred_option out_ok) (outbound p) \<and>
     holds in_ok (inRoutine p) \<and> holds out_ok (outRoutine p)"

definition world_ok :: "world \<Rightarrow> bool" where
  "world_ok w \<longleftrightarrow> pools_clean (pools w)"

lemma peer_live_updates [simp]:
  "peer_live (p\<lparr>rx := c\<rparr>) = peer_live p" "peer_live (p\<lparr>tx := c\<rparr>) = peer_live p"
  "peer_live (p\<lparr>hs := h\<rparr>) = peer_live p" "peer_live (p\<lparr>hstate := s\<rparr>) = peer_live p"
  "peer_live (p\<lparr>initiator := i\<rparr>) = peer_live p" "peer_live (p\<lparr>handshakeSent := t\<rparr>) = peer_live p"
  "peer_live (p\<lparr>receivedPacket := t\<rparr>) = peer_live p" "peer_live (p\<lparr>keepalive := t\<rparr>) = peer_live p"
  "peer_live (p\<lparr>handshakeRetries := n\<rparr>) = peer_live p" "peer_live (p\<lparr>running := r\<rparr>) = peer_live p"
  "peer_live (p\<lparr>inTransport := r\<rparr>) = peer_live p" "peer_live (p\<lparr>pendingLock := r\<rparr>) = peer_live p"
  "peer_live (p\<lparr>hsRoutine := x\<rparr>) = peer_live p"
  by (simp_all add: peer_live_def)

lemma peer_live_raddr [simp]: "peer_live p \<Longrightarrow> a \<noteq> None \<Longrightarrow> peer_live (p\<lparr>raddr := a\<rparr>)"
  by (simp add: peer_live_def)

lemma peer_liveD:
  assumes "peer_live p"
  shows "raddr p \<noteq> None" "list_all (pred_option in_ok) (inbound p)"
    "list_all (pred_option in_ok) (handshakes p)" "list_all (pred_option out_ok) (outbound p)"
    "holds in_ok (inRoutine p)" "holds out_ok (outRoutine p)"
  using assms by (simp_all add: peer_live_def)

section \<open>Effects on the world\<close>

lemma world_ok_simps [simp]:
  "world_ok (send_udp bs a w) = world_ok w" "world_ok (RequestPunch p w) = world_ok w"
  "world_ok (w\<lparr>tun_out := t\<rparr>) = world_ok w" "world_ok (w\<lparr>udp_out := u\<rparr>) = world_ok w"
  by (simp_all add: world_ok_def send_udp_def RequestPunch_def split: option.splits)

lemma world_ok_put_in: "world_ok w \<Longrightarrow> shape_in b \<Longrightarrow> world_ok (put_in b w)"
  using pool_event_clean [of "pools w" "PutIn b"] by (simp add: world_ok_def put_in_def)

lemma world_ok_put_out: "world_ok w \<Longrightarrow> shape_out b \<Longrightarrow> world_ok (put_out b w)"
  using pool_event_clean [of "pools w" "PutOut b"] by (simp add: world_ok_def put_out_def)

lemma world_ok_get_out:
  assumes "world_ok w"
  shows "clean_out (fst (get_out c w))" "world_ok (snd (get_out c w))"
  using assms pool_event_clean [of "pools w" GetOut c]
    outpool.get_clean [of "pools w" c, OF _ prod.collapse [symmetric]]
  by (simp_all add: world_ok_def get_out_def case_prod_beta pools_clean_def)

lemma clean_out_ok: "clean_out b \<Longrightarrow> out_ok b"
  by (simp add: out_ok_def clean_out_shape) (simp add: clean_out_def)

lemma encode_out_shape:
  assumes "shape_out b"
  shows "shape_out (snd (encode_out t i c b))" "ob_size (snd (encode_out t i c b)) = ob_size b"
    "ob_packet (snd (encode_out t i c b)) = ob_packet b"
    "fst (encode_out t i c b) = wire \<lparr>Version = HeaderVersion, Type = t, SenderIndex = i, Counter = c, Padding = HeaderPadding\<rparr>"
proof -
  have c: "HeaderLen \<le> scap (ob_out b)" "length (backing (ob_out b)) = BufferSize"
    using assms by (simp_all add: shape_out_def full_slice_def HeaderLen_def BufferSize_def scap_def)
  obtain v y s n q where h: "ob_header b = \<lparr>Version = v, Type = y, SenderIndex = s, Counter = n, Padding = q\<rparr>"
    by (cases "ob_header b") auto
  show "shape_out (snd (encode_out t i c b))"
    using assms c by (simp add: encode_out_def Encode_def Let_def shape_out_def full_slice_def scap_def
        encodeToSlice_wire(2) HeaderLen_def BufferSize_def)
  show "ob_size (snd (encode_out t i c b)) = ob_size b" "ob_packet (snd (encode_out t i c b)) = ob_packet b"
    using c by (simp_all add: encode_out_def Encode_def Let_def)
  show "fst (encode_out t i c b) = wire \<lparr>Version = HeaderVersion, Type = t, SenderIndex = i, Counter = c, Padding = HeaderPadding\<rparr>"
    using c by (simp add: encode_out_def Encode_def Let_def encodeToSlice_wire(1) h)
qed

lemma in_payload_Ret:
  "in_ok b \<Longrightarrow> in_payload b = Ret (drop HeaderLen (take (ib_size b) (backing (ib_in b))))"
  by (simp add: in_payload_def in_ok_def shape_in_def full_slice_def)

lemma out_payload_Ret:
  "out_ok b \<Longrightarrow> out_payload b = Ret (take (ob_size b) (backing (ob_packet b)))"
  by (simp add: out_payload_def out_ok_def shape_out_def full_slice_def)

section \<open>Preservation\<close>

lemma list_all_pred_fold_in:
  "None \<notin> set q \<Longrightarrow> list_all (pred_option in_ok) q \<Longrightarrow> pools_clean s \<Longrightarrow>
     pools_clean (fold (\<lambda>b. PutInboundBuffer (the b)) q s)"
proof (induction q arbitrary: s)
  case (Cons x q)
  then show ?case using pool_event_clean [of s "PutIn (the x)"] by (cases x) (auto simp: in_ok_def)
qed simp

lemma list_all_pred_fold_out:
  "None \<notin> set q \<Longrightarrow> list_all (pred_option out_ok) q \<Longrightarrow> pools_clean s \<Longrightarrow>
     pools_clean (fold (\<lambda>b. PutOutboundBuffer (the b)) q s)"
proof (induction q arbitrary: s)
  case (Cons x q)
  then show ?case using pool_event_clean [of s "PutOut (the x)"] by (cases x) (auto simp: out_ok_def)
qed simp

lemma ResetState_live:
  assumes "no_nil p" and "peer_live p" and "world_ok w" and "ResetState (p, w) = Ret (p', w')"
  shows "peer_live p' \<and> world_ok w'"
proof -
  have "pools_clean (reset_pools p (pools w))"
    using assms(1-3) unfolding reset_pools_def world_ok_def
    by (intro list_all_pred_fold_in list_all_pred_fold_out) (simp_all add: no_nil_def peer_live_def)
  moreover have "peer_live (reset_peer p)" using assms(2) by (simp add: peer_live_def reset_peer_def)
  ultimately show ?thesis using assms by (auto simp: ResetState_Ret world_ok_def)
qed

lemma UpdateEndpoint_live:
  "peer_live p \<Longrightarrow> UpdateEndpoint (Some a) p = Ret p' \<Longrightarrow> peer_live p'"
  "peer_live p \<Longrightarrow> UpdateEndpointLocked (Some a) p = Ret p' \<Longrightarrow> peer_live p'"
  by (auto simp: UpdateEndpoint_def UpdateEndpointLocked_def nil_deref_def split: option.splits if_splits)

lemma handshakeP1_live:
  assumes "peer_live p" and "world_ok w" and "clean_out b" and "handshakeP1 e b (p, w) = Ret (p', w')"
  shows "peer_live p' \<and> world_ok w'"
  using assms encode_out_shape(1) [OF clean_out_shape [OF assms(3)]]
  by (auto simp: handshakeP1_def nil_deref_def case_prod_beta split: option.splits intro!: world_ok_put_out)

lemma TrySendHandshake_live:
  assumes "no_nil p" and "peer_live p" and "world_ok w" and "TrySendHandshake e retry (p, w) = Ret (p', w')"
  shows "peer_live p' \<and> world_ok w'"
proof -
  let ?p = "p\<lparr>handshakeRetries := handshakeRetries p + 1\<rparr>"
  let ?w = "if retry then RequestPunch ?p w else w"
  have w: "world_ok ?w" using assms(3) by simp
  consider (exceeded) "ResetState (?p\<lparr>handshakeSent := Stopped\<rparr>, w) = Ret (p', w')"
    | (sent) q where "handshakeP1 e (fst (get_out (pk e) ?w)) (fst (InitHandshake e True ?p), snd (get_out (pk e) ?w)) = Ret (q, w')"
        "p' = q\<lparr>handshakeSent := Armed 3\<rparr>"
    using assms(4)
    by (auto simp: TrySendHandshake_def obind_eq_Ret Let_def case_prod_beta split: if_splits)
  then show ?thesis
  proof cases
    case exceeded
    then show ?thesis using assms(1-3) by (intro ResetState_live [OF _ _ _ exceeded]) (simp_all add: no_nil_def)
  next
    case sent
    have "peer_live (fst (InitHandshake e True ?p))" using assms(2) by (simp add: InitHandshake_simps)
    from handshakeP1_live [OF this world_ok_get_out(2,1) [OF w] sent(1)] show ?thesis by (simp add: sent(2))
  qed
qed

lemma handshakeP2_live:
  assumes live: "peer_live p" and w: "world_ok w" and b: "in_ok b"
    and "handshakeP2 e b (p, w) = Ret (ok, (p', w'))"
  shows "peer_live p' \<and> world_ok w'"
proof (cases "initiator p")
  case True
  have "shape_in b" "ib_raddr b \<noteq> None" using b by (simp_all add: in_ok_def)
  with assms True show ?thesis
    by (auto simp: handshakeP2_def obind_eq_Ret nil_deref_def split: option.splits intro: world_ok_put_in)
next
  case False
  have s: "shape_in b" using b by (simp add: in_ok_def)
  obtain a where a: "ib_raddr b = Some a" using b by (auto simp: in_ok_def)
  let ?p = "fst (InitHandshake e False p)"
  have lp: "peer_live ?p" using live by (simp add: InitHandshake_simps)
  let ?o = "snd (encode_out MsgHandshake (nid e) 1 (fst (get_out (pk e) w)))"
  have o: "shape_out ?o" and wo: "world_ok (snd (get_out (pk e) w))"
    using world_ok_get_out [OF w] encode_out_shape(1) clean_out_shape by blast+
  show ?thesis
  proof (cases "\<exists>h' q. UpdateEndpointLocked (Some a) (?p\<lparr>hs := Some h'\<rparr>) = Ret q \<and>
      (\<exists>x r t. p' = q\<lparr>hs := x, rx := r, tx := t\<rparr> \<or> p' = q\<lparr>rx := r, tx := t\<rparr>) \<and>
      (\<exists>m. w' = put_in b (put_out ?o (send_udp m (raddr q) (snd (get_out (pk e) w)))) \<or>
           w' = put_in b (put_out ?o (snd (get_out (pk e) w))))")
    case True
    then obtain h' q where q: "UpdateEndpointLocked (Some a) (?p\<lparr>hs := Some h'\<rparr>) = Ret q"
      and "(\<exists>x r t. p' = q\<lparr>hs := x, rx := r, tx := t\<rparr> \<or> p' = q\<lparr>rx := r, tx := t\<rparr>)"
      and "(\<exists>m. w' = put_in b (put_out ?o (send_udp m (raddr q) (snd (get_out (pk e) w)))) \<or>
           w' = put_in b (put_out ?o (snd (get_out (pk e) w))))" by blast
    moreover have "peer_live q" using UpdateEndpoint_live(2) [OF _ q] lp by simp
    ultimately show ?thesis using s o wo by (auto intro!: world_ok_put_in world_ok_put_out)
  next
    case False
    with assms(4) \<open>\<not> initiator p\<close> a show ?thesis
      using lp s w
      by (auto simp: handshakeP2_def obind_eq_Ret Let_def nil_deref_def case_prod_beta
          split: option.splits if_splits intro!: world_ok_put_in) (metis+)?
  qed
qed

lemma finish_handshake_live:
  assumes "peer_live p" and "world_ok w" and "in_ok b" and "finish_handshake e b (p, w) = Ret (p', w')"
  shows "peer_live p' \<and> world_ok w'"
  using assms(4) handshakeP2_live [OF assms(1-3)]
  by (auto simp: finish_handshake_def unlock_pending_def obind_eq_Ret split: if_splits)

lemma Handshake_message_live:
  assumes live: "peer_live p" and w: "world_ok w" and b: "in_ok b"
    and "Handshake_message e b (p, w) = Ret (p', w')"
  shows "peer_live p' \<and> world_ok w'"
proof -
  obtain a where a: "ib_raddr b = Some a" using b by (auto simp: in_ok_def)
  consider (fresh) q t where "finish_handshake e b (p, w) = Ret (q, w')" "p' = q\<lparr>keepalive := t\<rparr>"
    | (again) q r where "UpdateEndpoint (Some a) (p\<lparr>pendingLock := True\<rparr>) = Ret r"
      "finish_handshake e b (r, w) = Ret (q, w')"
      "p' = q\<lparr>keepalive := Armed TimerKeepalive, receivedPacket := Armed TimerRxTimeout\<rparr>"
    using assms(4) a
    by (auto simp: Handshake_message_def lock_pending_def obind_eq_Ret split: if_splits)
  then show ?thesis
  proof cases
    case fresh
    with finish_handshake_live [OF live w b fresh(1)] show ?thesis by simp
  next
    case again
    have "peer_live r" using UpdateEndpoint_live(1) [OF _ again(1)] live by simp
    from finish_handshake_live [OF this w b again(2)] again(3) show ?thesis by simp
  qed
qed

lemma Handshake_live:
  assumes live: "peer_live p" and w: "world_ok w" and "Handshake e (p, w) = Ret (p', w')"
  shows "peer_live p' \<and> world_ok w'"
proof (cases "handshakes p")
  case Nil
  with assms show ?thesis by (simp add: Handshake_def split: if_splits)
next
  case (Cons x q)
  let ?p = "p\<lparr>handshakes := q\<rparr>"
  have lq: "peer_live ?p" using live Cons by (simp add: peer_live_def)
  show ?thesis
  proof (cases x)
    case None
    with Cons assms lq show ?thesis by (auto simp: Handshake_def split: if_splits)
  next
    case (Some b)
    then have b: "in_ok b" using peer_liveD(3) [OF live] Cons by simp
    show ?thesis
    proof (cases "hsRoutine p = Idle")
      case True
      then have "Handshake_message e b (?p, w) = Ret (p', w')"
        using assms(3) Cons Some by (simp add: Handshake_def)
      then show ?thesis
        by (rule Handshake_message_live [OF lq w b])
    next
      case False
      with assms show ?thesis by (simp add: Handshake_def)
    qed
  qed
qed

lemma Inbound_packet_live:
  assumes "peer_live p" and "world_ok w" and b: "in_ok b" and "Inbound_packet e b (p, w) = Ret (p', w')"
  shows "peer_live p' \<and> world_ok w'"
proof -
  obtain a where "ib_raddr b = Some a" using b by (auto simp: in_ok_def)
  moreover have "shape_in (b\<lparr>ib_packet := x\<rparr>)" for x using b by (simp add: in_ok_def shape_in_def)
  ultimately show ?thesis
    using assms
    by (auto simp: Inbound_packet_def obind_eq_Ret Let_def case_prod_beta nil_deref_def
        split: option.splits if_splits intro!: world_ok_put_in dest!: UpdateEndpoint_live(1) [rotated])
qed

lemma Outbound_packet_live:
  assumes "peer_live p" and "world_ok w" and "out_ok b" and "Outbound_packet e b (p, w) = Ret (p', w')"
  shows "peer_live p' \<and> world_ok w'"
  using assms encode_out_shape(1) [of b]
  by (auto simp: Outbound_packet_def obind_eq_Ret Let_def case_prod_beta nil_deref_def out_ok_def
      split: option.splits if_splits intro!: world_ok_put_out)

lemma Inbound_live:
  assumes live: "peer_live p" and w: "world_ok w" and "Inbound e (p, w) = Ret (p', w')"
  shows "peer_live p' \<and> world_ok w'"
proof (cases "inRoutine p")
  case (Holding b)
  have "peer_live (p\<lparr>inRoutine := Idle\<rparr>)" "in_ok b" using live Holding by (auto simp: peer_live_def)
  with Holding assms(3) w show ?thesis
    by (intro Inbound_packet_live) (auto simp: Inbound_def split: if_splits)
qed (use assms in \<open>auto simp: Inbound_def chan_recv_def peer_live_def split: list.splits option.splits\<close>)

lemma Outbound_live:
  assumes live: "peer_live p" and w: "world_ok w" and "Outbound e (p, w) = Ret (p', w')"
  shows "peer_live p' \<and> world_ok w'"
proof (cases "outRoutine p")
  case (Holding b)
  have "peer_live (p\<lparr>outRoutine := Idle\<rparr>)" "out_ok b" using live Holding by (auto simp: peer_live_def)
  with Holding assms(3) w show ?thesis
    by (intro Outbound_packet_live) (auto simp: Outbound_def split: if_splits)
qed (use assms in \<open>auto simp: Outbound_def chan_recv_def peer_live_def split: list.splits option.splits\<close>)

lemma InboundPacket_live:
  assumes "peer_live p" and "world_ok w" and "in_ok b" and "InboundPacket b (p, w) = (p', w')"
  shows "peer_live p' \<and> world_ok w'"
  using assms
  by (auto simp: InboundPacket_def chan_send_def peer_live_def in_ok_def split: if_splits intro: world_ok_put_in)

lemma HandshakePacket_live:
  assumes "peer_live p" and "world_ok w" and "in_ok b" and "HandshakePacket b (p, w) = Ret (p', w')"
  shows "peer_live p' \<and> world_ok w'"
  using assms
  by (auto simp: HandshakePacket_def obind_eq_Ret chan_send_wait_Ret chan_send_def peer_live_def split: if_splits)

lemma OutboundPacket_live:
  assumes nn: "no_nil p" and live: "peer_live p" and w: "world_ok w" and b: "out_ok b"
    and "OutboundPacket e b (p, w) = Ret (p', w')"
  shows "peer_live p' \<and> world_ok w'"
proof (cases "running p")
  case True
  let ?p = "case chan_send OutboundChannelSize (Some b) (outbound p) of Some q \<Rightarrow> p\<lparr>outbound := q\<rparr> | None \<Rightarrow> p"
  have nn': "no_nil ?p" using nn by (auto simp: no_nil_def chan_send_def)
  have live': "peer_live ?p" using live b by (auto simp: peer_live_def chan_send_def)
  show ?thesis
  proof (cases "\<not> inTransport ?p \<and> hstate ?p = 0")
    case h: True
    with True assms(5) have "TrySendHandshake e False (?p, w) = Ret (p', w')"
      by (simp add: OutboundPacket_def Let_def)
    from TrySendHandshake_live [OF nn' live' w this] show ?thesis .
  next
    case False
    with True assms(5) have "p' = ?p" "w' = w" unfolding OutboundPacket_def Let_def prod.case if_False by auto
    with live' w show ?thesis by simp
  qed
next
  case False
  with assms show ?thesis by (auto simp: OutboundPacket_def out_ok_def intro: world_ok_put_out)
qed

lemma HandshakeTimeout_live:
  assumes "no_nil p" and "peer_live p" and "world_ok w" and "HandshakeTimeout e (p, w) = Ret (p', w')"
  shows "peer_live p' \<and> world_ok w'"
proof (cases "0 < hstate p \<and> initiator p")
  case True
  let ?p = "p\<lparr>inTransport := False\<rparr>"
  have nn: "no_nil ?p" and lv: "peer_live ?p" using assms(1,2) by (simp_all add: no_nil_def)
  from TrySendHandshake_live [OF nn lv assms(3)] assms(4) True show ?thesis
    by (simp add: HandshakeTimeout_def Let_def)
next
  case False
  with assms show ?thesis by (auto simp: HandshakeTimeout_def Let_def split: if_splits)
qed

lemma TXTimeout_live:
  assumes "peer_live p" and "world_ok w" and "TXTimeout e self (p, w) = Ret (p', w')"
  shows "peer_live p' \<and> world_ok w'"
proof -
  let ?b = "fst (get_out (pk e) w)\<lparr>ob_peer := Some self\<rparr>"
  have "out_ok ?b" using clean_out_ok [OF world_ok_get_out(1) [OF assms(2)], of "pk e"]
    by (simp add: out_ok_def shape_out_def)
  then show ?thesis
    using assms world_ok_get_out(2) [OF assms(2), of "pk e"]
    by (auto simp: TXTimeout_def obind_eq_Ret Let_def case_prod_beta OutboundChannelSize_def peer_live_def
        split: if_splits)
qed

lemma RXTimeout_live:
  assumes "no_nil p" and "peer_live p" and "world_ok w" and "RXTimeout e (p, w) = Ret (p', w')"
  shows "peer_live p' \<and> world_ok w'"
proof -
  let ?q = "p\<lparr>keepalive := Stopped, receivedPacket := Stopped, pendingLock := True, hstate := 0\<rparr>"
  let ?r = "p\<lparr>keepalive := Stopped, pendingLock := True, hstate := 0, receivedPacket := Stopped,
     handshakeSent := Stopped\<rparr>"
  have nn: "no_nil ?q" "no_nil ?r" and lv: "peer_live ?q" "peer_live ?r"
    using assms(1,2) by (simp_all add: no_nil_def)
  show ?thesis
    using assms(2-4) TrySendHandshake_live [OF nn(1) lv(1) assms(3)] ResetState_live [OF nn(2) lv(2) assms(3)]
    by (auto simp: RXTimeout_def lock_pending_def Let_def split: if_splits)
qed

lemma peer_Start_live: "peer_live p \<Longrightarrow> peer_Start p = Ret (ok, p') \<Longrightarrow> peer_live p'"
  by (auto simp: peer_Start_def lock_pending_def peer_live_def split: if_splits)

lemma peer_Stop_live:
  assumes wf: "peer_wf l p" and "peer_live p" and "world_ok w" and "peer_Stop (p, w) = Ret (p', w')"
  shows "peer_live p' \<and> world_ok w'"
proof -
  have "ResetState (p, w) = Ret (reset_peer p, w\<lparr>pools := reset_pools p (pools w)\<rparr>)"
    by (rule ResetState_Ret [OF peer_wfD(1) [OF wf]])
  from ResetState_live [OF peer_wfD(1) [OF wf] assms(2,3) this] peer_Stop_Ret [OF wf assms(4)]
  show ?thesis by (simp add: peer_live_def)
qed

section \<open>Runs\<close>

text \<open>
  What the node guarantees of the buffers it hands to a peer: a received datagram
  is at least as long as a header and carries its source address, a packet from
  the tunnel fits its buffer.
\<close>

fun event_ok :: "peer_event \<Rightarrow> bool" where
  "event_ok (EvInboundPacket b) = in_ok b"
| "event_ok (EvHandshakePacket b) = in_ok b"
| "event_ok (EvOutboundPacket b) = out_ok b"
| "event_ok _ = True"

definition peer_safe :: "('hs, 'cs, 'kp) env \<Rightarrow> ('hs, 'cs) pstate \<Rightarrow> bool" where
  "peer_safe e st \<longleftrightarrow> peer_inv e st \<and> peer_live (fst st) \<and> world_ok (snd st)"

lemma peer_step_live:
  assumes "event_ok ev" and wf: "peer_wf (lib e) p" and live: "peer_live p" and w: "world_ok w"
    and "peer_step e self ev (p, w) = Ret (p', w')"
  shows "peer_live p' \<and> world_ok w'"
  using assms(5)
proof (cases ev)
  case EvHandshakeTimer
  with assms(5) live w show ?thesis
    by (auto split: if_splits dest!: HandshakeTimeout_live [rotated -1] simp: peer_wfD(1) [OF peer_wf_updates(3) [OF wf]])
next
  case EvRxTimer
  have "no_nil (p\<lparr>receivedPacket := Stopped\<rparr>)" using peer_wfD(1) [OF wf] by (simp add: no_nil_def)
  with EvRxTimer assms(5) live w show ?thesis
    by (auto split: if_splits dest!: RXTimeout_live [rotated -1])
next
  case EvTxTimer
  with assms(5) live w show ?thesis by (auto split: if_splits dest!: TXTimeout_live [rotated -1])
next
  case EvStart
  with assms(5) live w show ?thesis by (auto simp: obind_eq_Ret dest: peer_Start_live)
qed (use assms peer_wfD(1) [OF wf] in \<open>auto dest!: OutboundPacket_live [rotated -1] InboundPacket_live [rotated -1]
      HandshakePacket_live [rotated -1] Inbound_live [rotated -1] Outbound_live [rotated -1]
      Handshake_live [rotated -1] peer_Stop_live [rotated -1]\<close>)

interpretation safe: preserves "\<lambda>ev st. if event_ok ev then peer_step e self ev st else Ret st" "peer_safe e"
  for e self
proof unfold_locales
  fix s s' ev
  assume s: "peer_safe e s" and "(if event_ok ev then peer_step e self ev s else Ret s) = Ret s'"
  then consider "s' = s" | "event_ok ev" "peer_step e self ev s = Ret s'" by (auto split: if_splits)
  then show "peer_safe e s'"
  proof cases
    case 2
    obtain p w p' w' where st: "s = (p, w)" "s' = (p', w')" by (cases s, cases s')
    have "peer_inv e s'" using peer.step_inv 2(2) s unfolding peer_safe_def by blast
    moreover have "peer_live p' \<and> world_ok w'"
      using peer_step_live [of ev e p w self p' w'] 2 s unfolding st by (simp add: peer_safe_def peer_inv_def)
    ultimately show ?thesis by (simp add: peer_safe_def st)
  qed (use s in simp)
qed

lemma run_events_guard:
  "list_all P es \<Longrightarrow> run_events (\<lambda>ev st. if P ev then f ev st else Ret st) es s = run_events f es s"
proof (induction es arbitrary: s)
  case (Cons x es)
  then show ?case by (cases "f x s") auto
qed simp

lemma peer_safe_run:
  "peer_safe e st \<Longrightarrow> list_all event_ok es \<Longrightarrow> run_events (peer_step e self) es st = Ret st' \<Longrightarrow> peer_safe e st'"
  using safe.run_inv [of e st self es st'] by (simp add: run_events_guard)

end
