(* ===== verification/Timers.thy ===== *)
theory Timers
  imports PeerSafety
begin

text \<open>
  Timers whose callbacks run late. \<open>time.AfterFunc\<close> (src/node/peer.go, \<open>NewPeer\<close>) runs a callback
  in a goroutine of its own, and \<open>Stop\<close> and \<open>Reset\<close> neither wait for it nor take it back. \<open>peer_step\<close> runs a
  callback at the moment its timer expires; here a timer may expire, or be stopped by a callback
  that then waits for a lock, without its callback running, and each of the three callbacks may
  run at any time, as often as one likes, whether its timer is armed or not; that is more than
  the code allows. Both invariants of a peer survive all of it with one exception,
  which \<open>timely\<close> names: the callback of the handshake timer must not run on a peer in session.
  The code does not rule that out; \<open>Races\<close> shows what happens then.
\<close>

section \<open>Expiries and callbacks apart\<close>

datatype timer = Handshake_timer | Receive_timer | Keepalive_timer

fun disarm :: "timer \<Rightarrow> ('hs, 'cs) Peer \<Rightarrow> ('hs, 'cs) Peer" where
  "disarm Handshake_timer p = p\<lparr>handshakeSent := Stopped\<rparr>"
| "disarm Receive_timer p = p\<lparr>receivedPacket := Stopped\<rparr>"
| "disarm Keepalive_timer p = p\<lparr>keepalive := Stopped\<rparr>"

fun callback ::
  "('hs, 'cs, 'kp) env \<Rightarrow> nat \<Rightarrow> timer \<Rightarrow> ('hs, 'cs) pstate \<Rightarrow> ('hs, 'cs) pstate outcome" where
  "callback e self Handshake_timer st = HandshakeTimeout e st"
| "callback e self Receive_timer st = RXTimeout e st"
| "callback e self Keepalive_timer st = TXTimeout e self st"

datatype timed_event = Timed peer_event | Expiry timer | Late timer

fun timed_step ::
  "('hs, 'cs, 'kp) env \<Rightarrow> nat \<Rightarrow> timed_event \<Rightarrow> ('hs, 'cs) pstate \<Rightarrow> ('hs, 'cs) pstate outcome" where
  "timed_step e self (Timed ev) st = peer_step e self ev st"
| "timed_step e self (Expiry t) st = Ret (disarm t (fst st), snd st)"
| "timed_step e self (Late t) st = callback e self t st"

definition timely :: "timed_event \<Rightarrow> ('hs, 'cs) pstate \<Rightarrow> bool" where
  "timely ev st \<longleftrightarrow> (ev = Late Handshake_timer \<longrightarrow> hstate (fst st) \<noteq> 2)"

fun timed_ok :: "timed_event \<Rightarrow> bool" where
  "timed_ok (Timed ev) = event_ok ev"
| "timed_ok _ = True"

lemma timed_run_events:
  "run_events (timed_step e self) (map Timed evs) st = run_events (peer_step e self) evs st"
proof (induction evs arbitrary: st)
  case (Cons ev evs)
  then show ?case by (cases "peer_step e self ev st") simp_all
qed simp

section \<open>Preservation\<close>

lemma disarm_wf: "peer_wf l p \<Longrightarrow> peer_wf l (disarm t p)"
  using peer_wf_updates(3) by (cases t) auto

lemma disarm_live [simp]: "peer_live (disarm t p) = peer_live p"
  by (cases t) simp_all

lemma callback_wf:
  assumes "peer_wf (lib e) p" and "t = Handshake_timer \<Longrightarrow> hstate p \<noteq> 2" and "callback e self t (p, w) = Ret (p', w')"
  shows "peer_wf (lib e) p'"
  using assms by (cases t) (auto dest: HandshakeTimeout_wf RXTimeout_wf TXTimeout_wf)

lemma callback_live:
  assumes "peer_wf l p" and "peer_live p" and "world_ok w" and "callback e self t (p, w) = Ret (p', w')"
  shows "peer_live p' \<and> world_ok w'"
  using assms peer_wfD(1) [OF assms(1)]
  by (cases t) (auto dest!: HandshakeTimeout_live [rotated -1] RXTimeout_live [rotated -1] TXTimeout_live [rotated -1])

lemma timed_step_wf:
  assumes "noise_ik (lib e)" and "peer_wf (lib e) p" and "timely ev (p, w)" and "timed_step e self ev (p, w) = Ret (p', w')"
  shows "peer_wf (lib e) p'"
  using assms by (cases ev) (auto simp: timely_def disarm_wf dest: peer_step_wf callback_wf)

lemma timed_step_live:
  assumes "timed_ok ev" and "peer_wf (lib e) p" and "peer_live p" and "world_ok w" and "timed_step e self ev (p, w) = Ret (p', w')"
  shows "peer_live p' \<and> world_ok w'"
  using assms by (cases ev) (auto dest: peer_step_live callback_live)

interpretation timed: preserves_when "timed_step e self" timely "peer_inv e" for e self
proof unfold_locales
  fix s s' ev
  assume "peer_inv e s" "timely ev s" "timed_step e self ev s = Ret s'"
  then show "peer_inv e s'"
    using timed_step_wf [of e "fst s" ev "snd s" self "fst s'" "snd s'"] by (simp add: peer_inv_def)
qed

interpretation timed_safe: preserves_when "timed_step e self" "\<lambda>ev st. timed_ok ev \<and> timely ev st" "peer_safe e" for e self
proof unfold_locales
  fix s s' ev
  assume "peer_safe e s" "timed_ok ev \<and> timely ev s" "timed_step e self ev s = Ret s'"
  then show "peer_safe e s'"
    using timed.step_inv [of e s ev self s'] timed_step_live [of ev e "fst s" "snd s" self "fst s'" "snd s'"]
    by (simp add: peer_safe_def peer_inv_def)
qed

end
