(* ===== verification/PeerProperties.thy ===== *)
theory PeerProperties
  imports Timers
begin

text \<open>
  What the peer state machine guarantees and where it fails: the invariant along
  all runs, the safety of the data paths, the bounded number of handshake
  attempts, and the exact conditions under which \<open>Stop\<close> and the handshake routine
  return. A small concrete Noise library makes the hypotheses concrete.
\<close>

section \<open>A concrete Noise library\<close>

text \<open>
  A library with the message flow of pattern IK: the handshake state is the role
  and the number of messages processed, a cipher state is its nonce, and the
  authentication tag is one byte that repeats the nonce.
\<close>

definition toy_noise :: "(bool \<times> nat, u64, unit) noise_lib" where
  "toy_noise = \<lparr>
     new_handshake = (\<lambda>i k rs. Some (i, 0)),
     write_message = (\<lambda>h. if h = (True, 0) then Some ([7], (True, 1), None)
        else if h = (False, 1) then Some ([8], (False, 2), Some (0, 0)) else None),
     read_message = (\<lambda>h m. if h = (False, 0) \<and> m = [7] then Some ((False, 1), None)
        else if h = (True, 1) \<and> m = [8] then Some ((True, 2), Some (0, 0)) else None),
     cs_encrypt = (\<lambda>n m. Some (m @ [ucast n], n + 1)),
     cs_decrypt = (\<lambda>n m. if m \<noteq> [] \<and> last m = ucast n then (butlast m, n + 1, True) else ([], n, False)),
     cs_Nonce = (\<lambda>n. n),
     cs_SetNonce = (\<lambda>n _. n)\<rparr>"

definition toy_env :: "(bool \<times> nat, u64, unit) env" where
  "toy_env = \<lparr>lib = toy_noise, pk = \<lparr>pick_in = (\<lambda>_. None), pick_out = (\<lambda>_. None)\<rparr>, nid = 5, keyPair = ()\<rparr>"

lemma toy_noise_ik: "noise_ik toy_noise"
  by (auto simp: noise_ik_def awaiting_def toy_noise_def split: if_splits)

definition quiet_world :: world where
  "quiet_world = \<lparr>pools = no_bufs, udp_out = [], tun_out = [], punches = []\<rparr>"

definition udp_addr :: "u8 \<Rightarrow> UDPAddr" where
  "udp_addr x = \<lparr>uIP = [10, 0, 0, x], uPort = 5000\<rparr>"

text \<open>The peer \<open>AddPeer\<close> builds, before it is started.\<close>

definition added_peer :: "u32 \<Rightarrow> Addr \<Rightarrow> bytes \<Rightarrow> string \<Rightarrow> UDPAddr option \<Rightarrow> ('hs, 'cs) Peer" where
  "added_peer i ip key name ep =
     NewPeer\<lparr>peerID := i, peerIP := ip, pubkey := key, Hostname := name, raddr := ep\<rparr>"

lemma added_peer_safe:
  assumes "noise_ik (lib e)" and "world_ok w" and "ep \<noteq> None"
  shows "peer_safe e (added_peer i ip key name ep, w)"
proof -
  have "peer_wf (lib e) (added_peer i ip key name ep)"
    by (simp add: added_peer_def peer_wf_def NewPeer_def no_nil_def)
  moreover have "peer_live (added_peer i ip key name ep)"
    using assms(3) by (simp add: added_peer_def peer_live_def NewPeer_def)
  ultimately show ?thesis using assms by (simp add: peer_safe_def peer_inv_def)
qed

lemma added_peer_inv: "noise_ik (lib e) \<Longrightarrow> peer_inv e (added_peer i ip key name ep, w)"
  by (simp add: peer_inv_def added_peer_def peer_wf_def NewPeer_def no_nil_def)

definition toy_peer :: "(bool \<times> nat, u64) Peer" where
  "toy_peer = added_peer 9 (Addr4 1) [] [] (Some (udp_addr 1))"

definition toy_state :: "(bool \<times> nat, u64) pstate" where
  "toy_state = (case run_events (peer_step toy_env 0) [EvStart, EvOutboundPacket NewOutboundBuffer] (toy_peer, quiet_world)
     of Ret st \<Rightarrow> st | _ \<Rightarrow> (toy_peer, quiet_world))"

lemma toy_run:
  "run_events (peer_step toy_env 0) [EvStart, EvOutboundPacket NewOutboundBuffer] (toy_peer, quiet_world) = Ret toy_state"
  "hstate (fst toy_state) = 1" "length (udp_out (snd toy_state)) = 1"
  "running (fst toy_state)" "inRoutine (fst toy_state) = Idle" "outRoutine (fst toy_state) = Idle"
  "hs (fst toy_state) = Some (True, 1)" "pubkey (fst toy_state) = []" "peerID (fst toy_state) = 9"
  by (auto simp: toy_state_def toy_peer_def added_peer_def toy_env_def toy_noise_def NewPeer_def quiet_world_def
      peer_Start_def lock_pending_def OutboundPacket_def chan_send_def OutboundChannelSize_def Let_def
      TrySendHandshake_def InitHandshake_def CreateHandshake_def get_out_def case_prod_beta handshakeP1_def
      send_udp_def put_out_def)

lemma quiet_world_ok: "world_ok quiet_world"
  by (simp add: world_ok_def quiet_world_def pools_clean_def no_bufs_def)

lemma NewOutboundBuffer_ok: "out_ok NewOutboundBuffer"
  by (simp add: out_ok_def shape_out_def NewOutboundBuffer_def)

section \<open>Invariant and safety\<close>














section \<open>Giving up\<close>

text \<open>
  Whether the library can start a handshake, with the node's key pair, to a peer with the given
  key. flynn/noise refuses keys of a wrong length and points of low order, and \<open>AddPeer\<close>
  takes whatever decodes as base 64.
\<close>

definition accepts_key :: "('hs, 'cs, 'kp) noise_lib \<Rightarrow> 'kp \<Rightarrow> bytes \<Rightarrow> bool" where
  "accepts_key l kp k \<longleftrightarrow>
     (\<exists>h m h' cs. new_handshake l True kp (Some k) = Some h \<and> write_message l h = Some (m, h', cs))"

text \<open>An initiator that has sent \<open>n\<close> first messages to \<open>a\<close> and waits for an answer.\<close>

definition attempting :: "u64 \<Rightarrow> UDPAddr \<Rightarrow> ('hs, 'cs) Peer \<Rightarrow> bool" where
  "attempting n a p \<longleftrightarrow> hstate p = 1 \<and> initiator p \<and> handshakeRetries p = n \<and>
     handshakeSent p \<noteq> Stopped \<and> raddr p = Some a \<and> no_nil p"

lemma get_out_frame:
  "udp_out (snd (get_out c w)) = udp_out w" "punches (snd (get_out c w)) = punches w"
  "tun_out (snd (get_out c w)) = tun_out w"
  by (simp_all add: get_out_def case_prod_beta)

lemma put_frames [simp]:
  "udp_out (put_out b w) = udp_out w" "punches (put_out b w) = punches w" "tun_out (put_out b w) = tun_out w"
  "udp_out (put_in i w) = udp_out w" "punches (put_in i w) = punches w" "tun_out (put_in i w) = tun_out w"
  by (simp_all add: put_out_def put_in_def)

text \<open>What an attempt does not touch.\<close>

definition unmoved :: "('hs, 'cs) Peer \<Rightarrow> ('hs, 'cs) Peer \<Rightarrow> bool" where
  "unmoved p p' \<longleftrightarrow> pubkey p' = pubkey p \<and> running p' = running p \<and> pendingLock p' = pendingLock p \<and>
     inRoutine p' = inRoutine p"

lemma TrySendHandshake_sends:
  assumes "accepts_key (lib e) (keyPair e) (pubkey p)" and "raddr p = Some a" and "no_nil p"
    and "retry \<longrightarrow> handshakeRetries p + 1 \<le> CountHandshakeRetries"
  obtains p' w' m where "TrySendHandshake e retry (p, w) = Ret (p', w')"
    "attempting (handshakeRetries p + 1) a p'" "peerID p' = peerID p" "unmoved p p'"
    "udp_out w' = udp_out w @ [(m, a)]"
    "punches w' = punches w @ (if retry then [peerID p] else [])"
proof -
  obtain h m h' cs where h: "new_handshake (lib e) True (keyPair e) (Some (pubkey p)) = Some h"
    "write_message (lib e) h = Some (m, h', cs)"
    using assms(1) unfolding accepts_key_def by blast
  have g: "\<not> (retry \<and> CountHandshakeRetries < handshakeRetries p + 1)" using assms(4) by auto
  let ?q = "p\<lparr>handshakeRetries := handshakeRetries p + 1\<rparr>"
  define v where "v = get_out (pk e) (if retry then RequestPunch ?q w else w)"
  define o' where "o' = encode_out MsgHandshake (nid e) 0 (fst v)"
  have v: "udp_out (snd v) = udp_out w" "punches (snd v) = punches w @ (if retry then [peerID p] else [])"
    by (simp_all add: v_def get_out_frame RequestPunch_def)
  show ?thesis
  proof (rule that)
    show "TrySendHandshake e retry (p, w) =
        Ret (p\<lparr>handshakeRetries := handshakeRetries p + 1, initiator := True, hs := Some h',
          hstate := 1, handshakeSent := Armed 3\<rparr>, put_out (snd o') (send_udp (fst o' @ m) (Some a) (snd v)))"
      using assms(2) h g
      by (cases retry) (simp_all add: TrySendHandshake_def Let_def InitHandshake_def CreateHandshake_def case_prod_beta
          handshakeP1_def v_def o'_def)
  qed (use assms(2,3) v in \<open>simp_all add: attempting_def no_nil_def send_udp_def unmoved_def\<close>)
qed

text \<open>A refused key ends the process.\<close>

lemma TrySendHandshake_refused:
  assumes "\<not> accepts_key (lib e) (keyPair e) (pubkey p)" and "\<not> (retry \<and> CountHandshakeRetries < handshakeRetries p + 1)"
  shows "is_panic (TrySendHandshake e retry (p, w))"
  using assms
  by (auto simp: accepts_key_def TrySendHandshake_def Let_def InitHandshake_def CreateHandshake_def case_prod_beta handshakeP1_def
      split: option.split)

lemma retry_step:
  assumes "accepts_key (lib e) (keyPair e) (pubkey p)" and "attempting n a p" and "n + 1 \<le> CountHandshakeRetries"
  obtains p' w' m where "peer_step e self EvHandshakeTimer (p, w) = Ret (p', w')"
    "attempting (n + 1) a p'" "peerID p' = peerID p" "unmoved p p'"
    "udp_out w' = udp_out w @ [(m, a)]" "punches w' = punches w @ [peerID p]"
proof -
  let ?p = "p\<lparr>handshakeSent := Stopped, inTransport := False\<rparr>"
  have "peer_step e self EvHandshakeTimer (p, w) = TrySendHandshake e True (?p, w)"
    using assms(2) by (simp add: attempting_def HandshakeTimeout_def Let_def)
  moreover have "raddr ?p = Some a" "no_nil ?p" "handshakeRetries ?p = n" "peerID ?p = peerID p" "unmoved ?p = unmoved p"
    using assms(2) by (simp_all add: attempting_def no_nil_def unmoved_def fun_eq_iff)
  moreover have "accepts_key (lib e) (keyPair e) (pubkey ?p)" using assms(1) by simp
  ultimately show ?thesis
    using TrySendHandshake_sends [of e ?p a True w] assms(3) that by (metis (full_types))
qed

lemma retry_steps:
  "accepts_key (lib e) (keyPair e) (pubkey p) \<Longrightarrow> attempting n a p \<Longrightarrow> unat n + k \<le> 10 \<Longrightarrow>
     \<exists>p' w' ms. run_events (peer_step e self) (replicate k EvHandshakeTimer) (p, w) = Ret (p', w') \<and>
       attempting (n + of_nat k) a p' \<and> peerID p' = peerID p \<and> unmoved p p' \<and> length ms = k \<and>
       udp_out w' = udp_out w @ map (\<lambda>m. (m, a)) ms \<and> punches w' = punches w @ replicate k (peerID p)"
proof (induction k arbitrary: n p w)
  case 0
  then show ?case by (auto simp: unmoved_def)
next
  case (Suc k)
  have le: "unat (n + 1) = unat n + 1" using Suc.prems(3) by (simp add: unat_word_ariths(1))
  then have n: "n + 1 \<le> CountHandshakeRetries"
    using Suc.prems(3) by (simp add: CountHandshakeRetries_def word_le_nat_alt)
  from retry_step [OF Suc.prems(1) Suc.prems(2) n, of self w] obtain p1 w1 m where
    1: "peer_step e self EvHandshakeTimer (p, w) = Ret (p1, w1)" "attempting (n + 1) a p1"
    "peerID p1 = peerID p" "unmoved p p1" "udp_out w1 = udp_out w @ [(m, a)]" "punches w1 = punches w @ [peerID p]" by metis
  from Suc.IH [of p1 "n + 1" w1] 1(2,4) Suc.prems(1) le Suc.prems(3) obtain p' w' ms where
    2: "run_events (peer_step e self) (replicate k EvHandshakeTimer) (p1, w1) = Ret (p', w')"
    "attempting (n + 1 + of_nat k) a p'" "peerID p' = peerID p1" "unmoved p1 p'" "length ms = k"
    "udp_out w' = udp_out w1 @ map (\<lambda>m. (m, a)) ms" "punches w' = punches w1 @ replicate k (peerID p1)" by (auto simp: unmoved_def)
  have "unmoved p p'" using 1(4) 2(4) by (simp add: unmoved_def)
  then show ?case
    using 1 2 by (intro exI [of _ p'] exI [of _ w'] exI [of _ "m # ms"]) (simp add: ac_simps)
qed

lemma retry_exceeded:
  assumes "attempting 10 a p"
  shows "peer_step e self EvHandshakeTimer (p, w) =
    Ret (reset_peer (p\<lparr>handshakeSent := Stopped\<rparr>), w\<lparr>pools := reset_pools p (pools w)\<rparr>)"
proof -
  let ?q = "p\<lparr>handshakeSent := Stopped, inTransport := False, handshakeRetries := 11\<rparr>"
  have nn: "no_nil ?q" using assms by (simp add: attempting_def no_nil_def)
  have "peer_step e self EvHandshakeTimer (p, w) = ResetState (?q\<lparr>handshakeSent := Stopped\<rparr>, w)"
    using assms by (simp add: attempting_def HandshakeTimeout_def TrySendHandshake_def CountHandshakeRetries_def Let_def)
  also have "?q\<lparr>handshakeSent := Stopped\<rparr> = ?q" by simp
  finally show ?thesis using ResetState_Ret [OF nn] by (simp add: reset_peer_def reset_pools_def)
qed

text \<open>
  C9 (liveness). A peer whose remote never answers. If the Noise library can start a
  handshake with the peer's key, the first packet for the idle peer sends a handshake message at once,
  and each of the ten expiries of the handshake timer that follow returns: in all, exactly ten messages
  are sent to the peer's endpoint and nine punch requests are made; then the peer is idle again, with
  every queued packet returned to the pools and the retry counter at zero. If the library refuses
  the key, which nothing has checked, that first packet ends the process.
\<close>

theorem handshake_gives_up:
  assumes "running p" and "no_nil p" and "hstate p = 0" and "\<not> inTransport p" and "handshakeRetries p = 0" and "raddr p = Some a"
  shows "if accepts_key (lib e) (keyPair e) (pubkey p) then
     \<exists>p' w' ms. run_events (peer_step e self) (EvOutboundPacket b # replicate 10 EvHandshakeTimer) (p, w) = Ret (p', w') \<and>
       length ms = 10 \<and> udp_out w' = udp_out w @ map (\<lambda>m. (m, a)) ms \<and>
       punches w' = punches w @ replicate 9 (peerID p) \<and>
       hstate p' = 0 \<and> handshakeRetries p' = 0 \<and> handshakeSent p' = Stopped \<and>
       inbound p' = [] \<and> outbound p' = [] \<and> handshakes p' = []
   else is_panic (peer_step e self (EvOutboundPacket b) (p, w))"
proof -
  let ?p = "case chan_send OutboundChannelSize (Some b) (outbound p) of Some q \<Rightarrow> p\<lparr>outbound := q\<rparr> | None \<Rightarrow> p"
  have f: "no_nil ?p" "raddr ?p = Some a" "handshakeRetries ?p = 0" "peerID ?p = peerID p" "pubkey ?p = pubkey p"
    "hstate ?p = 0" "\<not> inTransport ?p"
    using assms(2-6) by (auto simp: no_nil_def chan_send_def)
  have s: "peer_step e self (EvOutboundPacket b) (p, w) = TrySendHandshake e False (?p, w)"
    unfolding peer_step.simps OutboundPacket_def Let_def using assms(1) f(6,7) by simp
  show ?thesis
  proof (cases "accepts_key (lib e) (keyPair e) (pubkey p)")
    case True
    then have key: "accepts_key (lib e) (keyPair e) (pubkey ?p)" by (simp add: f(5))
    obtain p1 w1 m where 1: "TrySendHandshake e False (?p, w) = Ret (p1, w1)"
      "attempting 1 a p1" "peerID p1 = peerID p" "unmoved ?p p1" "udp_out w1 = udp_out w @ [(m, a)]" "punches w1 = punches w"
      using TrySendHandshake_sends [OF key f(2,1), of False w] f(3,4) by (metis add_0 append_Nil2)
    have "pubkey p1 = pubkey p" using 1(4) f(5) by (simp add: unmoved_def)
    obtain p2 w2 ms where 2: "run_events (peer_step e self) (replicate 9 EvHandshakeTimer) (p1, w1) = Ret (p2, w2)"
      "attempting 10 a p2" "peerID p2 = peerID p1" "length ms = 9" "udp_out w2 = udp_out w1 @ map (\<lambda>m. (m, a)) ms"
      "punches w2 = punches w1 @ replicate 9 (peerID p1)"
      using retry_steps [of e p1 1 a 9 self w1] True 1(2) \<open>pubkey p1 = pubkey p\<close> by auto
    have ten: "replicate 10 EvHandshakeTimer = replicate 9 EvHandshakeTimer @ [EvHandshakeTimer]"
      by (simp add: replicate_append_same numeral_eq_Suc)
    have "run_events (peer_step e self) (EvOutboundPacket b # replicate 10 EvHandshakeTimer) (p, w) =
       Ret (reset_peer (p2\<lparr>handshakeSent := Stopped\<rparr>), w2\<lparr>pools := reset_pools p2 (pools w2)\<rparr>)"
      unfolding ten by (simp add: s 1(1) run_events_append 2(1) retry_exceeded [OF 2(2)] del: peer_step.simps)
    with True show ?thesis
      using 1(3,5,6) 2(3-6)
      by (simp del: run_events.simps peer_step.simps, intro exI [of _ "reset_peer (p2\<lparr>handshakeSent := Stopped\<rparr>)"]
          exI [of _ "w2\<lparr>pools := reset_pools p2 (pools w2)\<rparr>"] exI [of _ "m # ms"]) (simp add: reset_peer_def)
  next
    case False
    have "is_panic (TrySendHandshake e False (?p, w))"
      by (rule TrySendHandshake_refused) (use False f(5) in auto)
    with False show ?thesis unfolding s by simp
  qed
qed

lemma toy_accepts_key [simp]: "accepts_key toy_noise kp k"
  by (auto simp: accepts_key_def toy_noise_def)

theorem handshake_gives_up_witness:
  "\<exists>p' w' ms. run_events (peer_step toy_env 0)
     (EvOutboundPacket NewOutboundBuffer # replicate 10 EvHandshakeTimer)
     (toy_peer\<lparr>running := True, pendingLock := True\<rparr>, quiet_world) = Ret (p', w') \<and>
     length ms = 10 \<and> udp_out w' = map (\<lambda>m. (m, udp_addr 1)) ms \<and> punches w' = replicate 9 9 \<and> hstate p' = 0"
proof -
  let ?p = "toy_peer\<lparr>running := True, pendingLock := True\<rparr>"
  have s: "accepts_key (lib toy_env) (keyPair toy_env) (pubkey ?p)" by (simp add: toy_env_def)
  have "running ?p" "no_nil ?p" "hstate ?p = 0" "\<not> inTransport ?p" "handshakeRetries ?p = 0"
    "raddr ?p = Some (udp_addr 1)" "peerID ?p = 9"
    by (simp_all add: toy_peer_def added_peer_def NewPeer_def no_nil_def)
  from handshake_gives_up [OF this(1-6), of toy_env 0 NewOutboundBuffer quiet_world] s this(7) show ?thesis
    by (simp add: quiet_world_def del: run_events.simps) blast
qed

section \<open>Stopping\<close>

lemma peer_Stop_cases:
  assumes "peer_wf l p"
  shows "\<not> running p \<or> hstate p = 2 \<Longrightarrow> is_panic (peer_Stop (p, w))"
    and "running p \<Longrightarrow> hstate p \<noteq> 2 \<Longrightarrow> inRoutine p = Idle \<Longrightarrow> outRoutine p = Idle \<Longrightarrow>
      peer_Stop (p, w) = Ret (reset_peer p\<lparr>running := False, pendingLock := False, hsRoutine := Exited,
        inRoutine := Exited, outRoutine := Exited\<rparr>, w\<lparr>pools := reset_pools p (pools w)\<rparr>)"
    and "running p \<Longrightarrow> hstate p \<noteq> 2 \<Longrightarrow> inRoutine p \<noteq> Idle \<or> outRoutine p \<noteq> Idle \<Longrightarrow> peer_Stop (p, w) = Block"
proof -
  have nn: "no_nil (p\<lparr>running := False\<rparr>)" using peer_wfD(1) [OF assms] by (simp add: no_nil_def)
  have rp: "reset_pools (p\<lparr>running := False\<rparr>) s = reset_pools p s" for s by (simp add: reset_pools_def)
  note D = peer_wfD(5-7,9,11) [OF assms] and S = peer_Stop_def prod.case if_not_P [OF peer_wf_not_stopping [OF assms]] ResetState_Ret [OF nn] obind.simps rp
  show "\<not> running p \<or> hstate p = 2 \<Longrightarrow> is_panic (peer_Stop (p, w))"
    using D unfolding S
    by (cases "running p"; cases "inRoutine p"; cases "outRoutine p")
      (auto simp: await_routine_def unlock_pending_def reset_peer_def nil_deref_def)
  show "running p \<Longrightarrow> hstate p \<noteq> 2 \<Longrightarrow> inRoutine p \<noteq> Idle \<or> outRoutine p \<noteq> Idle \<Longrightarrow> peer_Stop (p, w) = Block"
    using D unfolding S
    by (cases "inRoutine p"; cases "outRoutine p")
      (auto simp: await_routine_def unlock_pending_def reset_peer_def nil_deref_def)
  show "running p \<Longrightarrow> hstate p \<noteq> 2 \<Longrightarrow> inRoutine p = Idle \<Longrightarrow> outRoutine p = Idle \<Longrightarrow>
      peer_Stop (p, w) = Ret (reset_peer p\<lparr>running := False, pendingLock := False, hsRoutine := Exited,
        inRoutine := Exited, outRoutine := Exited\<rparr>, w\<lparr>pools := reset_pools p (pools w)\<rparr>)"
    using D unfolding S
    by (auto simp: await_routine_def unlock_pending_def reset_peer_def intro!: Peer.equality)
qed

text \<open>
  C34 (error). What \<open>Stop\<close> does in each state of a peer. It returns only for a
  running peer without a session whose data routines both wait for their channels;
  then it leaves every channel empty and all routines ended. For a peer in session it
  crashes the program: the pending lock is not held, so the final \<open>Unlock\<close> is a fatal error
  (or a data routine meets the erased cipher state first). If a data routine holds a
  packet while the handshake is pending, \<open>Stop\<close> never returns, because it waits for
  that routine while it keeps the lock the routine needs.
\<close>

theorem Stop_outcome:
  assumes "peer_wf l p"
  shows "if \<not> running p \<or> hstate p = 2 then is_panic (peer_Stop (p, w))
    else if inRoutine p = Idle \<and> outRoutine p = Idle
    then \<exists>p' w'. peer_Stop (p, w) = Ret (p', w') \<and> \<not> running p' \<and> \<not> pendingLock p' \<and>
           inbound p' = [] \<and> outbound p' = [] \<and> handshakes p' = [] \<and>
           inRoutine p' = Exited \<and> outRoutine p' = Exited \<and> hsRoutine p' = Exited
    else peer_Stop (p, w) = Block"
  using peer_Stop_cases [OF assms, of w] by (auto simp: reset_peer_def)

theorem Stop_outcome_witness:
  "peer_wf toy_noise (fst toy_state) \<and>
   (\<exists>p' w'. peer_Stop (fst toy_state, snd toy_state) = Ret (p', w') \<and> \<not> running p')"
proof -
  have ik: "noise_ik (lib toy_env)" by (simp add: toy_env_def toy_noise_ik)
  have "peer_inv toy_env toy_state"
    using peer.run_inv [OF added_peer_inv [OF ik] toy_run(1) [unfolded toy_peer_def]] .
  then have wf: "peer_wf toy_noise (fst toy_state)" by (simp add: peer_inv_def toy_env_def)
  have "running (fst toy_state)" "inRoutine (fst toy_state) = Idle" "outRoutine (fst toy_state) = Idle"
    using toy_run(4-6) .
  with Stop_outcome [OF wf, of "snd toy_state"] toy_run(2) wf show ?thesis by auto
qed

section \<open>Handshake messages from the network\<close>

definition responder_accepts :: "('hs, 'cs, 'kp) env \<Rightarrow> bytes \<Rightarrow> bool" where
  "responder_accepts e msg \<longleftrightarrow>
     (case new_handshake (lib e) False (keyPair e) None of
        None \<Rightarrow> False
      | Some h \<Rightarrow> (case read_message (lib e) h msg of
                     None \<Rightarrow> False
                   | Some (h', _) \<Rightarrow> write_message (lib e) h' \<noteq> None))"

definition message_accepted ::
  "('hs, 'cs, 'kp) env \<Rightarrow> InboundBuffer \<Rightarrow> ('hs, 'cs) Peer \<Rightarrow> bool" where
  "message_accepted e b p \<longleftrightarrow>
     (let msg = drop HeaderLen (take (ib_size b) (backing (ib_in b)))
      in if hstate p = 0 then Counter (ib_header b) = 0 \<and> responder_accepts e msg
         else if hstate p = 1 then Counter (ib_header b) = 1 \<and>
           (case hs p of None \<Rightarrow> False | Some h \<Rightarrow> read_message (lib e) h msg \<noteq> None)
         else \<not> initiator p \<and> responder_accepts e msg)"

lemma handshakeP2_accepts:
  assumes "in_ok b" and "raddr p \<noteq> None"
  shows "if initiator p
    then (case hs p of None \<Rightarrow> is_panic (handshakeP2 e b (p, w))
      | Some h \<Rightarrow> \<exists>q u. handshakeP2 e b (p, w) =
          Ret (read_message (lib e) h (drop HeaderLen (take (ib_size b) (backing (ib_in b)))) \<noteq> None, (q, u)) \<and>
          pendingLock q = pendingLock p)
    else \<exists>q u. handshakeP2 e b (p, w) =
          Ret (responder_accepts e (drop HeaderLen (take (ib_size b) (backing (ib_in b)))), (q, u)) \<and>
          pendingLock q = pendingLock p"
proof -
  obtain a r where "ib_raddr b = Some a" "raddr p = Some r" using assms by (auto simp: in_ok_def)
  with assms show ?thesis
    by (auto simp: handshakeP2_def in_payload_Ret nil_deref_def responder_accepts_def InitHandshake_def
        CreateHandshake_def UpdateEndpointLocked_def Let_def case_prod_beta split: option.splits)
qed

lemma finish_handshake_accepts:
  assumes "in_ok b" and "raddr p \<noteq> None" and "pendingLock p"
    and acc: "acc \<longleftrightarrow> (if initiator p then (case hs p of None \<Rightarrow> False
        | Some h \<Rightarrow> read_message (lib e) h (drop HeaderLen (take (ib_size b) (backing (ib_in b)))) \<noteq> None)
      else responder_accepts e (drop HeaderLen (take (ib_size b) (backing (ib_in b)))))"
  shows "if acc then \<exists>p' w'. finish_handshake e b (p, w) = Ret (p', w') \<and> hstate p' = 2 \<and> \<not> pendingLock p'
    else is_panic (finish_handshake e b (p, w))"
  using handshakeP2_accepts [OF assms(1,2), of e w] assms(3) acc
  by (cases "handshakeP2 e b (p, w)")
    (auto simp: finish_handshake_def unlock_pending_def split: if_splits option.splits)

text \<open>
  C8 (error). What the handshake routine does with a message for a running peer,
  in every state: it completes the handshake and the peer is in session, or it
  crashes the program. It crashes for every message that it does not accept: a
  counter that does not fit the state (which also happens when both sides initiate
  at the same time), a message the Noise library refuses, and any new handshake for
  a session this node initiated.
\<close>

theorem Handshake_completes_or_crashes:
  assumes "peer_safe e (p, w)" and "running p" and "in_ok b"
  shows "if message_accepted e b p
    then \<exists>p' w'. Handshake_message e b (p, w) = Ret (p', w') \<and> hstate p' = 2 \<and> \<not> pendingLock p'
    else is_panic (Handshake_message e b (p, w))"
proof -
  have wf: "peer_wf (lib e) p" and r: "raddr p \<noteq> None"
    using assms(1) by (simp_all add: peer_safe_def peer_inv_def peer_live_def)
  obtain a where a: "ib_raddr b = Some a" using assms(3) by (auto simp: in_ok_def)
  from peer_wfD(8) [OF wf] consider "hstate p = 0" | "hstate p = 1" | "hstate p = 2" by blast
  then show ?thesis
  proof cases
    case 1
    then have "pendingLock p" "\<not> initiator p" using peer_wfD(11,14) [OF wf] assms(2) by auto
    with 1 show ?thesis using finish_handshake_accepts [OF assms(3) r, of "responder_accepts e (drop HeaderLen (take (ib_size b) (backing (ib_in b))))" e w]
      by (auto simp: Handshake_message_def message_accepted_def split: if_splits)
        (cases "finish_handshake e b (p, w)"; simp)+
  next
    case 2
    then obtain h where h: "hs p = Some h" and "pendingLock p" "initiator p"
      using peer_wfD(11,16,17) [OF wf] assms(2) by auto
    with 2 show ?thesis using finish_handshake_accepts [OF assms(3) r, of "read_message (lib e) h (drop HeaderLen (take (ib_size b) (backing (ib_in b)))) \<noteq> None" e w]
      by (auto simp: Handshake_message_def message_accepted_def split: if_splits)
        (cases "finish_handshake e b (p, w)"; simp)+
  next
    case 3
    then have lk: "\<not> pendingLock p" using peer_wfD(11) [OF wf] assms(2) by auto
    obtain q where q: "UpdateEndpoint (ib_raddr b) (p\<lparr>pendingLock := True\<rparr>) = Ret q"
      "pendingLock q" "raddr q \<noteq> None" "initiator q = initiator p" "hs q = hs p"
      using r a by (auto simp: UpdateEndpoint_def split: if_splits)
    have "initiator p \<Longrightarrow> hs p = None" using peer_wfD(15) [OF wf] 3 by blast
    with 3 lk q show ?thesis
      using finish_handshake_accepts [OF assms(3) q(3,2), of "\<not> initiator p \<and> responder_accepts e (drop HeaderLen (take (ib_size b) (backing (ib_in b))))" e w]
      by (auto simp: Handshake_message_def message_accepted_def lock_pending_def split: if_splits)
        (cases "finish_handshake e b (q, w)"; simp)+
  qed
qed

text \<open>A reply to the first message, as the node hands it to the handshake routine.\<close>

definition toy_reply :: InboundBuffer where
  "toy_reply = NewInboundBuffer\<lparr>ib_in := \<lparr>backing = put_at 16 [8] (replicate BufferSize 0), slen = BufferSize\<rparr>,
     ib_size := 17, ib_raddr := Some (udp_addr 2), ib_header := NewHeader\<lparr>Counter := 1\<rparr>\<rparr>"

theorem Handshake_completes_or_crashes_witness:
  "peer_safe toy_env (fst toy_state, snd toy_state) \<and> in_ok toy_reply \<and>
   (\<exists>p' w'. Handshake_message toy_env toy_reply (fst toy_state, snd toy_state) = Ret (p', w') \<and> hstate p' = 2)"
proof -
  have ik: "noise_ik (lib toy_env)" by (simp add: toy_env_def toy_noise_ik)
  have ok: "list_all event_ok [EvStart, EvOutboundPacket NewOutboundBuffer]" by (simp add: NewOutboundBuffer_ok)
  have safe: "peer_safe toy_env (fst toy_state, snd toy_state)"
    using peer_safe_run [OF added_peer_safe [OF ik quiet_world_ok] ok toy_run(1) [unfolded toy_peer_def]] by simp
  have b: "in_ok toy_reply"
    by (simp add: in_ok_def shape_in_def toy_reply_def full_slice_def scap_def BufferSize_def HeaderLen_def)
  have "drop HeaderLen (take (ib_size toy_reply) (backing (ib_in toy_reply))) = [8]"
    by (simp add: toy_reply_def HeaderLen_def put_at_def BufferSize_def)
  then have "message_accepted toy_env toy_reply (fst toy_state)"
    using toy_run(2,7) by (auto simp: message_accepted_def) (auto simp: toy_reply_def toy_env_def toy_noise_def)
  with Handshake_completes_or_crashes [OF safe toy_run(4) b] safe b show ?thesis by auto
qed

end
