(* ===== verification/PeerTypes.thy ===== *)
theory PeerTypes
  imports Prelude
begin

text \<open>
  The controller's peer record (src/controller/types/peer.go) with its methods, and
  the protobuf messages they build. An instant is its distance in nanoseconds from
  a fixed origin, and the clock (\<open>time.Now\<close>) is an argument. \<open>Time.Sub\<close> saturates
  at the bounds of a 64-bit duration as package time does. The printed form of an
  instant (\<open>Time.Format\<close>) depends on the host's time zone and is an argument.
\<close>

section \<open>Instants and durations\<close>

type_synonym instant = int

definition maxDuration :: int where "maxDuration = 2 ^ 63 - 1"
definition minDuration :: int where "minDuration = - (2 ^ 63)"
definition Hour :: int where "Hour = 3600 * 10 ^ 9"

definition time_Sub :: "instant \<Rightarrow> instant \<Rightarrow> int" where
  "time_Sub t u = (if t - u > maxDuration then maxDuration
                   else if t - u < minDuration then minDuration else t - u)"

text \<open>
  The zero value of \<open>time.Time\<close> is January 1 of year 1. With the Unix epoch as
  origin it is 719162 days earlier.
\<close>

definition zeroTime :: instant where "zeroTime = - (719162 * 24 * Hour)"

lemma time_Sub_ge: "minDuration < d \<Longrightarrow> d \<le> maxDuration \<Longrightarrow> d \<le> time_Sub t u \<longleftrightarrow> d \<le> t - u"
  by (simp add: time_Sub_def minDuration_def maxDuration_def)

section \<open>Records\<close>

record DBPeer =
  ID :: u32
  MachineID :: string
  NoisePublicKey :: string
  IP :: string
  PrefixStr :: string
  Endpoint :: string
  HostName :: string
  LoggedIn :: bool
  Connected :: bool
  User :: string
  Disabled :: bool
  LastLogin :: instant
  LastAuth :: instant
  CreatedAt :: instant
  UpdatedAt :: instant

record pb_Peer =
  pb_Id :: u32
  pb_PublicKey :: string
  pb_Hostname :: string
  pb_Ip :: string
  pb_Endpoint :: string
  pb_Prefix :: string
  pb_User :: string
  pb_Connected :: bool

record pb_PeerDetails =
  pd_MachineId :: string
  pd_Id :: u32
  pd_PublicKey :: string
  pd_Hostname :: string
  pd_Ip :: string
  pd_Endpoint :: string
  pd_Prefix :: string
  pd_User :: string
  pd_Connected :: bool
  pd_Disabled :: bool
  pd_LastLogin :: string
  pd_LastAuth :: string
  pd_CreatedAt :: string
  pd_UpdatedAt :: string

record pb_PeerConfig =
  pc_PeerId :: u32
  pc_TunnelIp :: string
  pc_Prefix :: string

datatype UpdateType = INIT | CONNECT | DISCONNECT | PUNCH | LOGOUT

record pb_PeerList =
  pl_Peers :: "pb_Peer list"
  pl_Count :: u32

record pb_UpdateResponse =
  ur_UpdateType :: UpdateType
  ur_PeerList :: "pb_PeerList option"
  ur_PunchEndpoint :: string

record pb_LoginPeerRequest =
  lr_MachineId :: string
  lr_PublicKey :: string
  lr_Hostname :: string
  lr_Endpoint :: string
  lr_AccessToken :: string

definition zero_DBPeer :: DBPeer where
  "zero_DBPeer = \<lparr>ID = 0, MachineID = [], NoisePublicKey = [], IP = [], PrefixStr = [], Endpoint = [],
     HostName = [], LoggedIn = False, Connected = False, User = [], Disabled = False,
     LastLogin = zeroTime, LastAuth = zeroTime, CreatedAt = zeroTime, UpdatedAt = zeroTime\<rparr>"

section \<open>Methods\<close>

text \<open>\<open>Copy\<close> lists the fields by position, in the order the source gives them.\<close>

definition Copy :: "DBPeer \<Rightarrow> DBPeer" where
  "Copy p = \<lparr>ID = ID p, MachineID = MachineID p, NoisePublicKey = NoisePublicKey p, IP = IP p,
     PrefixStr = PrefixStr p, Endpoint = Endpoint p, HostName = HostName p,
     LoggedIn = Connected p, Connected = LoggedIn p, User = User p, Disabled = Disabled p,
     LastLogin = LastLogin p, LastAuth = LastAuth p, CreatedAt = CreatedAt p, UpdatedAt = UpdatedAt p\<rparr>"

definition Proto :: "DBPeer \<Rightarrow> pb_Peer" where
  "Proto p = \<lparr>pb_Id = ID p, pb_PublicKey = NoisePublicKey p, pb_Hostname = HostName p, pb_Ip = IP p,
     pb_Endpoint = Endpoint p, pb_Prefix = PrefixStr p, pb_User = User p, pb_Connected = Connected p\<rparr>"

definition ProtoDetails :: "(instant \<Rightarrow> string) \<Rightarrow> DBPeer \<Rightarrow> pb_PeerDetails" where
  "ProtoDetails fmt p = \<lparr>pd_MachineId = MachineID p, pd_Id = ID p, pd_PublicKey = NoisePublicKey p,
     pd_Hostname = HostName p, pd_Ip = IP p, pd_Endpoint = Endpoint p, pd_Prefix = PrefixStr p,
     pd_User = User p, pd_Connected = Connected p, pd_Disabled = Disabled p,
     pd_LastLogin = fmt (LastLogin p), pd_LastAuth = fmt (LastAuth p),
     pd_CreatedAt = fmt (CreatedAt p), pd_UpdatedAt = fmt (UpdatedAt p)\<rparr>"

definition ProtoConfig :: "DBPeer \<Rightarrow> pb_PeerConfig" where
  "ProtoConfig p = \<lparr>pc_PeerId = ID p, pc_TunnelIp = IP p, pc_Prefix = PrefixStr p\<rparr>"

definition IsLoggedIn :: "DBPeer \<Rightarrow> bool" where "IsLoggedIn p = LoggedIn p"
definition IsConnected :: "DBPeer \<Rightarrow> bool" where "IsConnected p = Connected p"
definition IsDisabled :: "DBPeer \<Rightarrow> bool" where "IsDisabled p = Disabled p"

text \<open>
  \<open>days >= 30\<close> on \<open>float64\<close> values. The whole hours of the duration are exact, and
  the fraction of an hour is below one in floating point too, so the test is exactly
  that 720 hours have passed.
\<close>

definition IsAuthExpired :: "instant \<Rightarrow> DBPeer \<Rightarrow> bool" where
  "IsAuthExpired now p \<longleftrightarrow> 30 * 24 * Hour \<le> time_Sub now (LastAuth p)"

definition UpdateAuth :: "instant \<Rightarrow> DBPeer \<Rightarrow> DBPeer" where
  "UpdateAuth now p = p\<lparr>LastAuth := now\<rparr>"

lemma IsAuthExpired_iff: "IsAuthExpired now p \<longleftrightarrow> LastAuth p + 30 * 24 * Hour \<le> now"
proof -
  have "minDuration < 30 * 24 * Hour" "30 * 24 * Hour \<le> maxDuration"
    by (simp_all add: minDuration_def maxDuration_def Hour_def)
  from time_Sub_ge [OF this] show ?thesis by (auto simp: IsAuthExpired_def)
qed

section \<open>Properties\<close>

text \<open>
  Authentication lasts exactly thirty days: after \<open>UpdateAuth\<close> at
  time \<open>t\<close> the peer counts as expired from the instant \<open>t\<close> plus 720 hours on and
  not before, for all instants, also where \<open>Time.Sub\<close> saturates; a record whose
  \<open>LastAuth\<close> was never set is expired at any time from 1970 on.
\<close>

lemma auth_lasts_thirty_days:
  "IsAuthExpired now (UpdateAuth t p) = (t + 2592000 * 10 ^ 9 \<le> now) \<and>
   IsAuthExpired (int n) zero_DBPeer"
  by (simp add: IsAuthExpired_iff UpdateAuth_def Hour_def zero_DBPeer_def zeroTime_def)

text \<open>
  \<open>Copy\<close> is not a copy: it exchanges the flags \<open>LoggedIn\<close> and
  \<open>Connected\<close> and keeps every other field, so it returns an equal record exactly for
  the peers whose two flags agree, and copying twice restores the record.
\<close>

lemma Copy_exchanges_flags:
  "Copy p = p\<lparr>LoggedIn := Connected p, Connected := LoggedIn p\<rparr> \<and>
   (Copy p = p) = (LoggedIn p = Connected p) \<and> Copy (Copy p) = p"
proof -
  have c: "Copy p = p\<lparr>LoggedIn := Connected p, Connected := LoggedIn p\<rparr>" for p by (simp add: Copy_def)
  have "LoggedIn (Copy p) = Connected p" by (simp add: c)
  then have "Copy p = p \<Longrightarrow> LoggedIn p = Connected p" by simp
  moreover have "LoggedIn p = Connected p \<Longrightarrow> Copy p = p" by (simp add: c)
  moreover have "Copy (Copy p) = p" by (simp add: c)
  ultimately show ?thesis using c by blast
qed

end
