(* ===== verification/Auth.thy ===== *)
theory Auth
  imports PeerTypes
begin

text \<open>
  Authentication in the controller: machine ids and bearer tokens
  (src/controller/util.go), the controller's own JWTs (src/controller/auth/jwt.go)
  and the interceptor that checks them (src/controller/middleware/interceptors.go),
  and the validation of access tokens of the identity provider with its cache of
  user records (src/controller/auth/oauth.go). The JWT library and the identity
  provider are parameters.
\<close>

section \<open>Status codes\<close>

datatype code = InvalidArgument | NotFound | Internal | PermissionDenied | Unauthenticated | Aborted

type_synonym status = "code \<times> string"

section \<open>Machine ids and bearer tokens\<close>

definition MachineIDLen :: nat where "MachineIDLen = 64"

definition word_char :: "char \<Rightarrow> bool" where
  "word_char c \<longleftrightarrow>
     (let n = (of_char c :: nat)
      in 97 \<le> n \<and> n \<le> 122 \<or> 65 \<le> n \<and> n \<le> 90 \<or> 48 \<le> n \<and> n \<le> 57 \<or> n = 95)"

definition validateMachineID :: "string \<Rightarrow> bool" where
  "validateMachineID i =
     (if \<not> list_all word_char i then False
      else if length i < MachineIDLen then False
      else True)"

text \<open>\<open>strings.Split\<close> with a separator that is not empty.\<close>

function split_str :: "string \<Rightarrow> string \<Rightarrow> string list" where
  "split_str sep s =
     (if s = [] \<or> sep = [] then [s]
      else if take (length sep) s = sep then [] # split_str sep (drop (length sep) s)
      else case split_str sep (tl s) of
             [] \<Rightarrow> [[hd s]]
           | x # xs \<Rightarrow> (hd s # x) # xs)"
  by pat_completeness auto
termination by (relation "measure (\<lambda>(sep, s). length s)") (auto simp: neq_Nil_conv)

declare split_str.simps [simp del]

definition bearer :: string where "bearer = ''Bearer ''"

text \<open>The metadata of a request: absent, or a map from keys to lists of values.\<close>

type_synonym metadata = "(string \<Rightarrow> string list) option"

definition extractTokenMetadata :: "metadata \<Rightarrow> status + string" where
  "extractTokenMetadata md =
     (case md of
        None \<Rightarrow> Inl (Unauthenticated, ''metadata missing from request context'')
      | Some m \<Rightarrow>
          (case m ''authorization'' of
             [] \<Rightarrow> Inl (Unauthenticated, ''invalid or missing access token'')
           | v # _ \<Rightarrow>
               let token = split_str bearer v
               in if length token < 2 then Inl (Unauthenticated, ''invalid or missing access token'')
                  else Inr (token ! 1)))"

fun has_sub :: "string \<Rightarrow> string \<Rightarrow> bool" where
  "has_sub sep [] = (sep = [])"
| "has_sub sep (c # cs) = (take (length sep) (c # cs) = sep \<or> has_sub sep cs)"

lemma split_str_absent: "\<not> has_sub sep s \<Longrightarrow> split_str sep s = [s]"
proof (induction s)
  case Nil
  then show ?case by (subst split_str.simps) simp
next
  case (Cons c s)
  then have "split_str sep s = [s]" "take (length sep) (c # s) \<noteq> sep" by auto
  then show ?case unfolding split_str.simps [of sep "c # s"] by simp
qed

lemma split_str_front:
  "sep \<noteq> [] \<Longrightarrow> split_str sep (sep @ s) = [] # split_str sep s"
  by (subst split_str.simps) simp

section \<open>The controller's tokens\<close>

record Claims =
  ClaimMachineID :: string
  ExpiresAt :: instant
  IssuedAt :: instant
  NotBefore :: instant
  Issuer :: string

datatype signing_method = HMAC | OtherMethod

text \<open>
  The JWT library: \<open>jwt_sign\<close> is \<open>SignedString\<close> with HS256, \<open>jwt_parse\<close> is
  \<open>ParseWithClaims\<close> at a given time with a key function.
\<close>

record jwt_lib =
  jwt_sign :: "Claims \<Rightarrow> string \<Rightarrow> string option"
  jwt_parse :: "instant \<Rightarrow> string \<Rightarrow> (signing_method \<Rightarrow> string option) \<Rightarrow> (Claims \<times> bool) option"

definition DaysTokenValid :: int where "DaysTokenValid = 30"
definition jwtSigningKey :: string where "jwtSigningKey = ''SECRETKEY''"

text \<open>\<open>NewNumericDate\<close> truncates to whole seconds.\<close>

definition NewNumericDate :: "instant \<Rightarrow> instant" where
  "NewNumericDate t = t - t mod 10 ^ 9"

definition getExpireDate :: "instant \<Rightarrow> instant" where
  "getExpireDate now = NewNumericDate (now + Hour * 24 * DaysTokenValid)"

definition GenerateJwtWithClaims :: "jwt_lib \<Rightarrow> instant \<Rightarrow> string \<Rightarrow> string option" where
  "GenerateJwtWithClaims j now user =
     jwt_sign j \<lparr>ClaimMachineID = user, ExpiresAt = getExpireDate now, IssuedAt = NewNumericDate now,
       NotBefore = NewNumericDate now, Issuer = ''zeronet-controller''\<rparr> jwtSigningKey"

definition keyFunc :: "signing_method \<Rightarrow> string option" where
  "keyFunc m = (case m of HMAC \<Rightarrow> Some jwtSigningKey | OtherMethod \<Rightarrow> None)"

datatype jwt_error = JwtParse | ErrTokenInvalid

definition ParseJwtWithClaims :: "jwt_lib \<Rightarrow> instant \<Rightarrow> string \<Rightarrow> jwt_error + Claims" where
  "ParseJwtWithClaims j now token =
     (case jwt_parse j now token keyFunc of
        None \<Rightarrow> Inl JwtParse
      | Some (claims, valid) \<Rightarrow> if \<not> valid then Inl ErrTokenInvalid else Inr claims)"

definition IsJwtExpired :: "jwt_lib \<Rightarrow> instant \<Rightarrow> string \<Rightarrow> bool" where
  "IsJwtExpired j now token =
     (case jwt_parse j now token keyFunc of
        None \<Rightarrow> True
      | Some (claims, valid) \<Rightarrow> if \<not> valid then True else False)"

text \<open>
  Documented behaviour of the library: a token signed with HS256 parses with the
  same key from its \<open>NotBefore\<close> until before its \<open>ExpiresAt\<close>, and not outside.
\<close>

definition jwt_ok :: "jwt_lib \<Rightarrow> bool" where
  "jwt_ok j \<longleftrightarrow>
     (\<forall>c k s now kf. jwt_sign j c k = Some s \<longrightarrow>
        jwt_parse j now s kf =
          (if kf HMAC = Some k \<and> NotBefore c \<le> now \<and> now < ExpiresAt c then Some (c, True) else None))"

section \<open>The interceptor\<close>

definition methodBypass :: "string \<Rightarrow> bool" where
  "methodBypass m =
     (if m = ''/proto.ControllerService/GetPKCEAuthInfo'' then True
      else if m = ''/proto.ControllerService/LoginPeer'' then True
      else False)"

definition authorizeJwt :: "jwt_lib \<Rightarrow> instant \<Rightarrow> metadata \<Rightarrow> string \<Rightarrow> status option" where
  "authorizeJwt j now md m =
     (if methodBypass m then None
      else case md of
             None \<Rightarrow> Some (Unauthenticated, ''metadata missing from request context'')
           | Some f \<Rightarrow>
               (case f ''authorization'' of
                  [] \<Rightarrow> Some (Unauthenticated, ''authorization token is not provided'')
                | jwtToken # _ \<Rightarrow>
                    (case ParseJwtWithClaims j now jwtToken of
                       Inl _ \<Rightarrow> Some (Unauthenticated, ''jwt token is invalid'')
                     | Inr _ \<Rightarrow> None)))"

definition NewUnaryAuthInterceptor ::
  "jwt_lib \<Rightarrow> instant \<Rightarrow> metadata \<Rightarrow> string \<Rightarrow> ('req \<Rightarrow> status + 'resp) \<Rightarrow> 'req \<Rightarrow> status + 'resp" where
  "NewUnaryAuthInterceptor j now md m handler req =
     (case authorizeJwt j now md m of Some e \<Rightarrow> Inl e | None \<Rightarrow> handler req)"

section \<open>Access tokens\<close>

record UserInfo =
  Name :: string
  GivenName :: string
  FamilyName :: string
  Email :: string
  Nickname :: string
  InfoUpdatedAt :: instant

text \<open>
  A parsed token of the identity provider, with what the library's getters \<open>GetAudience\<close> and
  \<open>GetSubject\<close> return for it: \<open>None\<close> is their error, for a claim of a wrong type. An absent
  claim is no error: its getter returns no audience, or the empty text as the subject.
\<close>

record access_token =
  Raw :: string
  Valid :: bool
  Audience :: "string list option"
  Subject :: "string option"

text \<open>
  The identity provider: its signing keys decide what parses (\<open>idp_parse\<close>), and the
  userinfo endpoint answers a request with a body that decodes to user data. The
  decoder leaves \<open>InfoUpdatedAt\<close> alone, since its tag excludes it from JSON.
\<close>

datatype http_reply = RequestFailed | Undecodable | Decoded "string \<times> string \<times> string \<times> string \<times> string"

record idp =
  idp_parse :: "string \<Rightarrow> access_token option"
  idp_userinfo :: "string \<Rightarrow> http_reply"

record OpenIDConfig =
  ConfIssuer :: string
  AuthEndpoint :: string
  TokenEndpoint :: string
  JWKSEndpoint :: string
  Scopes :: "string list"
  ConfClaims :: "string list"
  UserInfoEndpoint :: string

record TokenValidator =
  tv_config :: OpenIDConfig
  clientID :: string
  audience :: string
  redirectUri :: string
  userCache :: "(string \<times> UserInfo) list"

datatype auth_error =
    ParsingAccessToken | AccessTokenInvalid | NoAudienceClaim | InvalidAudience
  | NoSubjectClaim | RetrievingUserInfo

definition NeedsRefresh :: "instant \<Rightarrow> UserInfo \<Rightarrow> bool" where
  "NeedsRefresh now u \<longleftrightarrow> Hour \<le> time_Sub now (InfoUpdatedAt u)"

definition cache_tick :: "instant \<Rightarrow> TokenValidator \<Rightarrow> TokenValidator" where
  "cache_tick now t = t\<lparr>userCache := filter (\<lambda>(k, v). \<not> NeedsRefresh now v) (userCache t)\<rparr>"

definition GetUserInfo :: "idp \<Rightarrow> access_token \<Rightarrow> UserInfo option" where
  "GetUserInfo ip token =
     (case idp_userinfo ip (Raw token) of
        RequestFailed \<Rightarrow> None
      | Undecodable \<Rightarrow> None
      | Decoded (n, gn, fn, e, nn) \<Rightarrow>
          Some \<lparr>Name = n, GivenName = gn, FamilyName = fn, Email = e, Nickname = nn,
                InfoUpdatedAt = zeroTime\<rparr>)"

definition GetUser :: "idp \<Rightarrow> access_token \<Rightarrow> TokenValidator \<Rightarrow> (auth_error + string) \<times> TokenValidator" where
  "GetUser ip token t =
     (case Subject token of
        None \<Rightarrow> (Inl NoSubjectClaim, t)
      | Some sub \<Rightarrow>
          (case map_of (userCache t) sub of
             Some u \<Rightarrow> (Inr (Email u), t)
           | None \<Rightarrow>
               (case GetUserInfo ip token of
                  None \<Rightarrow> (Inl RetrievingUserInfo, t)
                | Some u \<Rightarrow> (Inr (Email u), t\<lparr>userCache := (sub, u) # userCache t\<rparr>))))"

definition validateAudience :: "string \<Rightarrow> access_token \<Rightarrow> auth_error option" where
  "validateAudience aud token =
     (case Audience token of
        None \<Rightarrow> Some NoAudienceClaim
      | Some as \<Rightarrow> if aud \<notin> set as then Some InvalidAudience else None)"

definition ValidateAccessToken ::
  "idp \<Rightarrow> string \<Rightarrow> TokenValidator \<Rightarrow> (auth_error + string) \<times> TokenValidator" where
  "ValidateAccessToken ip token t =
     (case idp_parse ip token of
        None \<Rightarrow> (Inl ParsingAccessToken, t)
      | Some tok \<Rightarrow>
          if \<not> Valid tok then (Inl AccessTokenInvalid, t)
          else case validateAudience (audience t) tok of
                 Some e \<Rightarrow> (Inl e, t)
               | None \<Rightarrow>
                   (case GetUser ip tok t of
                      (Inl e, t') \<Rightarrow> (Inl e, t')
                    | (Inr user, t') \<Rightarrow> (Inr user, t')))"

record pb_PKCEAuthInfo =
  pk_ClientId :: string
  pk_AuthEndpoint :: string
  pk_TokenEndpoint :: string
  pk_RedirectUri :: string
  pk_Audience :: string

definition GetPKCEAuthInfo :: "TokenValidator \<Rightarrow> pb_PKCEAuthInfo" where
  "GetPKCEAuthInfo t = \<lparr>pk_ClientId = clientID t, pk_AuthEndpoint = AuthEndpoint (tv_config t),
     pk_TokenEndpoint = TokenEndpoint (tv_config t), pk_RedirectUri = redirectUri t,
     pk_Audience = audience t\<rparr>"

section \<open>Properties\<close>

text \<open>
  The token of an \<open>authorization\<close> header of the form
  \<open>Bearer t\<close> is recovered exactly, for every token that does not itself contain
  the text \<open>Bearer \<close>; a value without it is refused as unauthenticated.
\<close>

theorem bearer_token_roundtrip:
  assumes "\<not> has_sub bearer t"
  shows "extractTokenMetadata (Some (m(''authorization'' := (bearer @ t) # vs))) = Inr t \<and>
    extractTokenMetadata (Some (m(''authorization'' := t # vs))) =
      Inl (Unauthenticated, ''invalid or missing access token'')"
  using split_str_front [of bearer t] split_str_absent [OF assms]
  by (simp add: extractTokenMetadata_def bearer_def)

theorem bearer_token_roundtrip_witness:
  "\<not> has_sub bearer ''abc'' \<and>
   extractTokenMetadata (Some ((\<lambda>_. [])(''authorization'' := [bearer @ ''abc'']))) = Inr ''abc''"
proof -
  have n: "\<not> has_sub bearer ''abc''" by (simp add: bearer_def)
  from bearer_token_roundtrip [OF n, of "\<lambda>_. []" "[]"] n show ?thesis by blast
qed

lemma keyFunc_HMAC [simp]: "keyFunc HMAC = Some jwtSigningKey"
  by (simp add: keyFunc_def)

text \<open>
  A token the controller generates for a user at time \<open>t\<close> can
  be read back with the same user, and passes the interceptor for any method,
  from the start of that second until the end of its thirty days; afterwards it is
  refused by both and reported as expired.
\<close>

lemma own_token_lifetime:
  assumes "jwt_ok j" and "GenerateJwtWithClaims j t user = Some s"
  shows "map_sum id ClaimMachineID (ParseJwtWithClaims j now s) =
       (if NewNumericDate t \<le> now \<and> now < NewNumericDate (t + 2592000 * 10 ^ 9) then Inr user else Inl JwtParse) \<and>
     IsJwtExpired j now s = (\<not> (NewNumericDate t \<le> now \<and> now < NewNumericDate (t + 2592000 * 10 ^ 9))) \<and>
     (authorizeJwt j now (Some (f(''authorization'' := [s]))) m = None) =
       (methodBypass m \<or> NewNumericDate t \<le> now \<and> now < NewNumericDate (t + 2592000 * 10 ^ 9))"
proof -
  let ?c = "\<lparr>ClaimMachineID = user, ExpiresAt = getExpireDate t, IssuedAt = NewNumericDate t,
       NotBefore = NewNumericDate t, Issuer = ''zeronet-controller''\<rparr>"
  have e: "getExpireDate t = NewNumericDate (t + 2592000 * 10 ^ 9)"
    by (simp add: getExpireDate_def Hour_def DaysTokenValid_def)
  have "jwt_parse j now s keyFunc =
      (if NewNumericDate t \<le> now \<and> now < getExpireDate t then Some (?c, True) else None)"
    using assms unfolding jwt_ok_def GenerateJwtWithClaims_def by simp
  then show ?thesis
    unfolding e by (auto simp: ParseJwtWithClaims_def IsJwtExpired_def authorizeJwt_def)
qed

text \<open>A library that signs one set of claims only, with the time checks of the real one.\<close>

definition toy_claims :: Claims where
  "toy_claims = \<lparr>ClaimMachineID = ''m'', ExpiresAt = getExpireDate 0, IssuedAt = 0, NotBefore = 0,
     Issuer = ''zeronet-controller''\<rparr>"

definition toy_jwt :: jwt_lib where
  "toy_jwt = \<lparr>
     jwt_sign = (\<lambda>c k. if c = toy_claims \<and> k = jwtSigningKey then Some ''token'' else None),
     jwt_parse = (\<lambda>now s kf. if s = ''token'' \<and> kf HMAC = Some jwtSigningKey \<and> 0 \<le> now \<and> now < getExpireDate 0
       then Some (toy_claims, True) else None)\<rparr>"

lemma own_token_lifetime_example:
  "jwt_ok toy_jwt \<and> GenerateJwtWithClaims toy_jwt 0 ''m'' = Some ''token'' \<and>
   map_sum id ClaimMachineID (ParseJwtWithClaims toy_jwt 5 ''token'') = Inr ''m''"
proof -
  have ok: "jwt_ok toy_jwt" by (auto simp: jwt_ok_def toy_jwt_def toy_claims_def split: if_splits)
  have g: "GenerateJwtWithClaims toy_jwt 0 ''m'' = Some ''token''"
    by (simp add: GenerateJwtWithClaims_def toy_jwt_def toy_claims_def NewNumericDate_def)
  have n: "NewNumericDate 0 = 0" "5 < NewNumericDate (0 + 2592000 * 10 ^ 9)" by (simp_all add: NewNumericDate_def)
  from own_token_lifetime [OF ok g, of 5] ok g n show ?thesis by simp
qed

text \<open>Operations on the validator: validations and ticks of the cache routine.\<close>

datatype tv_event = Validate string | Tick instant

fun tv_step :: "idp \<Rightarrow> tv_event \<Rightarrow> TokenValidator \<Rightarrow> TokenValidator" where
  "tv_step ip (Validate s) t = snd (ValidateAccessToken ip s t)"
| "tv_step ip (Tick now) t = cache_tick now t"

text \<open>A token that the provider signed for this service, and its subject.\<close>

definition acceptable :: "idp \<Rightarrow> string \<Rightarrow> string \<Rightarrow> access_token \<Rightarrow> string \<Rightarrow> bool" where
  "acceptable ip aud s tok sub \<longleftrightarrow> idp_parse ip s = Some tok \<and> Valid tok \<and> Subject tok = Some sub \<and>
     (\<exists>as. Audience tok = Some as \<and> aud \<in> set as)"

lemma Validate_acceptable:
  assumes "acceptable ip (audience t) s tok sub"
  shows "ValidateAccessToken ip s t =
    (case map_of (userCache t) sub of
       Some i \<Rightarrow> (Inr (Email i), t)
     | None \<Rightarrow> (case GetUserInfo ip tok of
                 None \<Rightarrow> (Inl RetrievingUserInfo, t)
               | Some i \<Rightarrow> (Inr (Email i), t\<lparr>userCache := (sub, i) # userCache t\<rparr>)))"
  using assms by (auto simp: acceptable_def ValidateAccessToken_def validateAudience_def GetUser_def split: option.split)

lemma Validate_refused:
  assumes "\<And>tok sub. \<not> acceptable ip (audience t) s tok sub"
  shows "\<exists>e. ValidateAccessToken ip s t = (Inl e, t)"
  using assms
  by (auto simp: acceptable_def ValidateAccessToken_def validateAudience_def GetUser_def split: option.split)

text \<open>Every entry of the cache is the provider's answer for an acceptable token that was presented.\<close>

definition answered :: "idp \<Rightarrow> string \<Rightarrow> string set \<Rightarrow> string \<Rightarrow> UserInfo \<Rightarrow> bool" where
  "answered ip aud S sub i \<longleftrightarrow> (\<exists>s \<in> S. \<exists>tok. acceptable ip aud s tok sub \<and> GetUserInfo ip tok = Some i)"

definition cache_from :: "idp \<Rightarrow> string \<Rightarrow> string set \<Rightarrow> TokenValidator \<Rightarrow> bool" where
  "cache_from ip aud S t \<longleftrightarrow> audience t = aud \<and> (\<forall>(sub, i) \<in> set (userCache t). answered ip aud S sub i)"

lemma cache_from_mono: "cache_from ip aud S t \<Longrightarrow> S \<subseteq> S' \<Longrightarrow> cache_from ip aud S' t"
  unfolding cache_from_def answered_def by blast

lemma cache_from_Validate:
  assumes "cache_from ip aud S t"
  shows "cache_from ip aud (insert s S) (snd (ValidateAccessToken ip s t))"
proof (cases "\<exists>tok sub. acceptable ip (audience t) s tok sub")
  case True
  then obtain tok sub where a: "acceptable ip aud s tok sub" "audience t = aud" using assms by (auto simp: cache_from_def)
  have t: "cache_from ip aud (insert s S) t" using assms by (rule cache_from_mono) blast
  have "answered ip aud (insert s S) sub i" if "GetUserInfo ip tok = Some i" for i
    using a(1) that by (auto simp: answered_def)
  with t show ?thesis
    using Validate_acceptable [of ip t s tok sub] a by (auto simp: cache_from_def split: option.split)
next
  case False
  then obtain e where "ValidateAccessToken ip s t = (Inl e, t)" using Validate_refused by blast
  with cache_from_mono [OF assms, of "insert s S"] show ?thesis by auto
qed

fun presented :: "tv_event list \<Rightarrow> string set" where
  "presented [] = {}"
| "presented (Validate s # es) = insert s (presented es)"
| "presented (Tick now # es) = presented es"

lemma cache_from_fold: "cache_from ip aud S t \<Longrightarrow> cache_from ip aud (S \<union> presented es) (fold (tv_step ip) es t)"
proof (induction es arbitrary: S t)
  case (Cons e es)
  show ?case
  proof (cases e)
    case (Validate s)
    from Cons.IH [OF cache_from_Validate [OF Cons.prems]] Validate show ?thesis by (simp add: Un_commute)
  next
    case (Tick now)
    have "cache_from ip aud S (cache_tick now t)" using Cons.prems by (auto simp: cache_from_def cache_tick_def)
    from Cons.IH [OF this] Tick show ?thesis by simp
  qed
qed simp

text \<open>
  C39 (functional). For whom access tokens are accepted. Take a validator after any history of
  validations and cleanings of its cache. Every accepted user is the e-mail address that the
  provider's userinfo endpoint answered for this token or for an earlier one with the same
  subject, signed by the provider for the configured audience too. A token of that kind is
  accepted whenever the endpoint answers. A refusal of any kind leaves the validator, its cache
  included, exactly as it was. Once a user is accepted, and until the cache is cleaned, every further
  token with the same subject is accepted for that user, whatever the endpoint says or whether it answers at all: a
  token without a subject, which the library reports as the empty text, therefore acts as the
  first user that was seen without one.
\<close>

theorem access_tokens_accepted_for:
  assumes "userCache t = []" and "t' = fold (tv_step ip) es t"
  shows "(\<forall>u. fst (ValidateAccessToken ip s t') = Inr u \<longrightarrow>
       (\<exists>tok sub i. acceptable ip (audience t) s tok sub \<and> answered ip (audience t) (insert s (presented es)) sub i \<and> Email i = u)) \<and>
     (\<forall>tok sub. acceptable ip (audience t) s tok sub \<and> GetUserInfo ip tok \<noteq> None \<longrightarrow>
       (\<exists>u. fst (ValidateAccessToken ip s t') = Inr u)) \<and>
     (\<forall>e. fst (ValidateAccessToken ip s t') = Inl e \<longrightarrow> snd (ValidateAccessToken ip s t') = t') \<and>
     (\<forall>u tok sub s2 tok2 f. fst (ValidateAccessToken ip s t') = Inr u \<and> acceptable ip (audience t) s tok sub \<and>
       acceptable ip (audience t) s2 tok2 sub \<longrightarrow>
       ValidateAccessToken (ip\<lparr>idp_userinfo := f\<rparr>) s2 (snd (ValidateAccessToken ip s t')) =
         (Inr u, snd (ValidateAccessToken ip s t')))"
proof -
  let ?aud = "audience t"
  have origin: "cache_from ip ?aud (presented es) t'"
    using cache_from_fold [of ip ?aud "{}" t es] assms by (simp add: cache_from_def)
  then have aud: "audience t' = ?aud" by (simp add: cache_from_def)
  note acc = Validate_acceptable [of ip t' s, unfolded aud]
  note ref = Validate_refused [of ip t' s, unfolded aud]
  have sound: "\<exists>tok sub i. acceptable ip ?aud s tok sub \<and> answered ip ?aud (insert s (presented es)) sub i \<and> Email i = u"
    if u: "fst (ValidateAccessToken ip s t') = Inr u" for u
  proof -
    obtain tok sub where a: "acceptable ip ?aud s tok sub" using ref u by fastforce
    have "answered ip ?aud (insert s (presented es)) sub i" if "map_of (userCache t') sub = Some i" for i
      using origin map_of_SomeD [OF that] by (auto simp: cache_from_def answered_def)
    moreover have "answered ip ?aud (insert s (presented es)) sub i" if "GetUserInfo ip tok = Some i" for i
      using a that by (auto simp: answered_def)
    ultimately show ?thesis using a u acc [OF a] by (auto split: option.splits)
  qed
  have keep: "snd (ValidateAccessToken ip s t') = t'" if e: "fst (ValidateAccessToken ip s t') = Inl e" for e
  proof (cases "\<exists>tok sub. acceptable ip ?aud s tok sub")
    case True
    then obtain tok sub where a: "acceptable ip ?aud s tok sub" by blast
    from acc [OF a] e show ?thesis by (auto split: option.splits)
  qed (use ref in fastforce)
  have again: "ValidateAccessToken (ip\<lparr>idp_userinfo := f\<rparr>) s2 (snd (ValidateAccessToken ip s t')) =
      (Inr u, snd (ValidateAccessToken ip s t'))"
    if h: "fst (ValidateAccessToken ip s t') = Inr u" "acceptable ip ?aud s tok sub" "acceptable ip ?aud s2 tok2 sub"
    for u tok sub s2 tok2 f
  proof -
    have c: "audience (snd (ValidateAccessToken ip s t')) = ?aud"
      "\<exists>i. map_of (userCache (snd (ValidateAccessToken ip s t'))) sub = Some i \<and> Email i = u"
      using acc [OF h(2)] h(1) aud by (auto split: option.splits)
    have "acceptable (ip\<lparr>idp_userinfo := f\<rparr>) (audience (snd (ValidateAccessToken ip s t'))) s2 tok2 sub"
      using h(3) unfolding c(1) by (simp add: acceptable_def)
    from Validate_acceptable [OF this] c(2) show ?thesis by auto
  qed
  have complete: "\<exists>u. fst (ValidateAccessToken ip s t') = Inr u"
    if "acceptable ip ?aud s tok sub" "GetUserInfo ip tok \<noteq> None" for tok sub
    using acc [OF that(1)] that(2) by (auto split: option.splits)
  from sound complete keep again show ?thesis by blast
qed

definition toy_validator :: TokenValidator where
  "toy_validator = \<lparr>tv_config = \<lparr>ConfIssuer = [], AuthEndpoint = [], TokenEndpoint = [], JWKSEndpoint = [],
     Scopes = [], ConfClaims = [], UserInfoEndpoint = []\<rparr>, clientID = [], audience = ''zeronet'', redirectUri = [],
     userCache = []\<rparr>"

text \<open>A provider whose tokens name no subject: the token of b is accepted for a.\<close>

definition no_subject_idp :: idp where
  "no_subject_idp = \<lparr>idp_parse = (\<lambda>s. Some \<lparr>Raw = s, Valid = True, Audience = Some [''zeronet''], Subject = Some []\<rparr>),
     idp_userinfo = (\<lambda>s. Decoded (''n'', ''g'', ''f'', s, ''k''))\<rparr>"

theorem access_tokens_accepted_for_witness:
  "fst (ValidateAccessToken no_subject_idp ''b'' (snd (ValidateAccessToken no_subject_idp ''a'' toy_validator))) = Inr ''a''"
proof -
  let ?t = toy_validator
  let ?tok = "\<lambda>s. \<lparr>Raw = s, Valid = True, Audience = Some [''zeronet''], Subject = Some []\<rparr>"
  have a: "acceptable no_subject_idp (audience ?t) s (?tok s) []" for s
    by (simp add: acceptable_def no_subject_idp_def toy_validator_def)
  have first: "fst (ValidateAccessToken no_subject_idp ''a'' ?t) = Inr ''a''"
    using Validate_acceptable [OF a, of "''a''"] by (simp add: GetUserInfo_def no_subject_idp_def toy_validator_def)
  have i: "no_subject_idp\<lparr>idp_userinfo := idp_userinfo no_subject_idp\<rparr> = no_subject_idp" by simp
  have "userCache ?t = []" "?t = fold (tv_step no_subject_idp) [] ?t" by (simp_all add: toy_validator_def)
  note again = access_tokens_accepted_for [OF this, of "''a''", THEN conjunct2, THEN conjunct2, THEN conjunct2, rule_format, of "''a''"]
  from again [of "?tok ''a''" "[]" "''b''" "?tok ''b''" "idp_userinfo no_subject_idp"] first a show ?thesis
    unfolding i by simp
qed

definition unstamped :: "TokenValidator \<Rightarrow> bool" where
  "unstamped t \<longleftrightarrow> list_all (\<lambda>(k, u). InfoUpdatedAt u = zeroTime) (userCache t)"

lemma unstamped_step: "unstamped t \<Longrightarrow> unstamped (tv_step ip e t)"
  by (cases e)
    (auto simp: unstamped_def cache_tick_def ValidateAccessToken_def GetUser_def GetUserInfo_def list_all_iff
      split: option.splits if_splits http_reply.splits)

lemma unstamped_fold: "unstamped t \<Longrightarrow> unstamped (fold (tv_step ip) es t)"
  by (induction es arbitrary: t) (auto simp: unstamped_step)

lemma NeedsRefresh_zero: "InfoUpdatedAt u = zeroTime \<Longrightarrow> 0 \<le> now \<Longrightarrow> NeedsRefresh now u"
  by (simp add: NeedsRefresh_def time_Sub_def zeroTime_def Hour_def maxDuration_def minDuration_def)

text \<open>
  The cache of user records never keeps an entry over a tick of its
  routine: user records are stored without a time, so from 1970 on every tick finds
  every entry older than an hour and empties the cache, whatever was validated
  before.
\<close>

lemma user_cache_emptied_by_every_tick:
  assumes "userCache t = []" and "0 \<le> now"
  shows "userCache (fold (tv_step ip) (es @ [Tick now]) t) = []"
proof -
  let ?t = "fold (tv_step ip) es t"
  have "unstamped ?t" using assms(1) by (intro unstamped_fold) (simp add: unstamped_def)
  then show ?thesis
    using NeedsRefresh_zero [OF _ assms(2)]
    by (auto simp: cache_tick_def unstamped_def list_all_iff filter_empty_conv)
qed

definition toy_idp :: idp where
  "toy_idp = \<lparr>idp_parse = (\<lambda>s. Some \<lparr>Raw = s, Valid = True, Audience = Some [''zeronet''], Subject = Some s\<rparr>),
     idp_userinfo = (\<lambda>s. Decoded (''n'', ''g'', ''f'', s, ''k''))\<rparr>"

lemma user_cache_emptied_by_every_tick_example:
  "userCache (tv_step toy_idp (Validate ''a@b'') toy_validator) \<noteq> [] \<and>
   userCache (fold (tv_step toy_idp) ([Validate ''a@b''] @ [Tick 1]) toy_validator) = []"
  using user_cache_emptied_by_every_tick [of toy_validator 1 toy_idp "[Validate ''a@b'']"]
  by (simp add: toy_validator_def toy_idp_def ValidateAccessToken_def validateAudience_def GetUser_def GetUserInfo_def)

end
