(* ===== verification/Base64.thy ===== *)
theory Base64
  imports Prelude
begin

text \<open>
  Keys travel between node and controller as standard base64 text
  (\<open>base64.StdEncoding\<close>, used by \<open>DecodeBase64Key\<close> of src/node/helpers.go and by
  \<open>Login\<close> of src/node/service.go). The decoder ignores line breaks, demands the
  padding and does not check the unused bits of the last character.
\<close>

section \<open>The alphabet\<close>

definition b64_char :: "nat \<Rightarrow> char" where
  "b64_char n =
     (if n < 26 then char_of (65 + n)
      else if n < 52 then char_of (97 + (n - 26))
      else if n < 62 then char_of (48 + (n - 52))
      else if n = 62 then CHR ''+'' else CHR ''/'')"

definition b64_val :: "char \<Rightarrow> nat option" where
  "b64_val c =
     (let n = (of_char c :: nat)
      in if 65 \<le> n \<and> n \<le> 90 then Some (n - 65)
         else if 97 \<le> n \<and> n \<le> 122 then Some (n - 97 + 26)
         else if 48 \<le> n \<and> n \<le> 57 then Some (n - 48 + 52)
         else if c = CHR ''+'' then Some 62
         else if c = CHR ''/'' then Some 63
         else None)"

section \<open>Encoding and decoding\<close>

fun EncodeToString :: "bytes \<Rightarrow> string" where
  "EncodeToString [] = []"
| "EncodeToString [x] =
     (let n = unat x * 65536
      in [b64_char (n div 262144), b64_char (n div 4096 mod 64), CHR ''='', CHR ''=''])"
| "EncodeToString [x, y] =
     (let n = unat x * 65536 + unat y * 256
      in [b64_char (n div 262144), b64_char (n div 4096 mod 64), b64_char (n div 64 mod 64), CHR ''=''])"
| "EncodeToString (x # y # z # bs) =
     (let n = unat x * 65536 + unat y * 256 + unat z
      in b64_char (n div 262144) # b64_char (n div 4096 mod 64) # b64_char (n div 64 mod 64) #
         b64_char (n mod 64) # EncodeToString bs)"

fun decode_quads :: "string \<Rightarrow> bytes option" where
  "decode_quads [] = Some []"
| "decode_quads (a # b # c # d # s) =
     (case (b64_val a, b64_val b) of
        (Some i, Some j) \<Rightarrow>
          if c = CHR ''='' then
            (if d = CHR ''='' \<and> s = [] then Some [of_nat ((i * 262144 + j * 4096) div 65536)] else None)
          else (case b64_val c of
                  None \<Rightarrow> None
                | Some k \<Rightarrow>
                    if d = CHR ''='' then
                      (if s = [] then Some [of_nat ((i * 262144 + j * 4096 + k * 64) div 65536),
                                            of_nat ((i * 262144 + j * 4096 + k * 64) div 256 mod 256)] else None)
                    else (case b64_val d of
                            None \<Rightarrow> None
                          | Some l \<Rightarrow>
                              let n = i * 262144 + j * 4096 + k * 64 + l
                              in map_option (\<lambda>bs. of_nat (n div 65536) # of_nat (n div 256 mod 256) # of_nat (n mod 256) # bs)
                                   (decode_quads s)))
      | _ \<Rightarrow> None)"
| "decode_quads _ = None"

definition line_break :: "char \<Rightarrow> bool" where
  "line_break c \<longleftrightarrow> c = CHR 0x0A \<or> c = CHR 0x0D"

definition DecodeString :: "string \<Rightarrow> bytes option" where
  "DecodeString s = decode_quads (filter (\<lambda>c. \<not> line_break c) s)"

definition DecodeBase64Key :: "string \<Rightarrow> bytes option" where
  "DecodeBase64Key key = (case DecodeString key of None \<Rightarrow> None | Some decoded \<Rightarrow> Some decoded)"

section \<open>Round trip\<close>

lemma b64_val_char [simp]:
  assumes "n < 64"
  shows "b64_val (b64_char n) = Some n" "b64_char n \<noteq> CHR ''=''" "\<not> line_break (b64_char n)"
proof -
  have code: "(of_char (b64_char n) :: nat) =
      (if n < 26 then 65 + n else if n < 52 then 71 + n else if n < 62 then n - 4 else if n = 62 then 43 else 47)"
    using assms by (simp add: b64_char_def)
  have "of_char (CHR ''='') = (61 :: nat)" "of_char (CHR 0x0A) = (10 :: nat)" "of_char (CHR 0x0D) = (13 :: nat)"
    by simp_all
  with code show "b64_char n \<noteq> CHR ''=''" "\<not> line_break (b64_char n)"
    using assms unfolding line_break_def by (auto split: if_splits)
  show "b64_val (b64_char n) = Some n"
    unfolding b64_val_def Let_def code using assms by (auto simp: b64_char_def)
qed

lemma sextets:
  fixes n :: nat
  shows "n div 262144 * 262144 + n div 4096 mod 64 * 4096 + n div 64 mod 64 * 64 + n mod 64 = n"
proof -
  have "n = n div 64 * 64 + n mod 64" by simp
  moreover have "n div 64 = n div 4096 * 64 + n div 64 mod 64"
    using div_mult_mod_eq [of "n div 64" 64] by (simp flip: div_mult2_eq)
  moreover have "n div 4096 = n div 262144 * 64 + n div 4096 mod 64"
    using div_mult_mod_eq [of "n div 4096" 64] by (simp flip: div_mult2_eq)
  ultimately show ?thesis by linarith
qed

lemma octets_nat:
  fixes a b c :: nat
  assumes "a < 256" and "b < 256" and "c < 256"
  shows "(a * 65536 + b * 256 + c) div 65536 = a" "(a * 65536 + b * 256 + c) div 256 mod 256 = b"
    "(a * 65536 + b * 256 + c) mod 256 = c" "a * 65536 + b * 256 + c < 16777216"
proof -
  have n: "a * 65536 + b * 256 + c = (a * 256 + b) * 256 + c" by simp
  show m: "(a * 65536 + b * 256 + c) mod 256 = c"
    unfolding n mod_mult_self3 using assms by simp
  have d: "(a * 65536 + b * 256 + c) div 256 = a * 256 + b"
    unfolding n using assms by simp
  show "(a * 65536 + b * 256 + c) div 256 mod 256 = b" unfolding d mod_mult_self3 using assms by simp
  have "(a * 65536 + b * 256 + c) div 65536 = (a * 65536 + b * 256 + c) div 256 div 256"
    by (simp flip: div_mult2_eq)
  also have "\<dots> = a" unfolding d using assms by simp
  finally show "(a * 65536 + b * 256 + c) div 65536 = a" .
  show "a * 65536 + b * 256 + c < 16777216" using assms by linarith
qed

lemma unat_u8: "unat (x :: u8) < 256"
  using unsigned_less [of x, where 'a = nat] by simp

lemmas octets = octets_nat [OF unat_u8 unat_u8 unat_u8]

lemma low_zero:
  fixes a b :: nat
  shows "a * 65536 mod 64 = 0" "a * 65536 div 64 mod 64 = 0" "(a * 65536 + b * 256) mod 64 = 0"
proof -
  have n: "a * 65536 = a * 1024 * 64" "a * 65536 + b * 256 = (a * 1024 + b * 4) * 64" "a * 1024 = a * 16 * 64" by simp_all
  show "a * 65536 mod 64 = 0" unfolding n(1) by (rule mod_mult_self2_is_0)
  show "(a * 65536 + b * 256) mod 64 = 0" unfolding n(2) by (rule mod_mult_self2_is_0)
  have "a * 65536 div 64 = a * 16 * 64" unfolding n(1) by simp
  then show "a * 65536 div 64 mod 64 = 0" by (simp only: mod_mult_self2_is_0)
qed

lemma sextet_less: "n < 16777216 \<Longrightarrow> n div 262144 < (64 :: nat)"
  by (simp add: less_mult_imp_div_less)

lemma decode_quads_Encode: "decode_quads (EncodeToString bs) = Some bs"
proof (induction bs rule: EncodeToString.induct)
  case (2 x)
  define n where "n = unat x * 65536"
  have "n div 262144 < 64" "n div 65536 = unat x"
    using octets(1,4) [of x 0 0] sextet_less [of n] by (simp_all add: n_def)
  moreover have "n div 262144 * 262144 + n div 4096 mod 64 * 4096 = n"
    using sextets [of n] low_zero(1,2) [of "unat x"] by (simp add: n_def)
  ultimately show ?case by (simp flip: n_def)
next
  case (3 x y)
  define n where "n = unat x * 65536 + unat y * 256"
  have "n div 262144 < 64" "n div 65536 = unat x" "n div 256 mod 256 = unat y"
    using octets(1,2,4) [of x y 0] sextet_less [of n] by (simp_all add: n_def)
  moreover have "n div 262144 * 262144 + n div 4096 mod 64 * 4096 + n div 64 mod 64 * 64 = n"
    using sextets [of n] low_zero(3) [of "unat x" "unat y"] by (simp add: n_def)
  ultimately show ?case by (simp flip: n_def)
next
  case (4 x y z bs)
  define n where "n = unat x * 65536 + unat y * 256 + unat z"
  have "n div 262144 < 64" "n div 65536 = unat x" "n div 256 mod 256 = unat y" "n mod 256 = unat z"
    using octets [of x y z] sextet_less [of n] by (simp_all add: n_def)
  then show ?case using 4 sextets [of n] by (simp add: Let_def flip: n_def)
qed simp

lemma Encode_no_breaks: "filter (\<lambda>c. \<not> line_break c) (EncodeToString bs) = EncodeToString bs"
proof -
  have eq: "\<not> line_break (CHR ''='')" by (simp add: line_break_def)
  show ?thesis
  proof (induction bs rule: EncodeToString.induct)
    case (2 x)
    show ?case using sextet_less [OF octets(4) [of x 0 0]] eq by (simp add: Let_def)
  next
    case (3 x y)
    show ?case using sextet_less [OF octets(4) [of x y 0]] eq by (simp add: Let_def)
  next
    case (4 x y z bs)
    then show ?case using sextet_less [OF octets(4) [of x y z]] by (simp add: Let_def)
  qed simp
qed

interpretation base64: codec EncodeToString DecodeString "\<lambda>_. True"
  by unfold_locales (simp add: DecodeString_def Encode_no_breaks decode_quads_Encode)

section \<open>Property\<close>

text \<open>
  The key a node sends with its login, base64 text of its public
  key, decodes on every other node to exactly the same bytes, also when the text was
  broken into lines on the way; two nodes with different keys send different texts.
\<close>

theorem key_text_roundtrip:
  "DecodeBase64Key (EncodeToString k) = Some k \<and>
   DecodeBase64Key (concat (map (\<lambda>c. if f c then [c, CHR 0x0A] else [c]) (EncodeToString k))) = Some k \<and>
   (EncodeToString k = EncodeToString k') = (k = k')"
proof -
  have "filter (\<lambda>c. \<not> line_break c) (concat (map (\<lambda>c. if f c then [c, CHR 0x0A] else [c]) s)) = filter (\<lambda>c. \<not> line_break c) s" for s
    by (induction s) (auto simp: line_break_def)
  then have "DecodeString (concat (map (\<lambda>c. if f c then [c, CHR 0x0A] else [c]) (EncodeToString k))) = DecodeString (EncodeToString k)"
    by (simp add: DecodeString_def)
  then show ?thesis using base64.dec_enc [of k] base64.enc_inject [of k k'] by (simp add: DecodeBase64Key_def)
qed

end
