(* ===== verification/NodeCore.thy ===== *)
theory NodeCore
  imports PeerProperties Auth Base64 "HOL-Library.AList"
begin

text \<open>
  The node (src/node/node.go, src/node/packets.go, src/node/grpcclient.go,
  src/node/stun.go, src/node/service.go, and \<open>AddPeer\<close> of src/node/peer.go): the maps
  from peer ids and overlay addresses to peers, the packet paths from the socket and
  from the tunnel to the peers, the updates of the controller, starting, stopping and
  logging in. Peers live on a heap and are named by their address in it, since both
  maps, the buffers and the running routines share them. What is outside the
  repository - the Noise, STUN and IPv4 header libraries, the resolver, the operating
  system and the controller's answers - is a parameter.
\<close>

section \<open>Parameters and state\<close>

text \<open>
  \<open>initialized\<close> says that socket and tunnel are not nil; \<open>endpoint_rpcs\<close> are the endpoints reported to the controller,
  \<open>stops\<close> the peers for which a goroutine with \<open>Stop\<close> was started and has not run yet.
\<close>

record ('hs, 'cs, 'kp) node_libs =
  noise :: "('hs, 'cs, 'kp) noise_lib"
  picks :: pick
  ip6t :: ip6_text
  ResolveUDPAddr :: "string \<Rightarrow> UDPAddr option"
  IsMessage :: "bytes \<Rightarrow> bool"
  stun_Decode :: "bytes \<Rightarrow> bool"
  XORMapped :: "bytes \<Rightarrow> string option"
  ParseHeader :: "bytes \<Rightarrow> netIP option"
  Public :: "'kp \<Rightarrow> bytes"

record ('hs, 'cs, 'kp) Node =
  heap :: "('hs, 'cs) Peer list"
  maps_id :: "(u32 \<times> nat) list"
  maps_ip :: "(Addr \<times> nat) list"
  nworld :: world
  node_id :: u32
  node_ip :: Prefix
  discoveredEndpoint :: string
  node_keyPair :: 'kp
  node_running :: bool
  loggedIn :: bool
  initialized :: bool
  machineID :: string
  node_hostname :: string
  endpoint_rpcs :: "string list"
  stops :: "nat list"

definition node_env :: "('hs, 'cs, 'kp) node_libs \<Rightarrow> ('hs, 'cs, 'kp) Node \<Rightarrow> ('hs, 'cs, 'kp) env" where
  "node_env L n = \<lparr>lib = noise L, pk = picks L, nid = node_id n, keyPair = node_keyPair n\<rparr>"

text \<open>Run an operation of the peer at address \<open>a\<close>.\<close>

definition with_peer ::
  "nat \<Rightarrow> (('hs, 'cs) pstate \<Rightarrow> ('hs, 'cs) pstate outcome) \<Rightarrow> ('hs, 'cs, 'kp) Node \<Rightarrow> ('hs, 'cs, 'kp) Node outcome" where
  "with_peer a f n =
     obind (f (heap n ! a, nworld n)) (\<lambda>(p, w). Ret (n\<lparr>heap := (heap n)[a := p], nworld := w\<rparr>))"

definition lookupPeer :: "u32 \<Rightarrow> ('hs, 'cs, 'kp) Node \<Rightarrow> nat option" where
  "lookupPeer i n = map_of (maps_id n) i"

definition drop_in :: "InboundBuffer \<Rightarrow> ('hs, 'cs, 'kp) Node \<Rightarrow> ('hs, 'cs, 'kp) Node" where
  "drop_in b n = n\<lparr>nworld := put_in b (nworld n)\<rparr>"

definition drop_out :: "OutboundBuffer \<Rightarrow> ('hs, 'cs, 'kp) Node \<Rightarrow> ('hs, 'cs, 'kp) Node" where
  "drop_out b n = n\<lparr>nworld := put_out b (nworld n)\<rparr>"

section \<open>STUN\<close>

text \<open>
  The STUN library tells its messages from others, decodes one or fails, and finds the
  mapped address in it, whose text is the endpoint.
\<close>

definition isStunMessage :: "('hs, 'cs, 'kp) node_libs \<Rightarrow> bytes \<Rightarrow> bool" where
  "isStunMessage L message = IsMessage L message"

definition decodeStunMessage :: "('hs, 'cs, 'kp) node_libs \<Rightarrow> bytes \<Rightarrow> string option" where
  "decodeStunMessage L message = (if \<not> stun_Decode L message then None else XORMapped L message)"

definition handleStunMessage ::
  "('hs, 'cs, 'kp) node_libs \<Rightarrow> bytes \<Rightarrow> ('hs, 'cs, 'kp) Node \<Rightarrow> ('hs, 'cs, 'kp) Node" where
  "handleStunMessage L message n =
     (case decodeStunMessage L message of
        None \<Rightarrow> n
      | Some natAddr \<Rightarrow>
          if discoveredEndpoint n \<noteq> natAddr
          then n\<lparr>discoveredEndpoint := natAddr, endpoint_rpcs := endpoint_rpcs n @ [natAddr]\<rparr>
          else n)"

section \<open>Packets from the network\<close>

definition OnUDPPacket ::
  "('hs, 'cs, 'kp) node_libs \<Rightarrow> InboundBuffer \<Rightarrow> ('hs, 'cs, 'kp) Node \<Rightarrow> ('hs, 'cs, 'kp) Node outcome" where
  "OnUDPPacket L buffer n =
     (let (err, h) = Parse (Some (ib_header buffer)) (sbytes (ib_in buffer));
          buffer = buffer\<lparr>ib_header := (case h of Some h \<Rightarrow> h | None \<Rightarrow> ib_header buffer)\<rparr>
      in if err \<noteq> None then
           Ret (drop_in buffer
             (if isStunMessage L (sbytes (ib_in buffer)) then handleStunMessage L (sbytes (ib_in buffer)) n else n))
         else
           let sender = SenderIndex (ib_header buffer); ty = Type (ib_header buffer)
           in if ty = MsgHandshake then
                (case lookupPeer sender n of
                   None \<Rightarrow> Ret (drop_in buffer n)
                 | Some a \<Rightarrow> with_peer a (HandshakePacket (buffer\<lparr>ib_peer := Some a\<rparr>)) n)
              else if ty = MsgData then
                (case lookupPeer sender n of
                   None \<Rightarrow> Ret (drop_in buffer n)
                 | Some a \<Rightarrow> with_peer a (\<lambda>st. Ret (InboundPacket (buffer\<lparr>ib_peer := Some a\<rparr>) st)) n)
              else Ret (drop_in buffer n))"

text \<open>
  One round of \<open>ReadUDPPackets\<close>: a datagram is copied into a pooled buffer (the
  socket fills at most its length) and dispatched. A read error returns the buffer.
\<close>

definition ReadUDPPackets_step ::
  "('hs, 'cs, 'kp) node_libs \<Rightarrow> (bytes \<times> UDPAddr) option \<Rightarrow> ('hs, 'cs, 'kp) Node \<Rightarrow> ('hs, 'cs, 'kp) Node outcome" where
  "ReadUDPPackets_step L input n =
     (let (buffer, s) = GetInboundBuffer (picks L) (pools (nworld n));
          n = n\<lparr>nworld := (nworld n)\<lparr>pools := s\<rparr>\<rparr>
      in case input of
           None \<Rightarrow> Ret (drop_in buffer n)
         | Some (datagram, from_addr) \<Rightarrow>
             let d = take (slen (ib_in buffer)) datagram
             in OnUDPPacket L (buffer\<lparr>ib_in := (ib_in buffer)\<lparr>backing := put_at 0 d (backing (ib_in buffer))\<rparr>,
                  ib_size := length d, ib_raddr := Some from_addr\<rparr>) n)"

section \<open>Packets from the tunnel\<close>

definition OnTunnelPacket ::
  "('hs, 'cs, 'kp) node_libs \<Rightarrow> OutboundBuffer \<Rightarrow> ('hs, 'cs, 'kp) Node \<Rightarrow> ('hs, 'cs, 'kp) Node outcome" where
  "OnTunnelPacket L buffer n =
     (case ParseHeader L (sbytes (ob_packet buffer)) of
        None \<Rightarrow> Ret (drop_out buffer n)
      | Some ipDst \<Rightarrow>
          if IP_Equal ipDst (AsSlice (pAddr (node_ip n))) then Ret (drop_out buffer n)
          else
            let dst = AddrFromSlice (To4 ipDst)
            in if \<not> Contains (Masked (node_ip n)) dst then Ret (drop_out buffer n)
               else case map_of (maps_ip n) dst of
                      None \<Rightarrow> Ret (drop_out buffer n)
                    | Some a \<Rightarrow> with_peer a (OutboundPacket (node_env L n) buffer) n)"

definition ReadTunPackets_step ::
  "('hs, 'cs, 'kp) node_libs \<Rightarrow> bytes option \<Rightarrow> ('hs, 'cs, 'kp) Node \<Rightarrow> ('hs, 'cs, 'kp) Node outcome" where
  "ReadTunPackets_step L input n =
     (let (buffer, w) = get_out (picks L) (nworld n); n = n\<lparr>nworld := w\<rparr>
      in case input of
           None \<Rightarrow> Ret (drop_out buffer n)
         | Some packet \<Rightarrow>
             let d = take (slen (ob_packet buffer)) packet
             in OnTunnelPacket L (buffer\<lparr>ob_packet := (ob_packet buffer)\<lparr>backing := put_at 0 d (backing (ob_packet buffer))\<rparr>,
                  ob_size := length d\<rparr>) n)"

section \<open>Peers\<close>

text \<open>
  \<open>AddPeer\<close> allocates a peer and enters it in both maps, over any peer that was
  there. It returns no address when a field of the message does not parse.
\<close>

definition AddPeer ::
  "('hs, 'cs, 'kp) node_libs \<Rightarrow> pb_Peer \<Rightarrow> ('hs, 'cs, 'kp) Node \<Rightarrow> nat option \<times> ('hs, 'cs, 'kp) Node" where
  "AddPeer L info n =
     (case ParseAddr (ip6t L) (pb_Ip info) of
        (_, False) \<Rightarrow> (None, n)
      | (ip, True) \<Rightarrow>
          (case DecodeBase64Key (pb_PublicKey info) of
             None \<Rightarrow> (None, n)
           | Some key \<Rightarrow>
               (case ResolveUDPAddr L (pb_Endpoint info) of
                  None \<Rightarrow> (None, n)
                | Some ra \<Rightarrow>
                    let peer = NewPeer\<lparr>peerID := pb_Id info, peerIP := ip, pubkey := key,
                          Hostname := pb_Hostname info, raddr := Some ra\<rparr>;
                        a = length (heap n)
                    in (Some a, n\<lparr>heap := heap n @ [peer],
                          maps_id := AList.update (pb_Id info) a (maps_id n),
                          maps_ip := AList.update ip a (maps_ip n)\<rparr>))))"

definition start_peer :: "nat \<Rightarrow> ('hs, 'cs, 'kp) Node \<Rightarrow> (bool \<times> ('hs, 'cs, 'kp) Node) outcome" where
  "start_peer a n =
     obind (peer_Start (heap n ! a)) (\<lambda>(ok, p). Ret (ok, n\<lparr>heap := (heap n)[a := p]\<rparr>))"

text \<open>
  A goroutine that runs \<open>Stop\<close>. When it waits for ever, its reset has taken place and the nil values
  are sent: a routine that waited for its channel has ended, and the nil for a routine that holds a
  packet, or has ended before, stays in the channel. On a peer whose \<open>Stop\<close> already waits, it waits for the mutex.
\<close>

fun left_behind :: "'b routine \<Rightarrow> 'b routine \<times> 'b option list" where
  "left_behind Idle = (Exited, [])"
| "left_behind Exited = (Exited, [None])"
| "left_behind (Holding b) = (Holding b, [None])"

definition stop_goroutine :: "('hs, 'cs) pstate \<Rightarrow> ('hs, 'cs) pstate outcome" where
  "stop_goroutine st =
     (case peer_Stop st of
        Ret st' \<Rightarrow> Ret st'
      | Panic m \<Rightarrow> Panic m
      | Block \<Rightarrow>
          if stopping (fst st) then Ret st
          else obind (ResetState ((fst st)\<lparr>running := False\<rparr>, snd st)) (\<lambda>(p, w).
               let (hr, hq) = left_behind (hsRoutine p); (ir, iq) = left_behind (inRoutine p);
                   (outr, oq) = left_behind (outRoutine p)
               in Ret (p\<lparr>handshakes := hq, inbound := iq, outbound := oq,
                         hsRoutine := hr, inRoutine := ir, outRoutine := outr\<rparr>, w)))"

text \<open>\<open>StopAllPeers\<close> starts one goroutine for each known peer and does not wait for it;
  \<open>run_stop\<close> is the run of such a goroutine, at any later time.\<close>

definition StopAllPeers :: "('hs, 'cs, 'kp) Node \<Rightarrow> ('hs, 'cs, 'kp) Node" where
  "StopAllPeers n = n\<lparr>stops := stops n @ map snd (maps_id n)\<rparr>"

definition run_stop :: "nat \<Rightarrow> ('hs, 'cs, 'kp) Node \<Rightarrow> ('hs, 'cs, 'kp) Node outcome" where
  "run_stop a n =
     (if a \<in> set (stops n) then with_peer a stop_goroutine (n\<lparr>stops := remove1 a (stops n)\<rparr>) else Ret n)"

definition addrport_String :: "ip6_text \<Rightarrow> AddrPort \<Rightarrow> string" where
  "addrport_String ip6 ap =
     (case apAddr ap of
        Addr6 v z \<Rightarrow> CHR ''['' # addr_String ip6 (apAddr ap) @ '']:'' @ dec_string (unat (apPort ap))
      | _ \<Rightarrow> addr_String ip6 (apAddr ap) @ CHR '':'' # dec_string (unat (apPort ap)))"

definition zero_AddrPort :: AddrPort where "zero_AddrPort = \<lparr>apAddr = NoAddr, apPort = 0\<rparr>"

text \<open>
  \<open>Peer.Update\<close>; the Boolean is whether it returned without an error. It waits while a \<open>Stop\<close>
  holds the mutex of the peer.
\<close>

definition peer_Update ::
  "('hs, 'cs, 'kp) node_libs \<Rightarrow> pb_Peer \<Rightarrow> ('hs, 'cs) pstate \<Rightarrow> (bool \<times> ('hs, 'cs) pstate) outcome" where
  "peer_Update L info st =
     (case st of (p, w) \<Rightarrow>
        if stopping p then Block else
        let currentEndpoint = (case raddr p of None \<Rightarrow> zero_AddrPort | Some u \<Rightarrow> udp_AddrPort u);
            currentKey = pubkey p; currentHostname = Hostname p; currentIP = peerIP p
        in case ParseAddrPort (ip6t L) (pb_Endpoint info) of
             (_, False) \<Rightarrow> Ret (False, (p, w))
           | (newEndpoint, True) \<Rightarrow>
               let p = (if CompareAddrPort currentEndpoint newEndpoint \<noteq> 0
                        then (case ResolveUDPAddr L (addrport_String (ip6t L) newEndpoint) of
                                None \<Rightarrow> p | Some r \<Rightarrow> p\<lparr>raddr := Some r\<rparr>)
                        else p);
                   p = (if currentHostname \<noteq> pb_Hostname info then p\<lparr>Hostname := pb_Hostname info\<rparr> else p)
               in obind
                    (case DecodeBase64Key (pb_PublicKey info) of
                       None \<Rightarrow> Ret (p, w)
                     | Some newKey \<Rightarrow>
                         if currentKey \<noteq> newKey then
                           obind (peer_Stop (p, w)) (\<lambda>(p, w).
                           obind (peer_Start (p\<lparr>pubkey := newKey\<rparr>)) (\<lambda>(ok, p).
                           if ok then Ret (p, w) else Panic ''peer already running''))
                         else Ret (p, w)) (\<lambda>(p, w).
                  let newIP = fst (ParseAddr (ip6t L) (pb_Ip info))
                  in Ret (True, (if Compare currentIP newIP \<noteq> 0 then p\<lparr>peerIP := newIP\<rparr> else p, w))))"

section \<open>Updates from the controller\<close>

fun handleInitialSync ::
  "('hs, 'cs, 'kp) node_libs \<Rightarrow> pb_Peer list \<Rightarrow> ('hs, 'cs, 'kp) Node \<Rightarrow> ('hs, 'cs, 'kp) Node outcome" where
  "handleInitialSync L [] n = Ret n"
| "handleInitialSync L (peer # ps) n =
     (case AddPeer L peer n of
        (None, _) \<Rightarrow> Panic ''adding peer failed''
      | (Some a, n) \<Rightarrow>
          obind (start_peer a n) (\<lambda>(ok, n).
          if ok then handleInitialSync L ps n else Panic ''peer already running''))"

definition handlePeerConnectUpdate ::
  "('hs, 'cs, 'kp) node_libs \<Rightarrow> pb_UpdateResponse \<Rightarrow> ('hs, 'cs, 'kp) Node \<Rightarrow> ('hs, 'cs, 'kp) Node outcome" where
  "handlePeerConnectUpdate L update n =
     (case ur_PeerList update of
        None \<Rightarrow> nil_deref
      | Some l \<Rightarrow>
          if pl_Count l < 1 then Ret n
          else if ur_UpdateType update \<noteq> CONNECT then Ret n
          else case pl_Peers l of
                 [] \<Rightarrow> Panic ''index out of range''
               | rp # _ \<Rightarrow>
                   (case map_of (maps_id n) (pb_Id rp) of
                      None \<Rightarrow>
                        (case AddPeer L rp n of
                           (None, n) \<Rightarrow> Ret n
                         | (Some a, n) \<Rightarrow>
                             obind (start_peer a n) (\<lambda>(ok, n).
                             if ok then Ret n else Panic ''peer already running''))
                    | Some a \<Rightarrow>
                        obind (peer_Update L rp (heap n ! a, nworld n)) (\<lambda>(ok, p, w).
                        if ok then Ret (n\<lparr>heap := (heap n)[a := p], nworld := w\<rparr>)
                        else Panic ''updating peer failed'')))"

definition punch_message :: "u32 \<Rightarrow> bytes" where
  "punch_message i =
     (case Encode (Some NewHeader) (make_slice 16) MsgPunch i 0 of
        Inl _ \<Rightarrow> [] | Inr (s, _) \<Rightarrow> sbytes s)"

definition handlePeerPunchRequest ::
  "('hs, 'cs, 'kp) node_libs \<Rightarrow> pb_UpdateResponse \<Rightarrow> ('hs, 'cs, 'kp) Node \<Rightarrow> ('hs, 'cs, 'kp) Node" where
  "handlePeerPunchRequest L update n =
     (case ResolveUDPAddr L (ur_PunchEndpoint update) of
        None \<Rightarrow> n
      | Some ua \<Rightarrow> n\<lparr>nworld := send_udp (punch_message (node_id n)) (Some ua) (nworld n)\<rparr>)"

text \<open>\<open>Stop\<close> reports an error (\<open>False\<close>) when the node is not running. It does not wait for its peers.\<close>

definition node_Stop :: "('hs, 'cs, 'kp) Node \<Rightarrow> bool \<times> ('hs, 'cs, 'kp) Node" where
  "node_Stop n =
     (if \<not> initialized n then (False, n)
      else if \<not> node_running n then (False, n)
      else (True, (StopAllPeers n)\<lparr>node_running := False\<rparr>))"

definition handleLogout :: "('hs, 'cs, 'kp) Node \<Rightarrow> ('hs, 'cs, 'kp) Node" where
  "handleLogout n = (snd (node_Stop n))\<lparr>loggedIn := False\<rparr>"

definition HandleUpdate ::
  "('hs, 'cs, 'kp) node_libs \<Rightarrow> pb_UpdateResponse \<Rightarrow> ('hs, 'cs, 'kp) Node \<Rightarrow> ('hs, 'cs, 'kp) Node outcome" where
  "HandleUpdate L update n =
     (case ur_UpdateType update of
        INIT \<Rightarrow> (case ur_PeerList update of None \<Rightarrow> nil_deref | Some l \<Rightarrow> handleInitialSync L (pl_Peers l) n)
      | CONNECT \<Rightarrow> handlePeerConnectUpdate L update n
      | DISCONNECT \<Rightarrow> Ret n
      | PUNCH \<Rightarrow> Ret (handlePeerPunchRequest L update n)
      | LOGOUT \<Rightarrow> Ret (handleLogout n))"

section \<open>Starting\<close>

text \<open>
  The answers of the operating system, of the resolver and of the controller while a
  node starts: the address of the STUN server, the request that the STUN library
  builds, and the first message of the update stream, \<open>None\<close> where opening the stream
  or receiving fails.
\<close>

record start_io =
  new_conn :: bool
  new_tun :: bool
  configure_ip :: "Prefix \<Rightarrow> bool"
  stun_server :: "UDPAddr option"
  binding_request :: bytes
  first_update :: "pb_UpdateResponse option"

text \<open>The error of the write is dropped; only an unresolved server is reported.\<close>

definition sendStunRequest :: "start_io \<Rightarrow> ('hs, 'cs, 'kp) Node \<Rightarrow> bool \<times> ('hs, 'cs, 'kp) Node" where
  "sendStunRequest io n =
     (case stun_server io of
        None \<Rightarrow> (False, n)
      | Some a \<Rightarrow> (True, n\<lparr>nworld := send_udp (binding_request io) (Some a) (nworld n)\<rparr>))"

text \<open>One wake-up of \<open>stunRoutine\<close>: the context was cancelled, or the ticker fired.\<close>

definition stunRoutine_tick :: "bool \<Rightarrow> start_io \<Rightarrow> ('hs, 'cs, 'kp) Node \<Rightarrow> ('hs, 'cs, 'kp) Node" where
  "stunRoutine_tick ctx_done io n = (if ctx_done then n else snd (sendStunRequest io n))"

text \<open>
  \<open>StartUpdateStream\<close> handles the first message itself and leaves the others to a
  goroutine, \<open>receive_loop\<close>. An entry of its input is whether the context is cancelled
  when the loop looks at it and what \<open>Recv\<close> then returns; at the end of the input
  \<open>Recv\<close> is waiting. The Boolean of the result is whether the goroutine has returned.
\<close>

definition StartUpdateStream ::
  "('hs, 'cs, 'kp) node_libs \<Rightarrow> pb_UpdateResponse option \<Rightarrow> ('hs, 'cs, 'kp) Node \<Rightarrow> ('hs, 'cs, 'kp) Node outcome" where
  "StartUpdateStream L first n =
     (case first of None \<Rightarrow> Panic ''fatal'' | Some response \<Rightarrow> HandleUpdate L response n)"

datatype recv = Received pb_UpdateResponse | RecvEOF | RecvError

fun receive_loop ::
  "('hs, 'cs, 'kp) node_libs \<Rightarrow> (bool \<times> recv) list \<Rightarrow> ('hs, 'cs, 'kp) Node \<Rightarrow> (bool \<times> ('hs, 'cs, 'kp) Node) outcome" where
  "receive_loop L [] n = Ret (False, n)"
| "receive_loop L ((ctx_done, r) # rs) n =
     (if ctx_done then Ret (True, n)
      else case r of
             RecvEOF \<Rightarrow> Ret (True, n)
           | RecvError \<Rightarrow> Ret (True, n)
           | Received response \<Rightarrow> obind (HandleUpdate L response n) (receive_loop L rs))"

text \<open>
  \<open>early\<close> are the updates that this goroutine handles while \<open>Run\<close> has not yet stored the running flag.
\<close>

definition node_Run ::
  "('hs, 'cs, 'kp) node_libs \<Rightarrow> start_io \<Rightarrow> pb_UpdateResponse list \<Rightarrow> ('hs, 'cs, 'kp) Node \<Rightarrow>
     (bool \<times> ('hs, 'cs, 'kp) Node) outcome" where
  "node_Run L io early n =
     (if \<not> initialized n then Ret (False, n)
      else if \<not> configure_ip io (node_ip n) then Ret (False, n)
      else let (ok, n) = sendStunRequest io n
           in if \<not> ok then Ret (False, n)
              else obind (StartUpdateStream L (first_update io) n) (\<lambda>n.
                   obind (run_events (HandleUpdate L) early n) (\<lambda>n.
                   Ret (True, n\<lparr>node_running := True\<rparr>))))"

text \<open>A failed \<open>NewConn\<close> or \<open>NewTun\<close> leaves nil behind, whatever was there before.\<close>

definition node_Start ::
  "('hs, 'cs, 'kp) node_libs \<Rightarrow> start_io \<Rightarrow> pb_UpdateResponse list \<Rightarrow> ('hs, 'cs, 'kp) Node \<Rightarrow>
     (bool \<times> ('hs, 'cs, 'kp) Node) outcome" where
  "node_Start L io early n =
     (if \<not> loggedIn n then Ret (False, n)
      else if node_running n then Ret (False, n)
      else if \<not> new_conn io then Ret (False, n\<lparr>initialized := False\<rparr>)
      else if \<not> new_tun io then Ret (False, n\<lparr>initialized := False\<rparr>)
      else node_Run L io early (n\<lparr>initialized := True\<rparr>))"

section \<open>Logging in\<close>

text \<open>The controller's answer: a configuration, a gRPC status (\<open>None\<close>: a code that the
  controller's own code does not use), or an error that is not a status.\<close>

datatype login_reply = LoginReply pb_PeerConfig | LoginStatus "code option" | LoginOtherError

datatype login_result = LoginSuccessful | NeedAccessToken pb_PKCEAuthInfo | LoginError

definition login_request ::
  "('hs, 'cs, 'kp) node_libs \<Rightarrow> string \<Rightarrow> ('hs, 'cs, 'kp) Node \<Rightarrow> pb_LoginPeerRequest" where
  "login_request L token n =
     \<lparr>lr_MachineId = machineID n, lr_PublicKey = EncodeToString (Public L (node_keyPair n)),
      lr_Hostname = node_hostname n, lr_Endpoint = discoveredEndpoint n, lr_AccessToken = token\<rparr>"

definition use_config ::
  "('hs, 'cs, 'kp) node_libs \<Rightarrow> pb_PeerConfig \<Rightarrow> ('hs, 'cs, 'kp) Node \<Rightarrow> (login_result \<times> ('hs, 'cs, 'kp) Node) outcome" where
  "use_config L cfg n =
     (let p = split_char (CHR ''/'') (pc_Prefix cfg)
      in if length p < 2 then Panic ''index out of range''
         else case netip_ParsePrefix (ip6t L) (pc_TunnelIp cfg @ CHR ''/'' # p ! 1) of
                None \<Rightarrow> Panic ''netip.ParsePrefix''
              | Some ip \<Rightarrow> Ret (LoginSuccessful, n\<lparr>node_id := pc_PeerId cfg, node_ip := ip, loggedIn := True\<rparr>))"

definition node_Login ::
  "('hs, 'cs, 'kp) node_libs \<Rightarrow> login_reply \<Rightarrow> pb_PKCEAuthInfo option \<Rightarrow> ('hs, 'cs, 'kp) Node \<Rightarrow>
     (login_result \<times> ('hs, 'cs, 'kp) Node) outcome" where
  "node_Login L reply pkce n =
     (case reply of
        LoginReply cfg \<Rightarrow> use_config L cfg n
      | LoginStatus c \<Rightarrow>
          if c = Some Unauthenticated then
            Ret (case pkce of None \<Rightarrow> LoginError | Some info \<Rightarrow> NeedAccessToken info, n)
          else nil_deref
      | LoginOtherError \<Rightarrow> Ret (LoginError, n))"

text \<open>\<open>Up\<close> with the updates that arrive while the node starts; \<open>Up\<close> when there are none.\<close>

definition Up_during ::
  "('hs, 'cs, 'kp) node_libs \<Rightarrow> start_io \<Rightarrow> pb_UpdateResponse list \<Rightarrow> ('hs, 'cs, 'kp) Node \<Rightarrow>
     (string option \<times> ('hs, 'cs, 'kp) Node) outcome" where
  "Up_during L io early n =
     obind (node_Start L io early n) (\<lambda>(ok, n). Ret (if ok then Some ''node is running'' else None, n))"

definition Up ::
  "('hs, 'cs, 'kp) node_libs \<Rightarrow> start_io \<Rightarrow> ('hs, 'cs, 'kp) Node \<Rightarrow> (string option \<times> ('hs, 'cs, 'kp) Node) outcome" where
  "Up L io n = Up_during L io [] n"

definition Down :: "('hs, 'cs, 'kp) Node \<Rightarrow> string option \<times> ('hs, 'cs, 'kp) Node" where
  "Down n = (if fst (node_Stop n) then Some ''node is stopped'' else None, snd (node_Stop n))"

end
