(* ===== verification/NodeProperties.thy ===== *)
theory NodeProperties
  imports NodeCore
begin

text \<open>
  Properties of the node: which datagrams and tunnel packets reach which peer, what
  the maps promise, what a change of a peer's key or address does, and when stopping
  the node or logging in crashes it.
\<close>

section \<open>Received buffers\<close>

definition filled_in :: "InboundBuffer \<Rightarrow> bytes \<Rightarrow> UDPAddr \<Rightarrow> InboundBuffer" where
  "filled_in b d a = b\<lparr>ib_in := (ib_in b)\<lparr>backing := put_at 0 d (backing (ib_in b))\<rparr>,
     ib_size := length d, ib_raddr := Some a\<rparr>"

lemma filled_in_bytes:
  assumes "clean_in b" and "length d \<le> BufferSize"
  shows "backing (ib_in (filled_in b d a)) = d @ replicate (BufferSize - length d) 0"
    "sbytes (ib_in (filled_in b d a)) = d @ replicate (BufferSize - length d) 0"
    "shape_in (filled_in b d a)"
  using assms
  by (simp_all add: filled_in_def clean_in_def make_slice_def sbytes_def put_at_def shape_in_def full_slice_def scap_def)

lemma filled_in_ok: "clean_in b \<Longrightarrow> length d \<le> BufferSize \<Longrightarrow> HeaderLen \<le> length d \<Longrightarrow> in_ok (filled_in b d a)"
  using filled_in_bytes(3) [of b d a] by (simp add: in_ok_def) (simp add: filled_in_def)

text \<open>What the padding of a clean buffer can never contain: the end of a header.\<close>

definition framed :: "bytes \<Rightarrow> bool" where
  "framed d \<longleftrightarrow> HeaderLen \<le> length d \<and> d ! 0 = HeaderVersion \<and> d ! 14 = 0xfe \<and> d ! 15 = 0xed"

lemma header_at_append: "HeaderLen \<le> length d \<Longrightarrow> header_at (d @ xs) = header_at d"
  by (cases d; cases "tl d") (auto simp: header_at_def nth_append HeaderLen_def)

lemma Parse_filled:
  assumes "length d \<le> BufferSize"
  shows "fst (Parse (Some h) (d @ replicate (BufferSize - length d) 0)) = None \<longleftrightarrow> framed d"
    and "framed d \<Longrightarrow> snd (Parse (Some h) (d @ replicate (BufferSize - length d) 0)) = Some (header_at d)"
proof -
  let ?b = "d @ replicate (BufferSize - length d) (0 :: u8)"
  have len: "length ?b = BufferSize" using assms by simp
  have "?b ! 15 = 0xed \<Longrightarrow> HeaderLen \<le> length d"
    using assms by (auto simp: nth_append BufferSize_def HeaderLen_def split: if_splits)
  then show iff: "fst (Parse (Some h) ?b) = None \<longleftrightarrow> framed d"
    unfolding Parse_accepts framed_def using len
    by (auto simp: nth_append HeaderLen_def BufferSize_def split: if_splits)
  show "framed d \<Longrightarrow> snd (Parse (Some h) ?b) = Some (header_at d)"
    using Parse_accepts_result [of h ?b] iff header_at_append [of d] by (simp add: framed_def)
qed

lemma world_ok_get_in:
  assumes "world_ok w"
  shows "clean_in (fst (GetInboundBuffer c (pools w)))"
    "world_ok (w\<lparr>pools := snd (GetInboundBuffer c (pools w))\<rparr>)"
  using assms pool_event_clean [of "pools w" GetIn c]
    inpool.get_clean [of "pools w" c, OF _ prod.collapse [symmetric]]
  by (simp_all add: world_ok_def pools_clean_def)

lemma ReadUDPPackets_filled:
  "ReadUDPPackets_step L (Some (datagram, a)) n =
     (let g = GetInboundBuffer (picks L) (pools (nworld n))
      in OnUDPPacket L (filled_in (fst g) (take (slen (ib_in (fst g))) datagram) a)
           (n\<lparr>nworld := (nworld n)\<lparr>pools := snd g\<rparr>\<rparr>))"
  by (simp add: ReadUDPPackets_step_def filled_in_def Let_def case_prod_beta)

lemma drop_in_effect:
  "heap (drop_in b n) = heap n" "maps_id (drop_in b n) = maps_id n"
  "udp_out (nworld (drop_in b n)) = udp_out (nworld n)" "tun_out (nworld (drop_in b n)) = tun_out (nworld n)"
  "IBuffersInUse (pools (nworld (drop_in b n))) = IBuffersInUse (pools (nworld n)) - 1"
  by (simp_all add: drop_in_def) (simp add: put_in_def inpool.put_used)

lemma handleStunMessage_effect:
  "heap (handleStunMessage L m n) = heap n" "nworld (handleStunMessage L m n) = nworld n"
  "maps_id (handleStunMessage L m n) = maps_id n"
  by (simp_all add: handleStunMessage_def split: option.split)

section \<open>Dispatching datagrams\<close>

definition delivered :: "bytes \<Rightarrow> UDPAddr \<Rightarrow> InboundBuffer \<Rightarrow> bool" where
  "delivered d a b \<longleftrightarrow> in_ok b \<and> take (ib_size b) (backing (ib_in b)) = d \<and> ib_raddr b = Some a \<and>
     ib_header b = header_at d"

text \<open>The peer a datagram is for, if any.\<close>

definition udp_target :: "bytes \<Rightarrow> ('hs, 'cs, 'kp) Node \<Rightarrow> nat option" where
  "udp_target d n =
     (if framed d \<and> (Type (header_at d) = MsgHandshake \<or> Type (header_at d) = MsgData)
      then lookupPeer (SenderIndex (header_at d)) n else None)"

lemma ReadUDPPackets_dispatch:
  assumes "world_ok (nworld n)"
  shows "case udp_target (take BufferSize datagram) n of
     None \<Rightarrow> (\<exists>n'. ReadUDPPackets_step L (Some (datagram, a)) n = Ret n' \<and> heap n' = heap n \<and>
        udp_out (nworld n') = udp_out (nworld n) \<and> tun_out (nworld n') = tun_out (nworld n) \<and>
        IBuffersInUse (pools (nworld n')) = IBuffersInUse (pools (nworld n)) \<and> world_ok (nworld n'))
   | Some t \<Rightarrow> (\<exists>b w. delivered (take BufferSize datagram) a b \<and> world_ok w \<and>
        udp_out w = udp_out (nworld n) \<and> tun_out w = tun_out (nworld n) \<and>
        ReadUDPPackets_step L (Some (datagram, a)) n =
          with_peer t (\<lambda>st. if Type (ib_header b) = MsgHandshake then HandshakePacket b st else Ret (InboundPacket b st))
            (n\<lparr>nworld := w\<rparr>))"
proof -
  define g where "g = GetInboundBuffer (picks L) (pools (nworld n))"
  define w where "w = (nworld n)\<lparr>pools := snd g\<rparr>"
  define d where "d = take BufferSize datagram"
  define b where "b = filled_in (fst g) d a"
  have clean: "clean_in (fst g)" and wok: "world_ok w"
    using world_ok_get_in [OF assms, of "picks L"] by (simp_all add: g_def w_def)
  have used: "IBuffersInUse (pools w) = IBuffersInUse (pools (nworld n)) + 1"
    using inpool.get_used [OF prod.collapse [symmetric], of "picks L" "pools (nworld n)"] by (simp add: w_def g_def)
  have len: "length d \<le> BufferSize" by (simp add: d_def)
  have sl: "slen (ib_in (fst g)) = BufferSize" using clean by (simp add: clean_in_def make_slice_def)
  have step: "ReadUDPPackets_step L (Some (datagram, a)) n = OnUDPPacket L b (n\<lparr>nworld := w\<rparr>)"
    unfolding ReadUDPPackets_filled by (simp add: Let_def sl b_def w_def d_def flip: g_def)
  note bytes = filled_in_bytes [OF clean len, of a, folded b_def]
  note pf = Parse_filled [OF len, of "ib_header b", folded bytes(2)]
  have drop: "\<exists>n'. r = Ret n' \<and> heap n' = heap n \<and> udp_out (nworld n') = udp_out (nworld n) \<and>
      tun_out (nworld n') = tun_out (nworld n) \<and>
      IBuffersInUse (pools (nworld n')) = IBuffersInUse (pools (nworld n)) \<and> world_ok (nworld n')"
    if "r = Ret (drop_in (b\<lparr>ib_header := h\<rparr>) m)" "heap m = heap n" "nworld m = w" for r h m
  proof -
    have "shape_in (b\<lparr>ib_header := h\<rparr>)" using bytes(3) by (simp add: shape_in_def)
    then show ?thesis using that world_ok_put_in [OF wok] used drop_in_effect [of "b\<lparr>ib_header := h\<rparr>" m]
      by (simp add: drop_in_def) (simp add: w_def)
  qed
  show ?thesis
  proof (cases "framed d")
    case False
    then have t: "udp_target d n = None" by (simp add: udp_target_def)
    let ?m = "if isStunMessage L (sbytes (ib_in b)) then handleStunMessage L (sbytes (ib_in b)) (n\<lparr>nworld := w\<rparr>)
      else n\<lparr>nworld := w\<rparr>"
    let ?h = "case snd (Parse (Some (ib_header b)) (sbytes (ib_in b))) of Some h \<Rightarrow> h | None \<Rightarrow> ib_header b"
    have "fst (Parse (Some (ib_header b)) (sbytes (ib_in b))) \<noteq> None" using False pf(1) by simp
    then have o: "OnUDPPacket L b (n\<lparr>nworld := w\<rparr>) = Ret (drop_in (b\<lparr>ib_header := ?h\<rparr>) ?m)"
      by (simp add: OnUDPPacket_def Let_def case_prod_beta)
    have "heap ?m = heap n" "nworld ?m = w" by (auto simp: handleStunMessage_effect)
    from drop [OF o this] t step show ?thesis by (simp add: d_def)
  next
    case True
    define b' where "b' = b\<lparr>ib_header := header_at d\<rparr>"
    have hd: "b\<lparr>ib_header := case snd (Parse (Some (ib_header b)) (sbytes (ib_in b))) of Some h \<Rightarrow> h | None \<Rightarrow> ib_header b\<rparr> = b'"
      unfolding pf(2) [OF True] option.case b'_def ..
    have ib: "ib_header b' = header_at d" "ib_in b' = ib_in b" by (simp_all add: b'_def)
    have on: "OnUDPPacket L b (n\<lparr>nworld := w\<rparr>) =
       (if Type (header_at d) = MsgHandshake then
          (case lookupPeer (SenderIndex (header_at d)) n of None \<Rightarrow> Ret (drop_in b' (n\<lparr>nworld := w\<rparr>))
           | Some t \<Rightarrow> with_peer t (HandshakePacket (b'\<lparr>ib_peer := Some t\<rparr>)) (n\<lparr>nworld := w\<rparr>))
        else if Type (header_at d) = MsgData then
          (case lookupPeer (SenderIndex (header_at d)) n of None \<Rightarrow> Ret (drop_in b' (n\<lparr>nworld := w\<rparr>))
           | Some t \<Rightarrow> with_peer t (\<lambda>st. Ret (InboundPacket (b'\<lparr>ib_peer := Some t\<rparr>) st)) (n\<lparr>nworld := w\<rparr>))
        else Ret (drop_in b' (n\<lparr>nworld := w\<rparr>)))"
      unfolding OnUDPPacket_def Let_def case_prod_beta hd ib using True pf(1) by (simp add: lookupPeer_def)
    show ?thesis
    proof (cases "udp_target d n")
      case None
      then have "OnUDPPacket L b (n\<lparr>nworld := w\<rparr>) = Ret (drop_in b' (n\<lparr>nworld := w\<rparr>))"
        using True unfolding on by (auto simp: udp_target_def split: if_splits)
      with drop [of _ "header_at d" "n\<lparr>nworld := w\<rparr>"] None step show ?thesis by (simp add: d_def b'_def)
    next
      case (Some t)
      have "delivered d a (b'\<lparr>ib_peer := Some t\<rparr>)"
        using filled_in_ok [OF clean len, of a] True bytes(1)
        by (simp add: delivered_def b'_def framed_def in_ok_def shape_in_def flip: b_def) (simp add: b_def filled_in_def)
      moreover have "OnUDPPacket L b (n\<lparr>nworld := w\<rparr>) = with_peer t (\<lambda>st. if Type (ib_header (b'\<lparr>ib_peer := Some t\<rparr>)) = MsgHandshake
          then HandshakePacket (b'\<lparr>ib_peer := Some t\<rparr>) st else Ret (InboundPacket (b'\<lparr>ib_peer := Some t\<rparr>) st)) (n\<lparr>nworld := w\<rparr>)"
        using Some unfolding on by (auto simp: udp_target_def b'_def message_types split: if_splits)
      moreover have "udp_out w = udp_out (nworld n)" "tun_out w = tun_out (nworld n)" by (simp_all add: w_def)
      ultimately show ?thesis
        unfolding d_def [symmetric] Some option.case step
        using wok by (intro exI [of _ "b'\<lparr>ib_peer := Some t\<rparr>"] exI [of _ w]) blast
    qed
  qed
qed

text \<open>
  C11 (functional). What one received datagram does. It reaches a peer only if it is
  at least 16 bytes long, has the version and the padding of a header, is a handshake or
  a data message and its sender is known; then it is handed to exactly that peer, in
  a buffer that holds exactly the (possibly truncated) datagram, its sender and its
  header. Every other datagram, in particular every shorter one, is dropped:
  the buffer returns to the pool, and no peer, socket or tunnel sees it. The bytes a pooled
  buffer held before never matter.
\<close>

theorem datagram_dispatch:
  assumes "world_ok (nworld n)"
  shows "case udp_target (take BufferSize datagram) n of
     None \<Rightarrow> (\<exists>n'. ReadUDPPackets_step L (Some (datagram, a)) n = Ret n' \<and> heap n' = heap n \<and>
        udp_out (nworld n') = udp_out (nworld n) \<and> tun_out (nworld n') = tun_out (nworld n) \<and>
        IBuffersInUse (pools (nworld n')) = IBuffersInUse (pools (nworld n)) \<and> world_ok (nworld n'))
   | Some t \<Rightarrow> (\<exists>b w. delivered (take BufferSize datagram) a b \<and> world_ok w \<and>
        udp_out w = udp_out (nworld n) \<and> tun_out w = tun_out (nworld n) \<and>
        ReadUDPPackets_step L (Some (datagram, a)) n =
          with_peer t (\<lambda>st. if Type (ib_header b) = MsgHandshake then HandshakePacket b st else Ret (InboundPacket b st))
            (n\<lparr>nworld := w\<rparr>))"
  using ReadUDPPackets_dispatch [OF assms] .

text \<open>A handshake message of eight bytes too few for peer 9, and a full one.\<close>

definition toy_libs :: "(bool \<times> nat, u64, unit) node_libs" where
  "toy_libs = \<lparr>noise = toy_noise, picks = \<lparr>pick_in = (\<lambda>_. None), pick_out = (\<lambda>_. None)\<rparr>,
     ip6t = \<lparr>parse6 = (\<lambda>_. None), string6 = (\<lambda>_ _. [])\<rparr>, ResolveUDPAddr = (\<lambda>_. Some (udp_addr 3)),
     IsMessage = (\<lambda>_. False), stun_Decode = (\<lambda>_. False), XORMapped = (\<lambda>_. None),
     ParseHeader = (\<lambda>b. Some (take 4 (drop 16 b))), Public = (\<lambda>_. [])\<rparr>"

definition toy_node :: "(bool \<times> nat, u64, unit) Node" where
  "toy_node = \<lparr>heap = [fst toy_state], maps_id = [(9, 0)], maps_ip = [(Addr4 1, 0)], nworld = quiet_world, node_id = 5,
     node_ip = \<lparr>pAddr = Addr4 0, pBits = 24\<rparr>, discoveredEndpoint = [], node_keyPair = (), node_running = True,
     loggedIn = True, initialized = True, machineID = [], node_hostname = [], endpoint_rpcs = [], stops = []\<rparr>"

theorem datagram_dispatch_witness:
  "world_ok (nworld toy_node) \<and>
   (\<exists>n'. ReadUDPPackets_step toy_libs (Some ([1, 1, 0, 0, 0, 9, 0, 0], udp_addr 7)) toy_node = Ret n' \<and>
     heap n' = heap toy_node)"
proof -
  have w: "world_ok (nworld toy_node)" by (simp add: toy_node_def quiet_world_ok)
  have "udp_target (take BufferSize [1, 1, 0, 0, 0, 9, 0, 0]) toy_node = None"
    by (simp add: udp_target_def framed_def HeaderLen_def)
  with datagram_dispatch [OF w, where datagram = "[1, 1, 0, 0, 0, 9, 0, 0]" and L = toy_libs and a = "udp_addr 7"] w show ?thesis
    by auto
qed

section \<open>Routing packets from the tunnel\<close>

text \<open>The peer a packet from the tunnel is for: its destination is in the overlay network, is
  not the node's own address, and belongs to a known peer.\<close>

definition tun_target :: "('hs, 'cs, 'kp) node_libs \<Rightarrow> bytes \<Rightarrow> ('hs, 'cs, 'kp) Node \<Rightarrow> nat option" where
  "tun_target L packet n =
     (case ParseHeader L packet of
        None \<Rightarrow> None
      | Some dst \<Rightarrow>
          if AddrFromSlice (To4 dst) \<noteq> pAddr (node_ip n) \<and> Contains (Masked (node_ip n)) (AddrFromSlice (To4 dst))
          then map_of (maps_ip n) (AddrFromSlice (To4 dst)) else None)"

lemma To4_cases: "length (To4 ip) = 4 \<or> To4 ip = []"
  by (auto simp: To4_def)

text \<open>
  The node's test for its own address compares \<open>net.IP\<close> values, the lookup uses
  \<open>netip.Addr\<close>; for an IPv4 node they agree.
\<close>

lemma own_address_test:
  assumes "pAddr (node_ip n) = Addr4 v" and "Contains (Masked (node_ip n)) (AddrFromSlice (To4 dst))"
  shows "IP_Equal dst (AsSlice (pAddr (node_ip n))) \<longleftrightarrow> AddrFromSlice (To4 dst) = pAddr (node_ip n)"
proof -
  have "AddrFromSlice (To4 dst) \<noteq> NoAddr" using Contains_family [OF assms(2)] by (auto simp: IsValid_def)
  then have l: "length (To4 dst) = 4" using To4_cases [of dst] by (auto simp: AddrFromSlice_def)
  have "AddrFromSlice (To4 dst) = Addr4 v \<longleftrightarrow> To4 dst = put_be 4 v"
    using l put_be_get_be [of "To4 dst" 4, where 'a = 32] by (auto simp: AddrFromSlice_def take_bit_word_eq_self)
  then show ?thesis using IP_Equal_To4 [OF l, of "put_be 4 v"] by (simp add: assms(1))
qed

lemma drop_out_effect:
  "heap (drop_out b n) = heap n" "udp_out (nworld (drop_out b n)) = udp_out (nworld n)"
  "OBuffersInUse (pools (nworld (drop_out b n))) = OBuffersInUse (pools (nworld n)) - 1"
  by (simp_all add: drop_out_def) (simp add: put_out_def outpool.put_used)

lemma OnTunnelPacket_routing:
  assumes "pAddr (node_ip n) = Addr4 v"
  shows "case tun_target L (sbytes (ob_packet b)) n of
     Some t \<Rightarrow> OnTunnelPacket L b n = with_peer t (OutboundPacket (node_env L n) b) n
   | None \<Rightarrow> OnTunnelPacket L b n = Ret (drop_out b n)"
proof (cases "ParseHeader L (sbytes (ob_packet b))")
  case None
  then show ?thesis by (simp add: tun_target_def OnTunnelPacket_def)
next
  case (Some dst)
  show ?thesis
  proof (cases "Contains (Masked (node_ip n)) (AddrFromSlice (To4 dst))")
    case True
    with Some own_address_test [OF assms True] show ?thesis
      by (auto simp: tun_target_def OnTunnelPacket_def Let_def split: option.split)
  next
    case False
    with Some show ?thesis by (simp add: tun_target_def OnTunnelPacket_def Let_def)
  qed
qed

text \<open>
  C12 (functional). Routing of packets from the tunnel, for a node with an IPv4
  address: a packet goes to exactly the peer that the map holds for its destination,
  provided the destination lies in the node's network and is not the node itself; in
  every other case it is dropped and its buffer returns to the pool without any
  peer, socket or counter being affected otherwise.
\<close>

theorem tunnel_packet_routing:
  assumes "pAddr (node_ip n) = Addr4 v"
  shows "case tun_target L (sbytes (ob_packet b)) n of
     Some t \<Rightarrow> OnTunnelPacket L b n = with_peer t (OutboundPacket (node_env L n) b) n
   | None \<Rightarrow> OnTunnelPacket L b n = Ret (drop_out b n)"
  using OnTunnelPacket_routing [OF assms] .

theorem tunnel_packet_routing_witness:
  "OnTunnelPacket toy_libs NewOutboundBuffer toy_node = Ret (drop_out NewOutboundBuffer toy_node)"
proof -
  have a: "pAddr (node_ip toy_node) = Addr4 0" by (simp add: toy_node_def)
  have "AddrFromSlice (To4 (take 4 (drop 16 (sbytes (ob_packet NewOutboundBuffer))))) = Addr4 0"
    by (simp add: NewOutboundBuffer_def BufferSize_def To4_def AddrFromSlice_def) (simp add: eval_nat_numeral)
  then have "tun_target toy_libs (sbytes (ob_packet NewOutboundBuffer)) toy_node = None"
    by (simp add: tun_target_def toy_libs_def toy_node_def)
  with tunnel_packet_routing [OF a, of toy_libs NewOutboundBuffer] show ?thesis by simp
qed

section \<open>Stopping the node\<close>

lemma stop_goroutine_cases:
  assumes "peer_wf l p"
  shows "if \<not> running p \<or> hstate p = 2 then is_panic (stop_goroutine (p, w))
    else \<exists>p' w'. stop_goroutine (p, w) = Ret (p', w') \<and> \<not> running p' \<and> hsRoutine p' = Exited \<and>
      (stopping p' \<longleftrightarrow> inRoutine p \<noteq> Idle \<or> outRoutine p \<noteq> Idle)"
proof (cases "\<not> running p \<or> hstate p = 2")
  case True
  with peer_Stop_cases(1) [OF assms, of w] show ?thesis
    by (cases "peer_Stop (p, w)") (auto simp: stop_goroutine_def)
next
  case False
  have nn: "no_nil (p\<lparr>running := False\<rparr>)" using peer_wfD(1) [OF assms] by (simp add: no_nil_def)
  have l: "pendingLock p" "hsRoutine p = Idle" using False peer_wfD(5,11) [OF assms] by auto
  show ?thesis
  proof (cases "inRoutine p = Idle \<and> outRoutine p = Idle")
    case True
    with False peer_Stop_cases(2) [OF assms, of w] show ?thesis
      by (auto simp: stop_goroutine_def reset_peer_def stopping_def)
  next
    case busy: False
    with False peer_Stop_cases(3) [OF assms, of w] have "peer_Stop (p, w) = Block" by blast
    with False busy l ResetState_Ret [OF nn, of w] show ?thesis
      by (simp add: stop_goroutine_def stopping_def reset_peer_def case_prod_beta)
  qed
qed

lemma run_stop_outcome:
  assumes "a \<in> set (stops m)" and "a < length (heap m)" and "peer_wf l (heap m ! a)"
  shows "if \<not> running (heap m ! a) \<or> hstate (heap m ! a) = 2 then is_panic (run_stop a m)
     else \<exists>m'. run_stop a m = Ret m' \<and> \<not> running (heap m' ! a) \<and>
       (stopping (heap m' ! a) \<longleftrightarrow> inRoutine (heap m ! a) \<noteq> Idle \<or> outRoutine (heap m ! a) \<noteq> Idle) \<and>
       stops m' = remove1 a (stops m) \<and> (\<forall>b. b \<noteq> a \<longrightarrow> heap m' ! b = heap m ! b)"
proof (cases "stop_goroutine (heap m ! a, nworld m)")
  case (Ret st)
  with stop_goroutine_cases [OF assms(3), of "nworld m"] assms(1,2) show ?thesis
    by (cases st) (auto simp: run_stop_def with_peer_def split: if_splits)
next
  case Block
  with stop_goroutine_cases [OF assms(3), of "nworld m"] show ?thesis by (auto split: if_splits)
next
  case (Panic x)
  with stop_goroutine_cases [OF assms(3), of "nworld m"] assms(1) show ?thesis
    by (auto simp: run_stop_def with_peer_def split: if_splits)
qed

text \<open>
  C33 (error). When \<open>Down\<close> (or a forced logout) stops a running node, it answers at once that
  the node is stopped, whatever its peers do: it has cleared the running flag, touched no peer and left one
  goroutine for each known peer behind. Whenever such a goroutine runs: if its peer is in session then, or was
  stopped before, the process crashes, because stopping that peer unlocks a mutex that is not locked;
  otherwise the peer is stopped, and if one of its data routines holds a packet, its
  \<open>Stop\<close> waits for ever with the peer's mutex in its hands. Other peers are not touched.
\<close>

theorem Down_outcome:
  fixes n :: "('hs, 'cs, 'kp) Node"
  assumes "initialized n" and "node_running n"
  shows "Down n = (Some ''node is stopped'', n\<lparr>node_running := False, stops := stops n @ map snd (maps_id n)\<rparr>) \<and>
     handleLogout n = (snd (Down n))\<lparr>loggedIn := False\<rparr> \<and>
     (\<forall>(m :: ('hs, 'cs, 'kp) Node) a. a \<in> set (stops m) \<and> a < length (heap m) \<and> peer_wf l (heap m ! a) \<longrightarrow>
        (if \<not> running (heap m ! a) \<or> hstate (heap m ! a) = 2 then is_panic (run_stop a m)
         else \<exists>m'. run_stop a m = Ret m' \<and> \<not> running (heap m' ! a) \<and>
           (stopping (heap m' ! a) \<longleftrightarrow> inRoutine (heap m ! a) \<noteq> Idle \<or> outRoutine (heap m ! a) \<noteq> Idle) \<and>
           stops m' = remove1 a (stops m) \<and> (\<forall>b. b \<noteq> a \<longrightarrow> heap m' ! b = heap m ! b)))"
proof (intro conjI allI impI)
  show "Down n = (Some ''node is stopped'', n\<lparr>node_running := False, stops := stops n @ map snd (maps_id n)\<rparr>)"
    "handleLogout n = (snd (Down n))\<lparr>loggedIn := False\<rparr>"
    using assms by (simp_all add: Down_def handleLogout_def node_Stop_def StopAllPeers_def)
qed (blast intro: run_stop_outcome)

lemma toy_peer_wf: "peer_wf toy_noise (fst toy_state)"
proof -
  have ik: "noise_ik (lib toy_env)" by (simp add: toy_env_def toy_noise_ik)
  have "peer_inv toy_env toy_state"
    using peer.run_inv [OF added_peer_inv [OF ik] toy_run(1) [unfolded toy_peer_def]] .
  then show ?thesis by (simp add: peer_inv_def toy_env_def)
qed

theorem Down_outcome_witness:
  "fst (Down toy_node) = Some ''node is stopped'' \<and> stops (snd (Down toy_node)) = [0] \<and>
   (\<exists>m'. run_stop 0 (snd (Down toy_node)) = Ret m' \<and> \<not> running (heap m' ! 0) \<and> stops m' = [])"
proof -
  have h: "initialized toy_node" "node_running toy_node" by (simp_all add: toy_node_def)
  let ?m = "toy_node\<lparr>node_running := False, stops := [0]\<rparr>"
  from Down_outcome [OF h, of toy_noise, THEN conjunct1] have d: "Down toy_node = (Some ''node is stopped'', ?m)"
    by (simp add: toy_node_def)
  have m: "0 \<in> set (stops ?m)" "0 < length (heap ?m)" "peer_wf toy_noise (heap ?m ! 0)" "running (heap ?m ! 0)" "hstate (heap ?m ! 0) = 1"
    using toy_peer_wf toy_run(2,4) by (simp_all add: toy_node_def)
  have "\<exists>m'. run_stop 0 ?m = Ret m' \<and> \<not> running (heap m' ! 0) \<and> stops m' = remove1 0 (stops ?m)"
    using Down_outcome [OF h, of toy_noise, THEN conjunct2, THEN conjunct2, rule_format, of 0 ?m] m by auto
  with d show ?thesis by simp
qed

section \<open>Updates of known peers\<close>

lemma ResetState_identity:
  assumes "ResetState (p, w) = Ret (p', w')"
  shows "peerID p' = peerID p \<and> peerIP p' = peerIP p \<and> raddr p' = raddr p \<and> Hostname p' = Hostname p \<and> pubkey p' = pubkey p"
  using assms by (auto simp: ResetState_def flushQueues_def Let_def obind_eq_Ret)

lemma peer_Stop_identity:
  assumes "peer_Stop (p, w) = Ret (p', w')"
  shows "peerID p' = peerID p \<and> peerIP p' = peerIP p \<and> raddr p' = raddr p \<and> Hostname p' = Hostname p \<and> pubkey p' = pubkey p"
  using assms ResetState_identity [of "p\<lparr>running := False\<rparr>" w]
  by (auto simp: peer_Stop_def obind_eq_Ret unlock_pending_def split: if_splits)

lemma peer_Start_identity:
  assumes "peer_Start p = Ret (ok, p')"
  shows "peerID p' = peerID p \<and> peerIP p' = peerIP p \<and> raddr p' = raddr p \<and> Hostname p' = Hostname p \<and> pubkey p' = pubkey p"
  using assms by (auto simp: peer_Start_def lock_pending_def split: if_splits)

text \<open>\<open>peer_Update\<close> in three stages: endpoint and name, key, address.\<close>

definition update_endpoint :: "('hs, 'cs, 'kp) node_libs \<Rightarrow> pb_Peer \<Rightarrow> AddrPort \<Rightarrow> ('hs, 'cs) Peer \<Rightarrow> ('hs, 'cs) Peer" where
  "update_endpoint L info newEndpoint p =
     (let q = (if CompareAddrPort (case raddr p of None \<Rightarrow> zero_AddrPort | Some u \<Rightarrow> udp_AddrPort u) newEndpoint \<noteq> 0
               then (case ResolveUDPAddr L (addrport_String (ip6t L) newEndpoint) of None \<Rightarrow> p | Some r \<Rightarrow> p\<lparr>raddr := Some r\<rparr>)
               else p)
      in if Hostname p \<noteq> pb_Hostname info then q\<lparr>Hostname := pb_Hostname info\<rparr> else q)"

definition update_key :: "pb_Peer \<Rightarrow> bytes \<Rightarrow> ('hs, 'cs) pstate \<Rightarrow> ('hs, 'cs) pstate outcome" where
  "update_key info currentKey st =
     (case DecodeBase64Key (pb_PublicKey info) of
        None \<Rightarrow> Ret st
      | Some newKey \<Rightarrow>
          if currentKey \<noteq> newKey then
            obind (peer_Stop st) (\<lambda>(p, w).
            obind (peer_Start (p\<lparr>pubkey := newKey\<rparr>)) (\<lambda>(ok, p).
            if ok then Ret (p, w) else Panic ''peer already running''))
          else Ret st)"

lemma peer_Update_stages:
  "\<not> stopping p \<Longrightarrow> peer_Update L info (p, w) =
     (case netip_ParseAddrPort (ip6t L) (pb_Endpoint info) of
        None \<Rightarrow> Ret (False, (p, w))
      | Some ap \<Rightarrow>
          obind (update_key info (pubkey p) (update_endpoint L info ap p, w)) (\<lambda>(q, w).
          Ret (True, (if Compare (peerIP p) (fst (ParseAddr (ip6t L) (pb_Ip info))) \<noteq> 0
                      then q\<lparr>peerIP := fst (ParseAddr (ip6t L) (pb_Ip info))\<rparr> else q, w))))"
  by (simp add: peer_Update_def update_key_def update_endpoint_def ParseAddrPort_def Let_def split: option.split)

lemma update_endpoint_identity:
  "peerID (update_endpoint L info ap p) = peerID p" "peerIP (update_endpoint L info ap p) = peerIP p"
  "running (update_endpoint L info ap p) = running p" "hstate (update_endpoint L info ap p) = hstate p"
  "inRoutine (update_endpoint L info ap p) = inRoutine p" "outRoutine (update_endpoint L info ap p) = outRoutine p"
  "pubkey (update_endpoint L info ap p) = pubkey p" "peer_wf l (update_endpoint L info ap p) = peer_wf l p"
  by (simp_all add: update_endpoint_def Let_def split: option.split)

lemma update_key_identity:
  assumes "update_key info k (p, w) = Ret (p', w')"
  shows "peerID p' = peerID p \<and> peerIP p' = peerIP p"
  using assms
  by (auto simp: update_key_def obind_eq_Ret split: option.splits if_splits
      dest!: peer_Stop_identity peer_Start_identity)

lemma peer_Update_identity:
  assumes "peer_Update L info (p, w) = Ret (ok, (p', w'))"
  shows "peerID p' = peerID p" "ok \<Longrightarrow> peerIP p' = fst (ParseAddr (ip6t L) (pb_Ip info))"
proof -
  have live: "\<not> stopping p" using assms by (auto simp: peer_Update_def)
  have step: "peerID p' = peerID p \<and> (ok \<longrightarrow> peerIP p' = fst (ParseAddr (ip6t L) (pb_Ip info)))"
  proof (cases "netip_ParseAddrPort (ip6t L) (pb_Endpoint info)")
    case (Some ap)
    with assms obtain q where q: "update_key info (pubkey p) (update_endpoint L info ap p, w) = Ret (q, w')" and "ok"
      and p': "p' = (if Compare (peerIP p) (fst (ParseAddr (ip6t L) (pb_Ip info))) \<noteq> 0
                   then q\<lparr>peerIP := fst (ParseAddr (ip6t L) (pb_Ip info))\<rparr> else q)"
      by (auto simp: peer_Update_stages [OF live] obind_eq_Ret)
    show ?thesis using update_key_identity [OF q]
      by (simp add: p' update_endpoint_identity Compare_eq_0)
  qed (use assms in \<open>simp add: peer_Update_stages [OF live]\<close>)
  show "peerID p' = peerID p" "ok \<Longrightarrow> peerIP p' = fst (ParseAddr (ip6t L) (pb_Ip info))" using step by auto
qed


text \<open>An update for a peer that is known leaves both maps as they are.\<close>

lemma connect_known:
  assumes "map_of (maps_id n) (pb_Id rp) = Some a" and "ur_UpdateType u = CONNECT"
    and "ur_PeerList u = Some l" and "pl_Count l \<noteq> 0" and "pl_Peers l = rp # ps"
  shows "HandleUpdate L u n =
    obind (peer_Update L rp (heap n ! a, nworld n)) (\<lambda>(ok, p, w).
      if ok then Ret (n\<lparr>heap := (heap n)[a := p], nworld := w\<rparr>) else Panic ''updating peer failed'')"
  using assms by (simp add: HandleUpdate_def handlePeerConnectUpdate_def)

definition new_key :: "pb_Peer \<Rightarrow> bytes \<Rightarrow> bytes option" where
  "new_key info k =
     (case DecodeBase64Key (pb_PublicKey info) of None \<Rightarrow> None | Some k' \<Rightarrow> if k' = k then None else Some k')"

lemma update_key_cases:
  assumes "peer_wf l p"
  shows "new_key info k = None \<Longrightarrow> update_key info k (p, w) = Ret (p, w)"
    and "new_key info k = Some k' \<Longrightarrow> \<not> running p \<or> hstate p = 2 \<Longrightarrow> is_panic (update_key info k (p, w))"
    and "new_key info k = Some k' \<Longrightarrow> running p \<Longrightarrow> hstate p \<noteq> 2 \<Longrightarrow> inRoutine p \<noteq> Idle \<or> outRoutine p \<noteq> Idle \<Longrightarrow>
      update_key info k (p, w) = Block"
    and "new_key info k = Some k' \<Longrightarrow> running p \<Longrightarrow> hstate p \<noteq> 2 \<Longrightarrow> inRoutine p = Idle \<Longrightarrow> outRoutine p = Idle \<Longrightarrow>
      \<exists>p' w'. update_key info k (p, w) = Ret (p', w') \<and> running p' \<and> hstate p' = 0 \<and> pubkey p' = k' \<and>
        raddr p' = raddr p \<and> Hostname p' = Hostname p"
proof -
  show "new_key info k = None \<Longrightarrow> update_key info k (p, w) = Ret (p, w)"
    by (auto simp: new_key_def update_key_def split: option.splits if_splits)
  have key: "update_key info k (p, w) = obind (peer_Stop (p, w)) (\<lambda>(p, w).
      obind (peer_Start (p\<lparr>pubkey := k'\<rparr>)) (\<lambda>(ok, p). if ok then Ret (p, w) else Panic ''peer already running''))"
    if "new_key info k = Some k'"
    using that by (auto simp: new_key_def update_key_def split: option.splits if_splits)
  show "is_panic (update_key info k (p, w))" if "new_key info k = Some k'" "\<not> running p \<or> hstate p = 2"
    using peer_Stop_cases(1) [OF assms that(2), of w] key [OF that(1)] by (cases "peer_Stop (p, w)") simp_all
  show "update_key info k (p, w) = Block"
    if "new_key info k = Some k'" "running p" "hstate p \<noteq> 2" "inRoutine p \<noteq> Idle \<or> outRoutine p \<noteq> Idle"
    using peer_Stop_cases(3) [OF assms that(2-4), of w] key [OF that(1)] by simp
  show "\<exists>p' w'. update_key info k (p, w) = Ret (p', w') \<and> running p' \<and> hstate p' = 0 \<and> pubkey p' = k' \<and>
      raddr p' = raddr p \<and> Hostname p' = Hostname p"
    if "new_key info k = Some k'" "running p" "hstate p \<noteq> 2" "inRoutine p = Idle" "outRoutine p = Idle"
    using key [OF that(1)]
    by (simp add: peer_Stop_cases(2) [OF assms that(2-5), of w] peer_Start_def lock_pending_def reset_peer_def)
qed

text \<open>
  C14 (error). A connect update about a peer the node already knows. An endpoint
  that does not parse crashes the node. A changed key crashes it when the peer is in
  session or stopped, and blocks the update loop for ever when one of the peer's
  routines holds a packet; otherwise the peer restarts without a session under the
  new key. Whenever the update returns, both maps are unchanged although the peer's
  own address becomes the one in the message, so packets for a changed address still find
  whatever the map held before; a field that is not an address sets it to the zero address.
\<close>

theorem known_peer_update:
  assumes "map_of (maps_id n) (pb_Id rp) = Some a" and "a < length (heap n)" and "peer_wf l (heap n ! a)"
    and "ur_UpdateType u = CONNECT" and "ur_PeerList u = Some pl" and "pl_Count pl \<noteq> 0" and "pl_Peers pl = rp # ps"
  shows "if netip_ParseAddrPort (ip6t L) (pb_Endpoint rp) = None then is_panic (HandleUpdate L u n)
    else if new_key rp (pubkey (heap n ! a)) \<noteq> None \<and> (\<not> running (heap n ! a) \<or> hstate (heap n ! a) = 2)
      then is_panic (HandleUpdate L u n)
    else if new_key rp (pubkey (heap n ! a)) \<noteq> None \<and>
        (inRoutine (heap n ! a) \<noteq> Idle \<or> outRoutine (heap n ! a) \<noteq> Idle) then HandleUpdate L u n = Block
    else \<exists>n'. HandleUpdate L u n = Ret n' \<and> maps_id n' = maps_id n \<and> maps_ip n' = maps_ip n \<and>
      peerIP (heap n' ! a) = fst (ParseAddr (ip6t L) (pb_Ip rp)) \<and>
      (case new_key rp (pubkey (heap n ! a)) of
         None \<Rightarrow> hstate (heap n' ! a) = hstate (heap n ! a) \<and> pubkey (heap n' ! a) = pubkey (heap n ! a)
       | Some k \<Rightarrow> running (heap n' ! a) \<and> hstate (heap n' ! a) = 0 \<and> pubkey (heap n' ! a) = k)"
proof (cases "netip_ParseAddrPort (ip6t L) (pb_Endpoint rp)")
  case None
  then show ?thesis
    using connect_known [OF assms(1,4-7)] by (simp add: peer_Update_stages [OF peer_wf_not_stopping [OF assms(3)]])
next
  case (Some ap)
  define p where "p = heap n ! a"
  define q where "q = update_endpoint L rp ap p"
  define ip where "ip = fst (ParseAddr (ip6t L) (pb_Ip rp))"
  note same = update_endpoint_identity [where L = L and info = rp and ap = ap and p = p, folded q_def]
  have wf: "peer_wf l q" using assms(3) by (simp add: same p_def)
  have run: "HandleUpdate L u n = obind (update_key rp (pubkey p) (q, nworld n)) (\<lambda>(q', w).
      Ret (n\<lparr>heap := (heap n)[a := if Compare (peerIP p) ip \<noteq> 0 then q'\<lparr>peerIP := ip\<rparr> else q'], nworld := w\<rparr>))"
    unfolding connect_known [OF assms(1,4-7)] using Some
    by (simp add: peer_Update_stages [OF peer_wf_not_stopping [OF assms(3)]] obind_assoc case_prod_unfold q_def p_def ip_def cong: if_cong)
  note K = update_key_cases [OF wf, of rp "pubkey p", unfolded same]
  have ret: "\<exists>n'. HandleUpdate L u n = Ret n' \<and> maps_id n' = maps_id n \<and> maps_ip n' = maps_ip n \<and>
      peerIP (heap n' ! a) = ip \<and> hstate (heap n' ! a) = hstate q' \<and> running (heap n' ! a) = running q' \<and>
      pubkey (heap n' ! a) = pubkey q'"
    if "update_key rp (pubkey p) (q, nworld n) = Ret (q', w')" for q' w'
    using assms(2) update_key_identity [OF that] unfolding run that by (simp add: same)
  show ?thesis
  proof (cases "new_key rp (pubkey p)")
    case None
    from ret [OF K(1) [OF this]] None Some show ?thesis by (simp add: same flip: p_def ip_def) blast
  next
    case key: (Some k)
    consider "\<not> running p \<or> hstate p = 2" | "running p" "hstate p \<noteq> 2" "inRoutine p \<noteq> Idle \<or> outRoutine p \<noteq> Idle"
      | "running p" "hstate p \<noteq> 2" "inRoutine p = Idle" "outRoutine p = Idle" by blast
    then show ?thesis
    proof cases
      case 1
      then have "is_panic (HandleUpdate L u n)" unfolding run using K(2) [OF key 1, of "nworld n"]
        by (cases "update_key rp (pubkey p) (q, nworld n)") simp_all
      with 1 Some key show ?thesis by (simp flip: p_def)
    next
      case 2
      then have "HandleUpdate L u n = Block" unfolding run using K(3) [OF key 2, of "nworld n"] by simp
      with 2 Some key show ?thesis by (simp flip: p_def)
    next
      case 3
      from K(4) [OF key 3, of "nworld n"] obtain q' w' where
        "update_key rp (pubkey p) (q, nworld n) = Ret (q', w')" "running q'" "hstate q' = 0" "pubkey q' = k" by blast
      with ret 3 Some key show ?thesis by (simp flip: p_def ip_def) force
    qed
  qed
qed


text \<open>The toy peer, waiting for an answer, is told to use another key and another address.\<close>

definition toy_rp :: pb_Peer where
  "toy_rp = \<lparr>pb_Id = 9, pb_PublicKey = EncodeToString [1], pb_Hostname = ''b'', pb_Ip = ''10.0.0.7'',
     pb_Endpoint = ''10.0.0.2:9'', pb_Prefix = [], pb_User = [], pb_Connected = True\<rparr>"

definition toy_update :: pb_UpdateResponse where
  "toy_update = \<lparr>ur_UpdateType = CONNECT, ur_PeerList = Some \<lparr>pl_Peers = [toy_rp], pl_Count = 1\<rparr>, ur_PunchEndpoint = []\<rparr>"

lemma toy_rp_parses:
  "netip_ParseAddrPort ip6 (pb_Endpoint toy_rp) = Some \<lparr>apAddr = Addr4 0x0A000002, apPort = 9\<rparr>"
  "netip_ParseAddr ip6 (pb_Ip toy_rp) = Some (Addr4 0x0A000007)"
  "DecodeBase64Key (pb_PublicKey toy_rp) = Some [1]"
  by (simp_all add: toy_rp_def netip_ParseAddrPort_def netip_ParseAddr_def parseIPv4_def octet_def is_digit_def
      dec_value_def digit_val_def parse_port_def DecodeBase64Key_def base64.dec_enc no_leading_zero_def
      del: EncodeToString.simps)

theorem known_peer_update_witness:
  "\<exists>n'. HandleUpdate toy_libs toy_update toy_node = Ret n' \<and> maps_ip n' = [(Addr4 1, 0)] \<and>
     peerIP (heap n' ! 0) = Addr4 0x0A000007 \<and> pubkey (heap n' ! 0) = [1]"
proof -
  have h: "map_of (maps_id toy_node) (pb_Id toy_rp) = Some 0" "0 < length (heap toy_node)"
    "peer_wf toy_noise (heap toy_node ! 0)" "ur_UpdateType toy_update = CONNECT"
    "ur_PeerList toy_update = Some \<lparr>pl_Peers = [toy_rp], pl_Count = 1\<rparr>"
    "pl_Count \<lparr>pl_Peers = [toy_rp], pl_Count = 1\<rparr> \<noteq> 0" "pl_Peers \<lparr>pl_Peers = [toy_rp], pl_Count = 1\<rparr> = toy_rp # []"
    using toy_peer_wf by (simp_all add: toy_node_def toy_update_def) (simp add: toy_rp_def)
  from known_peer_update [OF h, of toy_libs] show ?thesis
    by (simp add: toy_node_def toy_run new_key_def toy_rp_parses ParseAddr_def) blast
qed

section \<open>The maps\<close>

text \<open>
  Ids and addresses occur once; every address on the heap exists; the id map leads to
  the peer with that id and enters no peer twice.
\<close>

definition maps_ok :: "('hs, 'cs, 'kp) Node \<Rightarrow> bool" where
  "maps_ok n \<longleftrightarrow>
     distinct (map fst (maps_id n)) \<and> distinct (map fst (maps_ip n)) \<and> distinct (map snd (maps_id n)) \<and>
     list_all (\<lambda>(i, a). a < length (heap n) \<and> peerID (heap n ! a) = i) (maps_id n) \<and>
     list_all (\<lambda>(x, a). a < length (heap n)) (maps_ip n)"

lemma maps_ok_same:
  "maps_id n' = maps_id n \<Longrightarrow> maps_ip n' = maps_ip n \<Longrightarrow> map peerID (heap n') = map peerID (heap n) \<Longrightarrow>
     maps_ok n' = maps_ok n"
proof -
  assume m: "maps_id n' = maps_id n" "maps_ip n' = maps_ip n" and h: "map peerID (heap n') = map peerID (heap n)"
  have l: "length (heap n') = length (heap n)" using h by (rule map_eq_imp_length_eq)
  have "peerID (heap n' ! a) = peerID (heap n ! a)" if "a < length (heap n)" for a
    using that h l by (metis nth_map)
  then have "(a < length (heap n') \<and> peerID (heap n' ! a) = i) = (a < length (heap n) \<and> peerID (heap n ! a) = i)" for a i
    by (auto simp: l)
  then show ?thesis by (simp add: maps_ok_def m l)
qed

lemma with_peer_same:
  assumes "with_peer a f n = Ret n'" and "\<And>p' w'. f (heap n ! a, nworld n) = Ret (p', w') \<Longrightarrow> peerID p' = peerID (heap n ! a)"
  shows "maps_id n' = maps_id n" "maps_ip n' = maps_ip n" "map peerID (heap n') = map peerID (heap n)"
  using assms
  by (auto simp: with_peer_def obind_eq_Ret map_update list_update_same_conv)
     (metis list_update_id map_update list_update_beyond linorder_not_less nth_map)

lemma stop_goroutine_identity:
  assumes "stop_goroutine (p, w) = Ret (p', w')"
  shows "peerID p' = peerID p"
  using assms peer_Stop_identity [of p w p' w'] ResetState_identity [of "p\<lparr>running := False\<rparr>" w]
  by (auto simp: stop_goroutine_def obind_eq_Ret case_prod_beta split: outcome.splits if_splits)

lemma handleLogout_same:
  "maps_id (handleLogout n) = maps_id n" "maps_ip (handleLogout n) = maps_ip n" "heap (handleLogout n) = heap n"
  by (simp_all add: handleLogout_def node_Stop_def StopAllPeers_def)

lemma set_update_subset: "set (AList.update k v al) \<subseteq> insert (k, v) (set al)"
  by (induction al) auto

lemma distinct_snd_update: "distinct (map snd al) \<Longrightarrow> v \<notin> snd ` set al \<Longrightarrow> distinct (map snd (AList.update k v al))"
proof (induction al)
  case (Cons x al)
  have "snd ` set (AList.update k v al) \<subseteq> insert v (snd ` set al)" using set_update_subset [of k v al] by force
  with Cons show ?case by (cases x) auto
qed simp

lemma list_all_update: "list_all P al \<Longrightarrow> P (k, v) \<Longrightarrow> list_all P (AList.update k v al)"
  by (induction al) auto

text \<open>The peer a message describes, as \<open>AddPeer\<close> allocates it.\<close>

definition peer_parses :: "('hs, 'cs, 'kp) node_libs \<Rightarrow> pb_Peer \<Rightarrow> bool" where
  "peer_parses L info \<longleftrightarrow> netip_ParseAddr (ip6t L) (pb_Ip info) \<noteq> None \<and>
     DecodeBase64Key (pb_PublicKey info) \<noteq> None \<and> ResolveUDPAddr L (pb_Endpoint info) \<noteq> None"

definition overlay_ip :: "('hs, 'cs, 'kp) node_libs \<Rightarrow> pb_Peer \<Rightarrow> Addr" where
  "overlay_ip L info = fst (ParseAddr (ip6t L) (pb_Ip info))"

definition described :: "('hs, 'cs, 'kp) node_libs \<Rightarrow> pb_Peer \<Rightarrow> ('hs, 'cs) Peer" where
  "described L info = added_peer (pb_Id info) (overlay_ip L info) (the (DecodeBase64Key (pb_PublicKey info)))
     (pb_Hostname info) (ResolveUDPAddr L (pb_Endpoint info))"

lemma AddPeer_cases:
  "AddPeer L info n =
     (if peer_parses L info
      then (Some (length (heap n)), n\<lparr>heap := heap n @ [described L info],
              maps_id := AList.update (pb_Id info) (length (heap n)) (maps_id n),
              maps_ip := AList.update (overlay_ip L info) (length (heap n)) (maps_ip n)\<rparr>)
      else (None, n))"
  by (auto simp: AddPeer_def peer_parses_def overlay_ip_def described_def added_peer_def ParseAddr_def Let_def
      split: option.split)

lemma AddPeer_maps_ok:
  assumes "maps_ok n" and "AddPeer L info n = (r, n')"
  shows "maps_ok n'"
proof (cases "peer_parses L info")
  case True
  let ?a = "length (heap n)"
  have n': "n' = n\<lparr>heap := heap n @ [described L info], maps_id := AList.update (pb_Id info) ?a (maps_id n),
      maps_ip := AList.update (overlay_ip L info) ?a (maps_ip n)\<rparr>"
    using assms(2) True by (simp add: AddPeer_cases)
  have new: "?a \<notin> snd ` set (maps_id n)" using assms(1) by (auto simp: maps_ok_def list_all_iff)
  have "list_all (\<lambda>(x, a). a < length (heap n')) (maps_ip n)"
    "list_all (\<lambda>(i, a). a < length (heap n') \<and> peerID (heap n' ! a) = i) (maps_id n)"
    using assms(1) by (auto simp: n' maps_ok_def list_all_iff nth_append)
  then have "list_all (\<lambda>(x, a). a < length (heap n')) (maps_ip n')"
    "list_all (\<lambda>(i, a). a < length (heap n') \<and> peerID (heap n' ! a) = i) (maps_id n')"
    by (simp_all add: n' list_all_update described_def added_peer_def)
  moreover have "distinct (map fst (maps_id n'))" "distinct (map fst (maps_ip n'))" "distinct (map snd (maps_id n'))"
    using assms(1) distinct_snd_update [OF _ new] by (simp_all add: n' maps_ok_def distinct_update)
  ultimately show ?thesis by (simp only: maps_ok_def)
qed (use assms in \<open>simp add: AddPeer_cases\<close>)


lemma start_peer_same:
  assumes "start_peer a n = Ret (ok, n')"
  shows "maps_id n' = maps_id n" "maps_ip n' = maps_ip n" "map peerID (heap n') = map peerID (heap n)"
  using assms peer_Start_identity [of "heap n ! a"]
  by (auto simp: start_peer_def obind_eq_Ret map_update list_update_same_conv)
     (metis list_update_id map_update list_update_beyond linorder_not_less nth_map)

lemma maps_ok_start: "start_peer a n = Ret (ok, n') \<Longrightarrow> maps_ok n' = maps_ok n"
  using maps_ok_same start_peer_same by metis

lemma handleInitialSync_maps_ok: "maps_ok n \<Longrightarrow> handleInitialSync L ps n = Ret n' \<Longrightarrow> maps_ok n'"
proof (induction ps arbitrary: n)
  case (Cons rp ps)
  obtain r m where m: "AddPeer L rp n = (r, m)" by (cases "AddPeer L rp n")
  from Cons.prems(2) m obtain a k where "r = Some a" "start_peer a m = Ret (True, k)" "handleInitialSync L ps k = Ret n'"
    by (auto simp: obind_eq_Ret split: option.splits if_splits)
  with Cons.IH [of k] AddPeer_maps_ok [OF Cons.prems(1) m] maps_ok_start [of a m True k] show ?case by simp
qed simp

lemma HandleUpdate_maps_ok:
  assumes "maps_ok n" and "HandleUpdate L u n = Ret n'"
  shows "maps_ok n'"
proof (cases "ur_UpdateType u")
  case INIT
  with assms handleInitialSync_maps_ok [OF assms(1)] show ?thesis by (auto simp: HandleUpdate_def nil_deref_def split: option.splits)
next
  case PUNCH
  with assms show ?thesis by (auto simp: HandleUpdate_def handlePeerPunchRequest_def maps_ok_def split: option.splits)
next
  case LOGOUT
  have "maps_ok (handleLogout n)" using assms(1) maps_ok_same [of "handleLogout n" n] by (simp add: handleLogout_same)
  with LOGOUT assms(2) show ?thesis by (simp add: HandleUpdate_def)
next
  case CONNECT
  with assms(2) have c: "handlePeerConnectUpdate L u n = Ret n'" by (simp add: HandleUpdate_def)
  show ?thesis
  proof (cases "n' = n")
    case False
    with c CONNECT obtain l rp ps where l: "ur_PeerList u = Some l" "pl_Count l \<noteq> 0" "pl_Peers l = rp # ps"
      by (auto simp: handlePeerConnectUpdate_def nil_deref_def split: option.splits if_splits list.splits)
    show ?thesis
    proof (cases "map_of (maps_id n) (pb_Id rp)")
      case None
      obtain r m where m: "AddPeer L rp n = (r, m)" by (cases "AddPeer L rp n")
      with AddPeer_maps_ok [OF assms(1) m] c l CONNECT None show ?thesis
        by (auto simp: handlePeerConnectUpdate_def obind_eq_Ret maps_ok_start
            split: option.splits if_splits)
    next
      case (Some a)
      from assms(2) obtain p w where p: "peer_Update L rp (heap n ! a, nworld n) = Ret (True, (p, w))"
        and n': "n' = n\<lparr>heap := (heap n)[a := p], nworld := w\<rparr>"
        unfolding connect_known [OF Some CONNECT l] by (auto simp: obind_eq_Ret split: if_splits)
      have "map_of (maps_id n) (pb_Id rp) = Some a \<Longrightarrow> a < length (heap n)"
        using assms(1) by (auto simp: maps_ok_def list_all_iff dest!: map_of_SomeD)
      with Some have "map peerID (heap n') = map peerID (heap n)"
        using peer_Update_identity(1) [OF p] by (simp add: n' map_update list_update_same_conv)
      with maps_ok_same [of n' n] assms(1) show ?thesis by (simp add: n')
    qed
  qed (use assms in simp)
qed (use assms in \<open>simp add: HandleUpdate_def\<close>)

interpretation maps: preserves "HandleUpdate L" maps_ok for L
  by unfold_locales (rule HandleUpdate_maps_ok)

text \<open>No update removes a peer from the id map.\<close>

lemma AddPeer_known: "AddPeer L info n = (r, n') \<Longrightarrow> dom (map_of (maps_id n)) \<subseteq> dom (map_of (maps_id n'))"
  by (auto simp: AddPeer_cases update_conv' split: if_splits)

lemma handleInitialSync_known:
  "handleInitialSync L ps n = Ret n' \<Longrightarrow> dom (map_of (maps_id n)) \<subseteq> dom (map_of (maps_id n'))"
proof (induction ps arbitrary: n)
  case (Cons rp ps)
  obtain r m where m: "AddPeer L rp n = (r, m)" by (cases "AddPeer L rp n")
  from Cons.prems m obtain a k where "r = Some a" "start_peer a m = Ret (True, k)" "handleInitialSync L ps k = Ret n'"
    by (auto simp: obind_eq_Ret split: option.splits if_splits)
  with Cons.IH [of k] AddPeer_known [OF m] start_peer_same(1) [of a m True k] show ?case by simp
qed simp

lemma HandleUpdate_known:
  assumes "HandleUpdate L u n = Ret n'"
  shows "dom (map_of (maps_id n)) \<subseteq> dom (map_of (maps_id n'))"
proof (cases "ur_UpdateType u")
  case CONNECT
  show ?thesis
  proof (cases "n' = n")
    case False
    with assms CONNECT obtain l rp ps where l: "ur_PeerList u = Some l" "pl_Count l \<noteq> 0" "pl_Peers l = rp # ps"
      by (auto simp: HandleUpdate_def handlePeerConnectUpdate_def nil_deref_def split: option.splits if_splits list.splits)
    show ?thesis
    proof (cases "map_of (maps_id n) (pb_Id rp)")
      case None
      obtain r m where m: "AddPeer L rp n = (r, m)" by (cases "AddPeer L rp n")
      from assms m l CONNECT None have "maps_id n' = maps_id m"
        by (auto simp: HandleUpdate_def handlePeerConnectUpdate_def obind_eq_Ret dest: start_peer_same(1)
            split: option.splits if_splits)
      with AddPeer_known [OF m] show ?thesis by simp
    next
      case (Some a)
      with assms show ?thesis
        unfolding connect_known [OF Some CONNECT l] by (auto simp: obind_eq_Ret split: if_splits)
    qed
  qed simp
next
  case INIT
  with assms obtain l where "handleInitialSync L l n = Ret n'" by (auto simp: HandleUpdate_def nil_deref_def split: option.splits)
  then show ?thesis by (rule handleInitialSync_known)
next
  case LOGOUT
  with assms show ?thesis by (auto simp: HandleUpdate_def handleLogout_same)
qed (use assms in \<open>auto simp: HandleUpdate_def handlePeerPunchRequest_def split: option.splits\<close>)

interpretation known: preserves "HandleUpdate L" "\<lambda>n. I \<subseteq> dom (map_of (maps_id n))" for L I
  using HandleUpdate_known by unfold_locales fast

text \<open>
  C13 (invariant). Through every sequence of controller updates that the node
  survives, the id map and the address map stay well formed: no id and no address
  occurs twice, every entry leads to an allocated peer, the peer under an id has
  that id and no peer is entered under two ids. And no update ever removes a peer:
  whatever was known stays known (disconnect updates are ignored).
\<close>

theorem updates_keep_maps:
  assumes "maps_ok n" and "run_events (HandleUpdate L) us n = Ret n'"
  shows "maps_ok n' \<and> (lookupPeer i n \<noteq> None \<longrightarrow> lookupPeer i n' \<noteq> None)"
  using maps.run_inv [OF assms] known.run_inv [OF subset_refl assms(2)] by (auto simp: lookupPeer_def)

section \<open>The initial list\<close>

text \<open>A described peer after \<open>Start\<close>.\<close>

definition started :: "('hs, 'cs) Peer \<Rightarrow> ('hs, 'cs) Peer" where
  "started p = p\<lparr>inRoutine := Idle, outRoutine := Idle, hsRoutine := Idle, running := True, inTransport := False,
     pendingLock := True\<rparr>"

definition enumerated :: "nat \<Rightarrow> 'k list \<Rightarrow> ('k \<rightharpoonup> nat) \<Rightarrow> ('k \<rightharpoonup> nat)" where
  "enumerated a ks m = m(ks [\<mapsto>] [a ..< a + length ks])"

lemma enumerated_simps [simp]:
  "enumerated a [] m = m" "enumerated a (k # ks) m = enumerated (Suc a) ks (m(k \<mapsto> a))"
  by (simp_all add: enumerated_def upt_conv_Cons del: upt_Suc)

lemma start_described:
  "start_peer (length (heap n)) (n\<lparr>heap := heap n @ [described L info], maps_id := x, maps_ip := y\<rparr>) =
     Ret (True, n\<lparr>heap := heap n @ [started (described L info)], maps_id := x, maps_ip := y\<rparr>)"
  by (simp add: start_peer_def peer_Start_def lock_pending_def described_def added_peer_def NewPeer_def started_def)

lemma handleInitialSync_adds:
  "list_all (peer_parses L) ps \<Longrightarrow>
     \<exists>n'. handleInitialSync L ps n = Ret n' \<and> heap n' = heap n @ map (\<lambda>rp. started (described L rp)) ps \<and>
       map_of (maps_id n') = enumerated (length (heap n)) (map pb_Id ps) (map_of (maps_id n)) \<and>
       map_of (maps_ip n') = enumerated (length (heap n)) (map (overlay_ip L) ps) (map_of (maps_ip n))"
proof (induction ps arbitrary: n)
  case (Cons rp ps)
  let ?n = "n\<lparr>heap := heap n @ [started (described L rp)],
    maps_id := AList.update (pb_Id rp) (length (heap n)) (maps_id n),
    maps_ip := AList.update (overlay_ip L rp) (length (heap n)) (maps_ip n)\<rparr>"
  have "handleInitialSync L (rp # ps) n = handleInitialSync L ps ?n"
    using Cons.prems by (simp add: AddPeer_cases start_described)
  with Cons.IH [of ?n] Cons.prems show ?case by (simp add: update_conv' fun_upd_def)
qed simp

lemma handleInitialSync_fails: "\<not> list_all (peer_parses L) ps \<Longrightarrow> is_panic (handleInitialSync L ps n)"
proof (induction ps arbitrary: n)
  case (Cons rp ps)
  then show ?case by (cases "peer_parses L rp") (simp_all add: AddPeer_cases start_described)
qed simp

text \<open>
  The initial update of the controller. If every listed peer has an
  address, a base64 key and an endpoint that resolves, the node ends with one new peer per
  entry, in that order, each with exactly the described id, address, key, name and endpoint,
  running and without a session; the id map and the address map lead to the last entry with
  that id or address and are otherwise unchanged. One bad entry crashes the node.
\<close>

lemma initial_sync:
  "if list_all (peer_parses L) (pl_Peers l)
   then \<exists>n'. HandleUpdate L \<lparr>ur_UpdateType = INIT, ur_PeerList = Some l, ur_PunchEndpoint = e\<rparr> n = Ret n' \<and>
     heap n' = heap n @ map (\<lambda>rp. started (described L rp)) (pl_Peers l) \<and>
     map_of (maps_id n') = enumerated (length (heap n)) (map pb_Id (pl_Peers l)) (map_of (maps_id n)) \<and>
     map_of (maps_ip n') = enumerated (length (heap n)) (map (overlay_ip L) (pl_Peers l)) (map_of (maps_ip n))
   else is_panic (HandleUpdate L \<lparr>ur_UpdateType = INIT, ur_PeerList = Some l, ur_PunchEndpoint = e\<rparr> n)"
  using handleInitialSync_adds [of L "pl_Peers l" n] handleInitialSync_fails [of L "pl_Peers l" n]
  by (simp add: HandleUpdate_def)

text \<open>The toy node receives the initial list again, and peer 9 in it.\<close>

definition toy_init :: pb_UpdateResponse where
  "toy_init = \<lparr>ur_UpdateType = INIT, ur_PeerList = Some \<lparr>pl_Peers = [toy_rp], pl_Count = 1\<rparr>, ur_PunchEndpoint = []\<rparr>"

theorem updates_keep_maps_witness:
  "\<exists>n'. run_events (HandleUpdate toy_libs) [toy_init] toy_node = Ret n' \<and> maps_ok n' \<and> lookupPeer 9 n' \<noteq> None"
proof -
  have ok: "maps_ok toy_node" by (simp add: maps_ok_def toy_node_def toy_run(9))
  have "list_all (peer_parses toy_libs) [toy_rp]"
    by (simp add: peer_parses_def toy_rp_parses) (simp add: toy_libs_def)
  from handleInitialSync_adds [OF this, of toy_node] obtain n'
    where "handleInitialSync toy_libs [toy_rp] toy_node = Ret n'" by blast
  then have n': "run_events (HandleUpdate toy_libs) [toy_init] toy_node = Ret n'"
    by (simp add: HandleUpdate_def toy_init_def del: handleInitialSync.simps)
  have "lookupPeer 9 toy_node \<noteq> None" by (simp add: lookupPeer_def toy_node_def)
  with updates_keep_maps [OF ok n', of 9] n' show ?thesis by blast
qed

section \<open>Logging in\<close>

lemma use_config_cases:
  "use_config L cfg n =
     (case split_char (CHR ''/'') (pc_Prefix cfg) of
        _ # bits # _ \<Rightarrow>
          (case netip_ParsePrefix (ip6t L) (pc_TunnelIp cfg @ CHR ''/'' # bits) of
             None \<Rightarrow> Panic ''netip.ParsePrefix''
           | Some ip \<Rightarrow> Ret (LoginSuccessful, n\<lparr>node_id := pc_PeerId cfg, node_ip := ip, loggedIn := True\<rparr>))
      | _ \<Rightarrow> Panic ''index out of range'')"
  by (auto simp: use_config_def Let_def split: list.split option.split)

text \<open>
  \<open>Login\<close> of the node's service. It succeeds exactly when the
  controller answers with a configuration whose prefix has a slash and whose address is
  one; then the node's id, address and prefix length are those of the answer and it is
  logged in. Of the refusals only "unauthenticated" is handled (it yields the data for the
  browser login); every other gRPC status - disabled, denied, not found, unavailable -
  crashes the node, and so does a configuration that does not parse.
\<close>

theorem Login_outcome:
  "case reply of
     LoginReply cfg \<Rightarrow>
       (if \<exists>net bits rest ip. split_char (CHR ''/'') (pc_Prefix cfg) = net # bits # rest \<and>
           netip_ParsePrefix (ip6t L) (pc_TunnelIp cfg @ CHR ''/'' # bits) = Some ip
        then \<exists>n'. node_Login L reply pkce n = Ret (LoginSuccessful, n') \<and> loggedIn n' \<and> node_id n' = pc_PeerId cfg \<and>
          netip_ParsePrefix (ip6t L) (pc_TunnelIp cfg @ CHR ''/'' # (split_char (CHR ''/'') (pc_Prefix cfg) ! 1)) = Some (node_ip n') \<and>
          heap n' = heap n \<and> maps_id n' = maps_id n
        else is_panic (node_Login L reply pkce n))
   | LoginStatus c \<Rightarrow>
       (if c = Some Unauthenticated
        then node_Login L reply pkce n = Ret (case pkce of None \<Rightarrow> LoginError | Some info \<Rightarrow> NeedAccessToken info, n)
        else is_panic (node_Login L reply pkce n))
   | LoginOtherError \<Rightarrow> node_Login L reply pkce n = Ret (LoginError, n)"
proof (cases reply)
  case (LoginReply cfg)
  then show ?thesis
    by (auto simp: node_Login_def use_config_cases split: list.split option.split)
next
  case (LoginStatus c)
  then show ?thesis by (simp add: node_Login_def nil_deref_def)
qed (simp add: node_Login_def)

end
