(* ===== verification/NodeSetup.thy ===== *)
theory NodeSetup
  imports NodeProperties
begin

text \<open>
  The life of a node around its packet paths: creating it (\<open>NewNode\<close> of
  src/node/node.go, the keys and key files of src/node/helpers.go), starting it and
  receiving the controller's updates (\<open>StartUpdateStream\<close> of src/node/grpcclient.go), the
  reading loops of src/node/packets.go. The theory shows that a key file that was
  written loads again, that updates are handled in the order in which they arrive until
  the stream ends, what \<open>Up\<close> leaves behind, and when a node runs that is not logged in.
\<close>

section \<open>Keys\<close>

record dh_key =
  dhPrivate :: bytes
  dhPublic :: bytes

record key_file =
  kfPublic :: string
  kfPrivate :: string

text \<open>The YAML library: text of a key record and back.\<close>

record yaml =
  yaml_Encode :: "key_file \<Rightarrow> bytes option"
  yaml_Decode :: "bytes \<Rightarrow> key_file option"

definition yaml_ok :: "yaml \<Rightarrow> bool" where
  "yaml_ok y \<longleftrightarrow> (\<forall>k. \<exists>bs. yaml_Encode y k = Some bs \<and> yaml_Decode y bs = Some k)"

datatype load_error = KeyFileNotFound | KeyFileSyntax | BadPrivateKey | BadPublicKey

text \<open>
  The state is the content of the key file, \<open>None\<close> when it does not exist. \<open>Create\<close>
  truncates; a failed encoding leaves the empty file.
\<close>

definition StoreKeyToDisk :: "yaml \<Rightarrow> bool \<Rightarrow> dh_key \<Rightarrow> bytes option \<Rightarrow> bool \<times> bytes option" where
  "StoreKeyToDisk y can_create kp file =
     (if \<not> can_create then (False, file)
      else let key = \<lparr>kfPublic = EncodeToString (dhPublic kp), kfPrivate = EncodeToString (dhPrivate kp)\<rparr>
           in case yaml_Encode y key of None \<Rightarrow> (False, Some []) | Some bs \<Rightarrow> (True, Some bs))"

definition LoadKeyFromDisk :: "yaml \<Rightarrow> bytes option \<Rightarrow> load_error + dh_key" where
  "LoadKeyFromDisk y file =
     (case file of
        None \<Rightarrow> Inl KeyFileNotFound
      | Some bs \<Rightarrow>
          (case yaml_Decode y bs of
             None \<Rightarrow> Inl KeyFileSyntax
           | Some key \<Rightarrow>
               (case DecodeString (kfPrivate key) of
                  None \<Rightarrow> Inl BadPrivateKey
                | Some priv \<Rightarrow>
                    (case DecodeString (kfPublic key) of
                       None \<Rightarrow> Inl BadPublicKey
                     | Some pub \<Rightarrow> Inr \<lparr>dhPrivate = priv, dhPublic = pub\<rparr>))))"

text \<open>\<open>GenerateNewKeypair\<close> passes on what the cipher suite returns.\<close>

definition GenerateNewKeypair :: "'kp option \<Rightarrow> 'kp option" where
  "GenerateNewKeypair generated = generated"

section \<open>Creating a node\<close>

text \<open>The local address of a UDP socket towards a public host, as text, if it can be opened.\<close>

definition GetPreferredOutboundAddr :: "ip6_text \<Rightarrow> string option \<Rightarrow> Addr \<times> bool" where
  "GetPreferredOutboundAddr ip6 local =
     (case local of
        None \<Rightarrow> (NoAddr, False)
      | Some s \<Rightarrow> (case netip_ParseAddr ip6 s of None \<Rightarrow> (NoAddr, False) | Some a \<Rightarrow> (a, True)))"

record 'kp new_io =
  generated :: "'kp option"
  protected_id :: "string option"
  os_hostname :: "string option"
  dialled :: bool
  local_text :: "string option"

datatype new_error = KeypairError | MachineIDError | DialError

record ('hs, 'cs, 'kp) new_node =
  made :: "('hs, 'cs, 'kp) Node"
  port :: u16
  prefOutboundIP :: Addr

definition blank_node :: "'kp \<Rightarrow> string \<Rightarrow> string \<Rightarrow> ('hs, 'cs, 'kp) Node" where
  "blank_node kp m h =
     \<lparr>heap = [], maps_id = [], maps_ip = [],
      nworld = \<lparr>pools = \<lparr>InboundBuffers = [], OutboundBuffers = [], IBuffersInUse = 0, OBuffersInUse = 0\<rparr>, udp_out = [], tun_out = [], punches = []\<rparr>,
      node_id = 0, node_ip = \<lparr>pAddr = NoAddr, pBits = 0\<rparr>, discoveredEndpoint = [], node_keyPair = kp,
      node_running = False, loggedIn = False, initialized = False, machineID = m, node_hostname = h, endpoint_rpcs = [], stops = []\<rparr>"

text \<open>
  When the host name is unknown, the default name is only logged: the node's name
  stays empty.
\<close>

definition NewNode :: "ip6_text \<Rightarrow> u16 \<Rightarrow> 'kp new_io \<Rightarrow> new_error + ('hs, 'cs, 'kp) new_node" where
  "NewNode ip6 p io =
     (case GenerateNewKeypair (generated io) of
        None \<Rightarrow> Inl KeypairError
      | Some kp \<Rightarrow>
          (case protected_id io of
             None \<Rightarrow> Inl MachineIDError
           | Some m \<Rightarrow>
               let h = (case os_hostname io of None \<Rightarrow> [] | Some host \<Rightarrow> hd (split_char (CHR ''.'') host))
               in if \<not> dialled io then Inl DialError
                  else Inr \<lparr>made = blank_node kp m h, port = p,
                         prefOutboundIP = fst (GetPreferredOutboundAddr ip6 (local_text io))\<rparr>))"

section \<open>Reading loops\<close>

datatype udp_read = Datagram bytes UDPAddr | ReadError | ReadClosed

fun ReadUDPPackets ::
  "('hs, 'cs, 'kp) node_libs \<Rightarrow> udp_read list \<Rightarrow> ('hs, 'cs, 'kp) Node \<Rightarrow> (bool \<times> ('hs, 'cs, 'kp) Node) outcome" where
  "ReadUDPPackets L [] n = Ret (False, n)"
| "ReadUDPPackets L (ReadClosed # rs) n = obind (ReadUDPPackets_step L None n) (\<lambda>n. Ret (True, n))"
| "ReadUDPPackets L (ReadError # rs) n = obind (ReadUDPPackets_step L None n) (ReadUDPPackets L rs)"
| "ReadUDPPackets L (Datagram d a # rs) n = obind (ReadUDPPackets_step L (Some (d, a)) n) (ReadUDPPackets L rs)"

datatype tun_read = Packet bytes | TunError | TunClosed

fun ReadTunPackets ::
  "('hs, 'cs, 'kp) node_libs \<Rightarrow> tun_read list \<Rightarrow> ('hs, 'cs, 'kp) Node \<Rightarrow> (bool \<times> ('hs, 'cs, 'kp) Node) outcome" where
  "ReadTunPackets L [] n = Ret (False, n)"
| "ReadTunPackets L (TunClosed # rs) n = obind (ReadTunPackets_step L None n) (\<lambda>n. Ret (True, n))"
| "ReadTunPackets L (TunError # rs) n = obind (ReadTunPackets_step L None n) (ReadTunPackets L rs)"
| "ReadTunPackets L (Packet p # rs) n = obind (ReadTunPackets_step L (Some p) n) (ReadTunPackets L rs)"

section \<open>What starting does\<close>

text \<open>The outcome of \<open>Start\<close> on every branch, up to the first update.\<close>

lemma node_Start_cases:
  "node_Start L io early n =
     (if \<not> loggedIn n \<or> node_running n then Ret (False, n)
      else if \<not> new_conn io \<or> \<not> new_tun io then Ret (False, n\<lparr>initialized := False\<rparr>)
      else if \<not> configure_ip io (node_ip n) then Ret (False, n\<lparr>initialized := True\<rparr>)
      else case stun_server io of
             None \<Rightarrow> Ret (False, n\<lparr>initialized := True\<rparr>)
           | Some a \<Rightarrow>
               (case first_update io of
                  None \<Rightarrow> Panic ''fatal''
                | Some u \<Rightarrow>
                    obind (run_events (HandleUpdate L) (u # early) (n\<lparr>initialized := True,
                       nworld := send_udp (binding_request io) (Some a) (nworld n)\<rparr>)) (\<lambda>n.
                    Ret (True, n\<lparr>node_running := True\<rparr>))))"
  by (simp add: node_Start_def node_Run_def sendStunRequest_def StartUpdateStream_def obind_assoc split: option.split)

lemma receive_loop_stops [simp]:
  "receive_loop L ((True, r) # rs) n = Ret (True, n)"
  "receive_loop L ((c, RecvEOF) # rs) n = Ret (True, n)"
  "receive_loop L ((c, RecvError) # rs) n = Ret (True, n)"
  by (cases c; simp)+

lemma receive_loop_updates:
  "receive_loop L (map (\<lambda>u. (False, Received u)) us @ rs) = (\<lambda>n. obind (run_events (HandleUpdate L) us n) (receive_loop L rs))"
proof (induction us)
  case (Cons u us)
  show ?case by (rule ext) (simp add: obind_assoc Cons.IH)
qed (simp add: fun_eq_iff)

section \<open>The life of a node\<close>

text \<open>
  Everything that happens to a node: the requests of its service, the controller's
  updates, one packet from the socket or the tunnel, the ticker, and the goroutines that
  stop its peers. \<open>NUp\<close> comes with the first update and with those that the goroutine of the stream handles
  before the node is marked as running.
\<close>

datatype life_event =
    NLogin login_reply "pb_PKCEAuthInfo option"
  | NUp start_io "pb_UpdateResponse list"
  | NDown
  | NUpdate pb_UpdateResponse
  | NUdp "(bytes \<times> UDPAddr) option"
  | NTun "bytes option"
  | NTick bool start_io
  | NStop nat

fun life_step ::
  "('hs, 'cs, 'kp) node_libs \<Rightarrow> life_event \<Rightarrow> ('hs, 'cs, 'kp) Node \<Rightarrow> ('hs, 'cs, 'kp) Node outcome" where
  "life_step L (NLogin r pkce) n = obind (node_Login L r pkce n) (\<lambda>(_, n). Ret n)"
| "life_step L (NUp io early) n = obind (Up_during L io early n) (\<lambda>(_, n). Ret n)"
| "life_step L NDown n = Ret (snd (Down n))"
| "life_step L (NUpdate u) n = HandleUpdate L u n"
| "life_step L (NUdp d) n = ReadUDPPackets_step L d n"
| "life_step L (NTun p) n = ReadTunPackets_step L p n"
| "life_step L (NTick c io) n = Ret (stunRoutine_tick c io n)"
| "life_step L (NStop a) n = run_stop a n"

definition same_flags :: "('hs, 'cs, 'kp) Node \<Rightarrow> ('hs, 'cs, 'kp) Node \<Rightarrow> bool" where
  "same_flags n n' \<longleftrightarrow> node_running n' = node_running n \<and> loggedIn n' = loggedIn n \<and> initialized n' = initialized n \<and>
     node_id n' = node_id n \<and> node_ip n' = node_ip n"

lemma same_flags_refl [simp]: "same_flags n n"
  by (simp add: same_flags_def)

lemma same_flags_trans: "same_flags n m \<Longrightarrow> same_flags m k \<Longrightarrow> same_flags n k"
  by (simp add: same_flags_def)

lemma same_flags_updates [simp]:
  "same_flags n (m\<lparr>heap := h\<rparr>) = same_flags n m" "same_flags n (m\<lparr>nworld := w\<rparr>) = same_flags n m"
  "same_flags n (m\<lparr>maps_id := x\<rparr>) = same_flags n m" "same_flags n (m\<lparr>maps_ip := y\<rparr>) = same_flags n m"
  "same_flags n (drop_in b m) = same_flags n m" "same_flags n (drop_out o' m) = same_flags n m"
  "same_flags (n\<lparr>heap := h\<rparr>) m = same_flags n m" "same_flags (n\<lparr>nworld := w\<rparr>) m = same_flags n m"
  "same_flags n (m\<lparr>stops := s\<rparr>) = same_flags n m"
  "same_flags n (m\<lparr>discoveredEndpoint := e\<rparr>) = same_flags n m" "same_flags n (m\<lparr>endpoint_rpcs := r\<rparr>) = same_flags n m"
  by (simp_all add: same_flags_def drop_in_def drop_out_def)

lemma with_peer_flags: "with_peer a f n = Ret n' \<Longrightarrow> same_flags n n'"
  by (auto simp: with_peer_def obind_eq_Ret)

lemma AddPeer_flags: "same_flags n (snd (AddPeer L info n))"
  by (simp add: AddPeer_def Let_def split: prod.split bool.split option.split)

lemma start_peer_flags: "start_peer a n = Ret (ok, n') \<Longrightarrow> same_flags n n'"
  by (auto simp: start_peer_def obind_eq_Ret)

lemma handleInitialSync_flags: "handleInitialSync L ps n = Ret n' \<Longrightarrow> same_flags n n'"
proof (induction ps arbitrary: n)
  case (Cons p ps)
  from Cons.prems obtain a m m' where am: "AddPeer L p n = (Some a, m)" "start_peer a m = Ret (True, m')"
    "handleInitialSync L ps m' = Ret n'"
    by (auto simp: obind_eq_Ret split: prod.splits option.splits if_splits)
  have "same_flags n m" using AddPeer_flags [of n L p] am(1) by simp
  with start_peer_flags [OF am(2)] Cons.IH [OF am(3)] show ?case by (blast intro: same_flags_trans)
qed simp

lemma handleInitialSync_world: "handleInitialSync L ps n = Ret n' \<Longrightarrow> nworld n' = nworld n"
proof (induction ps arbitrary: n)
  case (Cons p ps)
  from Cons.prems obtain a m m' where am: "AddPeer L p n = (Some a, m)" "start_peer a m = Ret (True, m')"
    "handleInitialSync L ps m' = Ret n'"
    by (auto simp: obind_eq_Ret split: prod.splits option.splits if_splits)
  have "nworld m = nworld n" using am(1) by (auto simp: AddPeer_def Let_def split: prod.splits bool.splits option.splits)
  moreover have "nworld m' = nworld m" using am(2) by (auto simp: start_peer_def obind_eq_Ret)
  ultimately show ?case using Cons.IH [OF am(3)] by simp
qed simp

lemma handlePeerConnectUpdate_flags:
  assumes "handlePeerConnectUpdate L u n = Ret n'"
  shows "same_flags n n'"
proof -
  have add: "same_flags n m'" if "AddPeer L rp n = (Some a, m)" "start_peer a m = Ret (ok, m')" for rp a m ok m'
    using AddPeer_flags [of n L rp] start_peer_flags [OF that(2)] that(1) by (auto intro: same_flags_trans)
  have none: "same_flags n m" if "AddPeer L rp n = (None, m)" for rp m
    using AddPeer_flags [of n L rp] that by simp
  show ?thesis
    using assms
    by (auto simp: handlePeerConnectUpdate_def obind_eq_Ret nil_deref_def dest: add none
        split: option.splits if_splits list.splits prod.splits)
qed

lemma run_stop_flags: "run_stop a n = Ret n' \<Longrightarrow> same_flags n n'"
  by (auto simp: run_stop_def same_flags_def split: if_splits dest!: with_peer_flags)

lemma HandleUpdate_flags:
  assumes "HandleUpdate L u n = Ret n'"
  shows "if ur_UpdateType u = LOGOUT
    then \<not> loggedIn n' \<and> (node_running n' \<longrightarrow> node_running n \<and> \<not> initialized n) \<and> node_ip n' = node_ip n \<and>
      initialized n' = initialized n
    else same_flags n n'"
proof (cases "ur_UpdateType u")
  case LOGOUT
  with assms show ?thesis by (auto simp: HandleUpdate_def handleLogout_def node_Stop_def StopAllPeers_def split: if_splits)
qed (use assms in \<open>auto simp: HandleUpdate_def handlePeerPunchRequest_def nil_deref_def
      dest: handleInitialSync_flags handlePeerConnectUpdate_flags split: option.splits\<close>)

lemma OnUDPPacket_flags: "OnUDPPacket L b n = Ret n' \<Longrightarrow> same_flags n n'"
  by (auto simp: OnUDPPacket_def Let_def handleStunMessage_def dest!: with_peer_flags
      split: prod.splits option.splits if_splits)

lemma OnTunnelPacket_flags: "OnTunnelPacket L b n = Ret n' \<Longrightarrow> same_flags n n'"
  by (auto simp: OnTunnelPacket_def Let_def dest!: with_peer_flags split: option.splits if_splits)

lemma Read_flags:
  "ReadUDPPackets_step L d n = Ret n' \<Longrightarrow> same_flags n n'"
  "ReadTunPackets_step L p n = Ret n' \<Longrightarrow> same_flags n n'"
  by (auto simp: ReadUDPPackets_step_def ReadTunPackets_step_def Let_def dest!: OnUDPPacket_flags OnTunnelPacket_flags
      split: prod.splits option.splits)

text \<open>
  \<open>dropped\<close>: whether a node may run without being logged in, because an update that arrived while it
  started logged it out.
\<close>

definition life_ok :: "bool \<Rightarrow> ('hs, 'cs, 'kp) Node \<Rightarrow> bool" where
  "life_ok dropped n \<longleftrightarrow>
     (node_running n \<longrightarrow> initialized n \<and> (dropped \<or> loggedIn n)) \<and> (loggedIn n \<longrightarrow> valid_Prefix (node_ip n))"

definition logs_out :: "life_event \<Rightarrow> bool" where
  "logs_out e \<longleftrightarrow> (\<exists>io early u. e = NUp io early \<and> (first_update io = Some u \<or> u \<in> set early) \<and> ur_UpdateType u = LOGOUT)"

definition ip6_sane :: "ip6_text \<Rightarrow> bool" where
  "ip6_sane ip6 \<longleftrightarrow> (\<forall>t. parse6 ip6 t \<noteq> Some NoAddr)"

lemma ParsePrefix_valid: "ip6_sane ip6 \<Longrightarrow> netip_ParsePrefix ip6 s = Some p \<Longrightarrow> valid_Prefix p"
  using ParseAddr_not_zero [of ip6]
  by (auto simp: netip_ParsePrefix_def ip6_sane_def valid_Prefix_def Let_def split: if_splits option.splits)

lemma life_ok_same: "life_ok d n \<Longrightarrow> same_flags n n' \<Longrightarrow> life_ok d n'"
  by (simp add: life_ok_def same_flags_def)

lemma node_Login_life:
  assumes "ip6_sane (ip6t L)" and "life_ok d n" and "node_Login L r pkce n = Ret (x, n')"
  shows "life_ok d n'"
  using assms ParsePrefix_valid [OF assms(1)]
  by (auto simp: node_Login_def use_config_def nil_deref_def life_ok_def Let_def
      split: login_reply.splits if_splits option.splits)

lemma HandleUpdate_life: "life_ok d n \<Longrightarrow> HandleUpdate L u n = Ret n' \<Longrightarrow> life_ok d n'"
  using HandleUpdate_flags [of L u n n'] by (auto simp: life_ok_def same_flags_def split: if_splits)

text \<open>Updates while a node starts: only a logout among them logs it out.\<close>

lemma early_updates:
  assumes "run_events (HandleUpdate L) us n = Ret n'" and "\<not> node_running n"
  shows "node_ip n' = node_ip n \<and> initialized n' = initialized n \<and> (loggedIn n' \<longrightarrow> loggedIn n) \<and>
     (loggedIn n \<and> \<not> loggedIn n' \<longrightarrow> (\<exists>u \<in> set us. ur_UpdateType u = LOGOUT))"
  using assms
proof (induction us arbitrary: n)
  case (Cons u us)
  from Cons.prems(1) obtain m where m: "HandleUpdate L u n = Ret m" "run_events (HandleUpdate L) us m = Ret n'"
    by (auto simp: obind_eq_Ret)
  note F = HandleUpdate_flags [OF m(1)]
  then have "\<not> node_running m" using Cons.prems(2) by (auto simp: same_flags_def split: if_splits)
  from Cons.IH [OF m(2) this] F show ?case by (auto simp: same_flags_def split: if_splits)
qed simp

lemma logged_out_stays:
  assumes "run_events (HandleUpdate L) us n = Ret n'" and "u \<in> set us" and "ur_UpdateType u = LOGOUT"
  shows "\<not> loggedIn n'"
proof -
  have off: "\<not> loggedIn m" if "run_events (HandleUpdate L) vs k = Ret m" "\<not> loggedIn k" for vs k m
    using that
  proof (induction vs arbitrary: k)
    case (Cons v vs)
    then obtain j where j: "HandleUpdate L v k = Ret j" "run_events (HandleUpdate L) vs j = Ret m" by (auto simp: obind_eq_Ret)
    have "\<not> loggedIn j" using HandleUpdate_flags [OF j(1)] Cons.prems(2) by (auto simp: same_flags_def split: if_splits)
    with Cons.IH [OF j(2)] show ?case .
  qed simp
  obtain vs ws where us: "us = vs @ u # ws" using assms(2) by (auto simp: in_set_conv_decomp)
  then obtain m k where "HandleUpdate L u m = Ret k" "run_events (HandleUpdate L) ws k = Ret n'"
    using assms(1) by (auto simp: run_events_append obind_eq_Ret)
  with off HandleUpdate_flags [of L u m k] assms(3) show ?thesis by simp
qed

lemma Up_logged_out:
  assumes "loggedIn n" and "\<not> node_running n" and "logs_out (NUp io early)"
    and "Up_during L io early n = Ret (Some ''node is running'', n')"
  shows "node_running n' \<and> \<not> loggedIn n'"
proof -
  have "node_Start L io early n = Ret (True, n')"
    using assms(4) by (auto simp: Up_during_def obind_eq_Ret split: if_splits)
  then obtain a u m where u: "first_update io = Some u" "n' = m\<lparr>node_running := True\<rparr>"
      "run_events (HandleUpdate L) (u # early) (n\<lparr>initialized := True, nworld := send_udp (binding_request io) (Some a) (nworld n)\<rparr>) = Ret m"
    by (auto simp: node_Start_cases simp del: run_events.simps simp add: obind_eq_Ret split: if_splits option.splits)
  obtain v where "v \<in> set (u # early)" "ur_UpdateType v = LOGOUT" using assms(3) u(1) by (auto simp: logs_out_def)
  from logged_out_stays [OF u(3) this] u(2) show ?thesis by simp
qed

lemma Up_life:
  assumes "life_ok d n" and "d \<or> \<not> logs_out (NUp io early)" and "Up_during L io early n = Ret (x, n')"
  shows "life_ok d n'"
proof -
  obtain ok where s: "node_Start L io early n = Ret (ok, n')" using assms(3) by (auto simp: Up_during_def obind_eq_Ret)
  show ?thesis
  proof (cases ok)
    case False
    with s assms(1) show ?thesis
      by (auto simp: node_Start_cases obind_eq_Ret life_ok_def split: if_splits option.splits)
  next
    case True
    then obtain a u m where u: "first_update io = Some u" "n' = m\<lparr>node_running := True\<rparr>" "loggedIn n" "\<not> node_running n"
      "run_events (HandleUpdate L) (u # early) (n\<lparr>initialized := True, nworld := send_udp (binding_request io) (Some a) (nworld n)\<rparr>) = Ret m"
      using s by (auto simp: node_Start_cases simp del: run_events.simps simp add: obind_eq_Ret split: if_splits option.splits)
    have "\<exists>v \<in> set (u # early). ur_UpdateType v = LOGOUT \<Longrightarrow> logs_out (NUp io early)"
      using u(1) by (auto simp: logs_out_def)
    with early_updates [OF u(5)] assms(1,2) u(2-4) show ?thesis by (auto simp: life_ok_def)
  qed
qed

lemma life_step_ok:
  assumes "ip6_sane (ip6t L)" and "life_ok d n" and "d \<or> \<not> logs_out e" and "life_step L e n = Ret n'"
  shows "life_ok d n'"
proof (cases e)
  case (NLogin r pkce)
  with assms node_Login_life show ?thesis by (auto simp: obind_eq_Ret)
next
  case (NUp io early)
  with assms(4) obtain x where "Up_during L io early n = Ret (x, n')" by (auto simp: obind_eq_Ret)
  with Up_life [OF assms(2)] assms(3) NUp show ?thesis by blast
next
  case NDown
  with assms(2,4) show ?thesis by (auto simp: Down_def node_Stop_def StopAllPeers_def life_ok_def split: if_splits)
next
  case (NUpdate u)
  with assms(4) HandleUpdate_life [OF assms(2)] show ?thesis by simp
next
  case (NTick c io)
  with assms(2,4) show ?thesis
    by (auto simp: stunRoutine_tick_def sendStunRequest_def life_ok_def split: option.splits if_splits)
next
  case (NUdp x)
  with assms(4) have "same_flags n n'" by (simp add: Read_flags)
  with assms(2) show ?thesis by (rule life_ok_same)
next
  case (NTun p)
  with assms(4) have "same_flags n n'" by (simp add: Read_flags)
  with assms(2) show ?thesis by (rule life_ok_same)
next
  case (NStop a)
  with assms(4) have "same_flags n n'" by (simp add: run_stop_flags)
  with assms(2) show ?thesis by (rule life_ok_same)
qed

interpretation life: preserves_when "life_step L" "\<lambda>e _. d \<or> \<not> logs_out e" "\<lambda>n. ip6_sane (ip6t L) \<and> life_ok d n" for L d
  using life_step_ok by unfold_locales blast

lemma allowed_events: "allowed (\<lambda>e _. P e) step es s" if "\<forall>e \<in> set es. P e"
  using that by (induction es arbitrary: s) (auto split: outcome.split)

section \<open>Properties\<close>

text \<open>
  C15 (invariant). Whatever requests, updates and packets a new node gets, in any
  order, and whatever arrives while it starts: it runs only while its socket and tunnel exist, and while
  it is logged in its overlay address is a valid prefix. It runs without being
  logged in only if some \<open>Up\<close> met a forced logout before it marked the node as running; and such an
  \<open>Up\<close> does just that, where the system works and the other updates return: it answers that the node is running, after the logout
  took the login back and found nothing to stop.
\<close>

theorem running_nodes_are_logged_in:
  assumes "NewNode ip6 pt nio = Inr nn" and "ip6_sane (ip6t L)" and "run_events (life_step L) es (made nn) = Ret n"
  shows "(node_running n \<longrightarrow> initialized n) \<and> (loggedIn n \<longrightarrow> valid_Prefix (node_ip n)) \<and>
     (node_running n \<and> \<not> loggedIn n \<longrightarrow> (\<exists>e \<in> set es. logs_out e)) \<and>
     (\<forall>io early n'. loggedIn n \<and> \<not> node_running n \<and> logs_out (NUp io early) \<and>
        Up_during L io early n = Ret (Some ''node is running'', n') \<longrightarrow> node_running n' \<and> \<not> loggedIn n')"
proof -
  have new: "life_ok d (made nn)" for d
    using assms(1) by (auto simp: NewNode_def blank_node_def life_ok_def Let_def split: option.splits if_splits)
  have dropped: "life_ok True n"
    using life.run_inv [of L True "made nn" es n] assms(2,3) new
      allowed_events [of es "\<lambda>e. True \<or> \<not> logs_out e" "life_step L" "made nn"] by simp
  have clean: "life_ok False n" if "\<forall>e \<in> set es. \<not> logs_out e"
    using life.run_inv [of L False "made nn" es n] assms(2,3) new
      allowed_events [of es "\<lambda>e. \<not> logs_out e" "life_step L" "made nn"] that by simp
  have out: "node_running n' \<and> \<not> loggedIn n'"
    if "loggedIn n" "\<not> node_running n" "logs_out (NUp io early)" "Up_during L io early n = Ret (Some ''node is running'', n')" for io early n'
    using Up_logged_out [OF that(1-4)] .
  show ?thesis using dropped clean out by (auto simp: life_ok_def)
qed

text \<open>A new node, its login, and a start during which the controller logs it out.\<close>

definition toy_new_io :: "unit new_io" where
  "toy_new_io = \<lparr>generated = Some (), protected_id = Some ''m'', os_hostname = Some ''box.lan'', dialled = True, local_text = None\<rparr>"

definition toy_start_io :: start_io where
  "toy_start_io = \<lparr>new_conn = True, new_tun = True, configure_ip = (\<lambda>_. True), stun_server = Some (udp_addr 9),
     binding_request = [0, 1], first_update = Some toy_init\<rparr>"

lemma toy_ip6_sane: "ip6_sane (ip6t toy_libs)"
  by (simp add: ip6_sane_def toy_libs_def)

lemma toy_new_node:
  obtains nn :: "(bool \<times> nat, u64, unit) new_node" where
    "NewNode (ip6t toy_libs) 0 toy_new_io = Inr nn" "made nn = blank_node () ''m'' ''box''"
  by (rule that [of "\<lparr>made = blank_node () ''m'' ''box'', port = 0, prefOutboundIP = NoAddr\<rparr>"])
    (simp_all add: NewNode_def GenerateNewKeypair_def toy_new_io_def GetPreferredOutboundAddr_def)

definition toy_config :: pb_PeerConfig where
  "toy_config = \<lparr>pc_PeerId = 5, pc_TunnelIp = ''10.0.0.1'', pc_Prefix = ''10.0.0.0/24''\<rparr>"

definition empty_init :: pb_UpdateResponse where
  "empty_init = \<lparr>ur_UpdateType = INIT, ur_PeerList = Some \<lparr>pl_Peers = [], pl_Count = 0\<rparr>, ur_PunchEndpoint = []\<rparr>"

definition toy_logout :: pb_UpdateResponse where
  "toy_logout = \<lparr>ur_UpdateType = LOGOUT, ur_PeerList = None, ur_PunchEndpoint = []\<rparr>"

definition toy_life :: "life_event list" where
  "toy_life = [NLogin (LoginReply toy_config) None, NUp (toy_start_io\<lparr>first_update := Some empty_init\<rparr>) [toy_logout]]"

lemma toy_config_parses:
  "split_char (CHR ''/'') ''10.0.0.0/24'' = [''10.0.0.0'', ''24'']"
  "netip_ParsePrefix ip6 ''10.0.0.1/24'' = Some \<lparr>pAddr = Addr4 0x0A000001, pBits = 24\<rparr>"
proof -
  show "split_char (CHR ''/'') ''10.0.0.0/24'' = [''10.0.0.0'', ''24'']" by code_simp
  have "string4 0x0A000001 @ CHR ''/'' # dec_string 24 = ''10.0.0.1/24''" by code_simp
  with ParsePrefix_string4 [of 24 ip6 "0x0A000001"] show "netip_ParsePrefix ip6 ''10.0.0.1/24'' = Some \<lparr>pAddr = Addr4 0x0A000001, pBits = 24\<rparr>"
    by simp
qed

theorem running_nodes_are_logged_in_witness:
  "\<exists>n m :: (bool \<times> nat, u64, unit) Node. run_events (life_step toy_libs) [hd toy_life] (blank_node () ''m'' ''box'') = Ret n \<and>
     loggedIn n \<and> valid_Prefix (node_ip n) \<and>
     run_events (life_step toy_libs) toy_life (blank_node () ''m'' ''box'') = Ret m \<and> node_running m \<and> \<not> loggedIn m"
proof -
  obtain nn :: "(bool \<times> nat, u64, unit) new_node" where nn: "NewNode (ip6t toy_libs) 0 toy_new_io = Inr nn"
    "made nn = blank_node () ''m'' ''box''" by (rule toy_new_node)
  let ?n = "(made nn)\<lparr>node_id := 5, node_ip := \<lparr>pAddr = Addr4 0x0A000001, pBits = 24\<rparr>, loggedIn := True\<rparr>"
  have run: "run_events (life_step toy_libs) [hd toy_life] (made nn) = Ret ?n"
    using toy_config_parses by (simp add: toy_life_def node_Login_def use_config_def toy_config_def)
  have n: "loggedIn ?n" "\<not> node_running ?n" by (simp_all add: nn(2) blank_node_def)
  have o': "logs_out (NUp (toy_start_io\<lparr>first_update := Some empty_init\<rparr>) [toy_logout])"
    by (auto simp: logs_out_def toy_logout_def)
  have "\<exists>m. Up_during toy_libs (toy_start_io\<lparr>first_update := Some empty_init\<rparr>) [toy_logout] ?n = Ret (Some ''node is running'', m)"
    using n by (simp add: Up_during_def node_Start_cases toy_start_io_def empty_init_def toy_logout_def HandleUpdate_def)
  then obtain m where m: "Up_during toy_libs (toy_start_io\<lparr>first_update := Some empty_init\<rparr>) [toy_logout] ?n = Ret (Some ''node is running'', m)"
    by blast
  have "life_step toy_libs (NUp (toy_start_io\<lparr>first_update := Some empty_init\<rparr>) [toy_logout]) ?n = Ret m" using m by simp
  then have "run_events (life_step toy_libs) ([hd toy_life] @ tl toy_life) (made nn) = Ret m"
    unfolding run_events_append run by (simp add: toy_life_def)
  then have all: "run_events (life_step toy_libs) toy_life (made nn) = Ret m" by (simp add: toy_life_def)
  note T = running_nodes_are_logged_in [OF nn(1) toy_ip6_sane run]
  from T n o' m have "node_running m \<and> \<not> loggedIn m" "valid_Prefix (node_ip ?n)" by blast+
  with run all n show ?thesis unfolding nn(2) by blast
qed

text \<open>
  C16 (functional). \<open>Up\<close> on a logged-in node that is stopped, on a working system:
  it sends one binding request to the STUN server, takes the peers of the initial
  list over in order, each running and without a session, and reports that the node
  is running. It sends nothing else and keeps the peers it knew.
\<close>

theorem Up_starts_node:
  assumes "loggedIn n" and "\<not> node_running n" and "new_conn io" and "new_tun io" and "configure_ip io (node_ip n)"
    and "stun_server io = Some a"
    and "first_update io = Some \<lparr>ur_UpdateType = INIT, ur_PeerList = Some l, ur_PunchEndpoint = e\<rparr>"
    and "list_all (peer_parses L) (pl_Peers l)"
  shows "\<exists>n'. Up L io n = Ret (Some ''node is running'', n') \<and> node_running n' \<and> initialized n' \<and>
     udp_out (nworld n') = udp_out (nworld n) @ [(binding_request io, a)] \<and>
     heap n' = heap n @ map (\<lambda>rp. started (described L rp)) (pl_Peers l) \<and>
     map_of (maps_id n') = enumerated (length (heap n)) (map pb_Id (pl_Peers l)) (map_of (maps_id n)) \<and>
     node_id n' = node_id n \<and> node_ip n' = node_ip n"
proof -
  let ?m = "n\<lparr>initialized := True, nworld := send_udp (binding_request io) (Some a) (nworld n)\<rparr>"
  obtain n' where n': "handleInitialSync L (pl_Peers l) ?m = Ret n'"
    "heap n' = heap n @ map (\<lambda>rp. started (described L rp)) (pl_Peers l)"
    "map_of (maps_id n') = enumerated (length (heap n)) (map pb_Id (pl_Peers l)) (map_of (maps_id n))"
    using handleInitialSync_adds [OF assms(8), of ?m] by auto
  have "Up L io n = Ret (Some ''node is running'', n'\<lparr>node_running := True\<rparr>)"
    using assms n'(1) by (simp add: Up_def Up_during_def node_Start_cases HandleUpdate_def)
  moreover have "udp_out (nworld n') = udp_out (nworld n) @ [(binding_request io, a)]"
    using handleInitialSync_world [OF n'(1)] by (simp add: send_udp_def)
  ultimately show ?thesis using n'(2,3) handleInitialSync_flags [OF n'(1)] by (simp add: same_flags_def)
qed

theorem Up_starts_node_witness:
  "\<exists>n'. Up toy_libs toy_start_io (toy_node\<lparr>node_running := False\<rparr>) = Ret (Some ''node is running'', n') \<and>
     udp_out (nworld n') = udp_out quiet_world @ [([0, 1], udp_addr 9)]"
proof -
  have "list_all (peer_parses toy_libs) [toy_rp]"
    by (simp add: peer_parses_def toy_rp_parses) (simp add: toy_libs_def)
  then show ?thesis
    using Up_starts_node [of "toy_node\<lparr>node_running := False\<rparr>" toy_start_io "udp_addr 9"
        "\<lparr>pl_Peers = [toy_rp], pl_Count = 1\<rparr>" "[]" toy_libs]
    by (auto simp: toy_start_io_def toy_init_def toy_node_def)
qed

text \<open>
  C17 (refinement). The update stream of a node, its first message and its goroutine
  together, handles the received updates one after the other in the order in which they
  arrived, exactly once each, until the stream ends, fails or the run is cancelled; what
  comes after that is not handled.
\<close>

theorem stream_updates_in_order:
  assumes "c \<or> r = RecvEOF \<or> r = RecvError"
  shows "obind (StartUpdateStream L (Some u) n) (receive_loop L (map (\<lambda>u. (False, Received u)) us @ (c, r) # rs)) =
     obind (run_events (HandleUpdate L) (u # us) n) (\<lambda>n. Ret (True, n))"
proof -
  have "receive_loop L ((c, r) # rs) = (\<lambda>n. Ret (True, n))" using assms by (cases c) (auto simp: fun_eq_iff)
  then show ?thesis
    by (simp add: StartUpdateStream_def receive_loop_updates obind_assoc del: receive_loop.simps receive_loop_stops)
qed

theorem stream_updates_in_order_witness:
  "obind (StartUpdateStream toy_libs (Some toy_init) toy_node) (receive_loop toy_libs [(False, Received toy_init), (False, RecvEOF)]) =
     obind (run_events (HandleUpdate toy_libs) [toy_init, toy_init] toy_node) (\<lambda>n. Ret (True, n))"
  using stream_updates_in_order [of False RecvEOF toy_libs toy_init toy_node "[toy_init]" "[]"] by simp

text \<open>
  A key pair that was stored is loaded again, byte for byte; when
  the file cannot be created, nothing is lost and the error is reported.
\<close>

lemma key_file_roundtrip:
  assumes "yaml_ok y" and "StoreKeyToDisk y can_create kp file = (ok, file')"
  shows "if can_create then ok \<and> LoadKeyFromDisk y file' = Inr kp else \<not> ok \<and> file' = file"
proof -
  obtain bs where bs: "yaml_Encode y \<lparr>kfPublic = EncodeToString (dhPublic kp), kfPrivate = EncodeToString (dhPrivate kp)\<rparr> = Some bs"
    "yaml_Decode y bs = Some \<lparr>kfPublic = EncodeToString (dhPublic kp), kfPrivate = EncodeToString (dhPrivate kp)\<rparr>"
    using assms(1) unfolding yaml_ok_def by blast
  have d: "DecodeString (EncodeToString k) = Some k" for k
    using base64.dec_enc [of k] by (simp add: DecodeBase64Key_def)
  show ?thesis using assms(2) by (auto simp: StoreKeyToDisk_def LoadKeyFromDisk_def d bs)
qed

text \<open>A text format with the required law: marked characters, a zero, plain characters.\<close>

definition char_byte :: "char \<Rightarrow> u8" where "char_byte c = of_nat (of_char c)"

definition byte_char :: "u8 \<Rightarrow> char" where "byte_char b = char_of (unat b)"

lemma byte_char_byte [simp]: "byte_char (char_byte c) = c"
proof -
  have "of_char c < (256 :: nat)" by (rule nat_of_char_less_256)
  then show ?thesis by (simp add: byte_char_def char_byte_def unat_of_nat take_bit_eq_mod)
qed

fun toy_scan :: "bytes \<Rightarrow> (string \<times> string) option" where
  "toy_scan [] = None"
| "toy_scan (b # bs) =
     (if b = 0 then Some ([], map byte_char bs)
      else case bs of
             [] \<Rightarrow> None
           | c # cs \<Rightarrow> map_option (\<lambda>(p, q). (byte_char c # p, q)) (toy_scan cs))"

definition toy_yaml :: yaml where
  "toy_yaml = \<lparr>yaml_Encode = (\<lambda>k. Some (concat (map (\<lambda>c. [1, char_byte c]) (kfPublic k)) @ 0 # map char_byte (kfPrivate k))),
     yaml_Decode = (\<lambda>bs. map_option (\<lambda>(p, q). \<lparr>kfPublic = p, kfPrivate = q\<rparr>) (toy_scan bs))\<rparr>"

lemma toy_scan_marked:
  "toy_scan (concat (map (\<lambda>c. [1, char_byte c]) p) @ 0 # map char_byte q) = Some (p, q)"
  by (induction p) (simp_all add: comp_def)

lemma toy_yaml_ok: "yaml_ok toy_yaml"
  by (simp add: yaml_ok_def toy_yaml_def toy_scan_marked)

lemma key_file_roundtrip_example:
  "LoadKeyFromDisk toy_yaml (snd (StoreKeyToDisk toy_yaml True \<lparr>dhPrivate = [1, 2], dhPublic = [3]\<rparr> None)) =
     Inr \<lparr>dhPrivate = [1, 2], dhPublic = [3]\<rparr>"
  using key_file_roundtrip [OF toy_yaml_ok prod.collapse [symmetric], of True "\<lparr>dhPrivate = [1, 2], dhPublic = [3]\<rparr>" None]
  by simp

end
