(* ===== verification/Tunnel.thy ===== *)
theory Tunnel
  imports NodeProperties
begin

text \<open>
  Two peers and the network between them: the handshake of src/node/peer_transport.go
  run on both sides, and the packets that then travel from one tunnel device to the
  other. What is assumed of the Noise library is its documented behaviour, as the
  hypotheses \<open>cipher_law\<close> and \<open>handshake_law\<close>; what is assumed of the network is only
  that a datagram that arrives is one that was sent.
\<close>

section \<open>The laws of the Noise library\<close>

text \<open>
  A cipher state has a key and a nonce. Encryption works until the nonces are used
  up and advances the nonce; a state with the same key whose nonce is set to the one
  used recovers the message, whatever it decrypted before.
\<close>

definition opens :: "('hs, 'cs, 'kp) noise_lib \<Rightarrow> ('cs \<Rightarrow> 'k) \<Rightarrow> 'k \<Rightarrow> u64 \<Rightarrow> bytes \<Rightarrow> bytes \<Rightarrow> bool" where
  "opens l key k n ct m \<longleftrightarrow>
     (\<forall>r. key r = k \<longrightarrow> (\<exists>r'. cs_decrypt l (cs_SetNonce l n r) ct = (m, r', True) \<and> key r' = k))"

definition cipher_law :: "('hs, 'cs, 'kp) noise_lib \<Rightarrow> ('cs \<Rightarrow> 'k) \<Rightarrow> u64 \<Rightarrow> bool" where
  "cipher_law l key limit \<longleftrightarrow>
     (\<forall>s m. cs_Nonce l s < limit \<longrightarrow>
        (\<exists>ct s'. cs_encrypt l s m = Some (ct, s') \<and> key s' = key s \<and> cs_Nonce l s' = cs_Nonce l s + 1 \<and>
           opens l key (key s) (cs_Nonce l s) ct m))"

lemma obind_run_nil [simp]: "obind r (run_events f []) = r"
  by (cases r) simp_all

section \<open>Sending in a session\<close>

definition sending :: "('cs \<Rightarrow> 'k) \<Rightarrow> 'k \<Rightarrow> 'cs \<Rightarrow> UDPAddr \<Rightarrow> ('hs, 'cs) Peer \<Rightarrow> bool" where
  "sending key k s a p \<longleftrightarrow> running p \<and> hstate p = 2 \<and> inTransport p \<and> \<not> pendingLock p \<and> outbound p = [] \<and>
     outRoutine p = Idle \<and> tx p = Some s \<and> key s = k \<and> raddr p = Some a"

definition receiving :: "('cs \<Rightarrow> 'k) \<Rightarrow> 'k \<Rightarrow> ('hs, 'cs) Peer \<Rightarrow> bool" where
  "receiving key k p \<longleftrightarrow> running p \<and> \<not> pendingLock p \<and> inbound p = [] \<and> inRoutine p = Idle \<and>
     (\<exists>r. rx p = Some r \<and> key r = k) \<and> raddr p \<noteq> None"

text \<open>A data datagram from node \<open>i\<close> whose payload is \<open>m\<close> under the key \<open>k\<close>.\<close>

definition carries :: "('hs, 'cs, 'kp) noise_lib \<Rightarrow> ('cs \<Rightarrow> 'k) \<Rightarrow> 'k \<Rightarrow> u32 \<Rightarrow> bytes \<Rightarrow> bytes \<Rightarrow> bool" where
  "carries l key k i d m \<longleftrightarrow>
     (\<exists>n ct. d = wire \<lparr>Version = HeaderVersion, Type = MsgData, SenderIndex = i, Counter = n,
        Padding = HeaderPadding\<rparr> @ ct \<and> opens l key k n ct m)"

definition ob_contents :: "OutboundBuffer \<Rightarrow> bytes" where
  "ob_contents b = take (ob_size b) (backing (ob_packet b))"

text \<open>Queue one packet, take it from the channel, encrypt and send it.\<close>

definition send_events :: "OutboundBuffer \<Rightarrow> peer_event list" where
  "send_events b = [EvOutboundPacket b, EvOutbound, EvOutbound]"

definition receive_events :: "InboundBuffer \<Rightarrow> peer_event list" where
  "receive_events b = [EvInboundPacket b, EvInbound, EvInbound]"

lemma Outbound_packet_sends:
  assumes "cipher_law (lib e) key limit" and "tx p = Some s" and "cs_Nonce (lib e) s < limit" and "raddr p = Some a"
    and "out_ok b"
  obtains d s' w' where
    "Outbound_packet e b (p, w) = Ret (p\<lparr>tx := Some s', keepalive := Armed TimerKeepalive\<rparr>, w')"
    "carries (lib e) key (key s) (nid e) d (ob_contents b)" "udp_out w' = udp_out w @ [(d, a)]" "tun_out w' = tun_out w"
    "key s' = key s" "cs_Nonce (lib e) s' = cs_Nonce (lib e) s + 1"
    "\<exists>ct. cs_encrypt (lib e) s (ob_contents b) = Some (ct, s') \<and> length d = HeaderLen + length ct"
proof -
  define o' where "o' = encode_out MsgData (nid e) (cs_Nonce (lib e) s) b"
  have ok: "out_ok (snd o')" "ob_contents (snd o') = ob_contents b"
    using assms(5) encode_out_shape [of b MsgData "nid e" "cs_Nonce (lib e) s"] by (simp_all add: out_ok_def o'_def ob_contents_def)
  have f: "fst o' = wire \<lparr>Version = HeaderVersion, Type = MsgData, SenderIndex = nid e, Counter = cs_Nonce (lib e) s,
      Padding = HeaderPadding\<rparr>"
    using assms(5) encode_out_shape(4) [of b] by (simp add: out_ok_def o'_def)
  from assms(1,3) obtain ct s' where c: "cs_encrypt (lib e) s (ob_contents b) = Some (ct, s')" "key s' = key s"
    "cs_Nonce (lib e) s' = cs_Nonce (lib e) s + 1" "opens (lib e) key (key s) (cs_Nonce (lib e) s) ct (ob_contents b)"
    unfolding cipher_law_def by blast
  show thesis
  proof (rule that)
    show "Outbound_packet e b (p, w) = Ret (p\<lparr>tx := Some s', keepalive := Armed TimerKeepalive\<rparr>,
        put_out (snd o') (send_udp (fst o' @ ct) (Some a) w))"
      using assms(2,4) out_payload_Ret [OF ok(1)] c(1) ok(2)
      by (simp add: Outbound_packet_def case_prod_beta flip: o'_def) (simp add: ob_contents_def)
    show "carries (lib e) key (key s) (nid e) (fst o' @ ct) (ob_contents b)" using c(4) f by (auto simp: carries_def)
  qed (use c f in \<open>simp_all add: send_udp_def\<close>)
qed

lemma send_one:
  assumes "cipher_law (lib e) key limit" and "sending key k s a p" and "cs_Nonce (lib e) s < limit" and "out_ok b"
  obtains d s' p' w' where "run_events (peer_step e self) (send_events b) (p, w) = Ret (p', w')"
    "sending key k s' a p'" "cs_Nonce (lib e) s' = cs_Nonce (lib e) s + 1"
    "carries (lib e) key k (nid e) d (ob_contents b)" "udp_out w' = udp_out w @ [(d, a)]" "tun_out w' = tun_out w"
    "\<exists>ct. cs_encrypt (lib e) s (ob_contents b) = Some (ct, s') \<and> length d = HeaderLen + length ct"
proof -
  have s: "tx p = Some s" "raddr p = Some a" "key s = k" using assms(2) by (simp_all add: sending_def)
  have p: "p\<lparr>outbound := [], outRoutine := Idle\<rparr> = p" using assms(2) by (cases p) (simp add: sending_def)
  have run: "run_events (peer_step e self) (send_events b) (p, w) = Outbound_packet e b (p, w)"
    using assms(2) by (simp add: send_events_def sending_def OutboundPacket_def chan_send_def OutboundChannelSize_def Outbound_def p)
  obtain d s' w' where o': "Outbound_packet e b (p, w) = Ret (p\<lparr>tx := Some s', keepalive := Armed TimerKeepalive\<rparr>, w')"
    "carries (lib e) key (key s) (nid e) d (ob_contents b)" "udp_out w' = udp_out w @ [(d, a)]" "tun_out w' = tun_out w"
    "key s' = key s" "cs_Nonce (lib e) s' = cs_Nonce (lib e) s + 1"
    "\<exists>ct. cs_encrypt (lib e) s (ob_contents b) = Some (ct, s') \<and> length d = HeaderLen + length ct"
    using Outbound_packet_sends [OF assms(1) s(1) assms(3) s(2) assms(4)] .
  show thesis
    by (rule that [OF run [unfolded o'(1)] _ o'(6) _ o'(3,4,7)])
      (use o'(2,5) s(3) assms(2) in \<open>simp_all add: sending_def\<close>)
qed

text \<open>Packets in a row: the counters increase by one, each datagram carries its packet.\<close>

lemma send_all:
  assumes "cipher_law (lib e) key limit"
  shows "sending key k s a p \<Longrightarrow> unat (cs_Nonce (lib e) s) + length bs \<le> unat limit \<Longrightarrow> list_all out_ok bs \<Longrightarrow>
     \<exists>p' w' ds s'. run_events (peer_step e self) (concat (map send_events bs)) (p, w) = Ret (p', w') \<and>
       udp_out w' = udp_out w @ map (\<lambda>d. (d, a)) ds \<and> tun_out w' = tun_out w \<and>
       list_all2 (carries (lib e) key k (nid e)) ds (map ob_contents bs) \<and> sending key k s' a p'"
proof (induction bs arbitrary: s p w)
  case (Cons b bs)
  have lt: "cs_Nonce (lib e) s < limit" using Cons.prems(2) by (simp add: word_less_nat_alt)
  have ok: "out_ok b" using Cons.prems(3) by simp
  obtain d s1 p1 w1 where 1: "run_events (peer_step e self) (send_events b) (p, w) = Ret (p1, w1)"
    "sending key k s1 a p1" "cs_Nonce (lib e) s1 = cs_Nonce (lib e) s + 1"
    "carries (lib e) key k (nid e) d (ob_contents b)" "udp_out w1 = udp_out w @ [(d, a)]" "tun_out w1 = tun_out w"
    using send_one [OF assms Cons.prems(1) lt ok] by metis
  have "unat (cs_Nonce (lib e) s + 1) = unat (cs_Nonce (lib e) s) + 1"
    using lt unsigned_less [of limit, where 'a = nat] by (simp add: unat_word_ariths(1) word_less_nat_alt)
  then have "unat (cs_Nonce (lib e) s1) + length bs \<le> unat limit" using Cons.prems(2) 1(3) by simp
  from Cons.IH [OF 1(2) this, of w1] Cons.prems(3) obtain p' w' ds s' where
    2: "run_events (peer_step e self) (concat (map send_events bs)) (p1, w1) = Ret (p', w')"
    "udp_out w' = udp_out w1 @ map (\<lambda>d. (d, a)) ds" "tun_out w' = tun_out w1"
    "list_all2 (carries (lib e) key k (nid e)) ds (map ob_contents bs)" "sending key k s' a p'" by auto
  show ?case
    using 1 2 by (intro exI [of _ p'] exI [of _ w'] exI [of _ "d # ds"] exI [of _ s']) (simp add: run_events_append)
qed auto

section \<open>Receiving in a session\<close>

lemma receive_one:
  assumes "receiving key k p" and "carries (lib e) key k i d m" and "delivered d a b"
  obtains p' w' where "run_events (peer_step e self) (receive_events b) (p, w) = Ret (p', w')"
    "receiving key k p'" "tun_out w' = tun_out w @ (if m = [] then [] else [m])" "udp_out w' = udp_out w"
proof -
  obtain r where r: "rx p = Some r" "key r = k" using assms(1) by (auto simp: receiving_def)
  obtain n ct where d: "d = wire \<lparr>Version = HeaderVersion, Type = MsgData, SenderIndex = i, Counter = n,
      Padding = HeaderPadding\<rparr> @ ct" "opens (lib e) key k n ct m" using assms(2) by (auto simp: carries_def)
  have b: "in_ok b" "take (ib_size b) (backing (ib_in b)) = d" "ib_raddr b = Some a" "Counter (ib_header b) = n"
    using assms(3) by (simp_all add: delivered_def) (simp add: d(1))
  have msg: "in_payload b = Ret ct" using in_payload_Ret [OF b(1)] by (simp add: b(2)) (simp add: d(1))
  from d(2) r obtain r' where dec: "cs_decrypt (lib e) (cs_SetNonce (lib e) n r) ct = (m, r', True)" "key r' = k"
    unfolding opens_def by blast
  have m: "slen (append_slice (reslice 0 (ib_packet b)) m) = length m"
    "sbytes (append_slice (reslice 0 (ib_packet b)) m) = m"
    by (simp_all add: append_slice_def reslice_def sbytes_def put_at_def scap_def)
  have p: "p\<lparr>inbound := [], inRoutine := Idle\<rparr> = p" using assms(1) by (cases p) (simp add: receiving_def)
  have run: "run_events (peer_step e self) (receive_events b) (p, w) = Inbound_packet e b (p, w)"
    using assms(1) by (simp add: receive_events_def receiving_def InboundPacket_def chan_send_def InboundChannelSize_def Inbound_def p)
  obtain o' where o': "raddr p = Some o'" using assms(1) by (auto simp: receiving_def)
  let ?b = "b\<lparr>ib_packet := append_slice (reslice 0 (ib_packet b)) m\<rparr>"
  let ?w = "put_in ?b (w\<lparr>tun_out := tun_out w @ (if m = [] then [] else [m])\<rparr>)"
  let ?q = "p\<lparr>rx := Some r', receivedPacket := Armed TimerRxTimeout\<rparr>"
  have "\<exists>q. UpdateEndpoint (ib_raddr b) ?q = Ret q \<and> receiving key k q"
    using o' dec(2) assms(1) by (simp add: UpdateEndpoint_def b(3) receiving_def)
  then obtain q where q: "UpdateEndpoint (ib_raddr b) ?q = Ret q" "receiving key k q" by blast
  have same: "w\<lparr>tun_out := tun_out w @ []\<rparr> = w" by simp
  have "Inbound_packet e b (p, w) = Ret (q, ?w)"
    using q(1) m by (cases "m = []") (simp_all add: Inbound_packet_def r(1) b(4) msg dec(1) Let_def)
  then show thesis using that q(2) run by simp
qed

text \<open>
  Datagrams as the network delivers them: any of those sent, in any order, any number
  of times, from any address.
\<close>

lemma receive_all:
  "receiving key k p \<Longrightarrow>
     list_all2 (\<lambda>b m. \<exists>d a. carries (lib e) key k i d m \<and> delivered d a b) bs ms \<Longrightarrow>
     \<exists>p' w'. run_events (peer_step e self) (concat (map receive_events bs)) (p, w) = Ret (p', w') \<and>
       tun_out w' = tun_out w @ filter (\<lambda>m. m \<noteq> []) ms \<and> udp_out w' = udp_out w \<and> receiving key k p'"
proof (induction bs arbitrary: ms p w)
  case (Cons b bs)
  from Cons.prems(2) obtain m ms' d a where ms: "ms = m # ms'"
    "list_all2 (\<lambda>b m. \<exists>d a. carries (lib e) key k i d m \<and> delivered d a b) bs ms'"
    and d: "carries (lib e) key k i d m" "delivered d a b"
    by (auto simp: list_all2_Cons1)
  obtain p1 w1 where 1: "run_events (peer_step e self) (receive_events b) (p, w) = Ret (p1, w1)" "receiving key k p1"
    "tun_out w1 = tun_out w @ (if m = [] then [] else [m])" "udp_out w1 = udp_out w"
    using receive_one [OF Cons.prems(1) d] .
  from Cons.IH [OF 1(2) ms(2), of w1] 1 show ?case by (auto simp: run_events_append ms(1))
qed auto

section \<open>Delivery\<close>

text \<open>
  C2 (functional). Packets through an established session. Whatever packets are
  queued, the sender emits one datagram for each, and whatever of these datagrams
  reaches the receiver - in any order, with losses, from any source
  address - the receiver writes exactly the packets of the datagrams that arrived to its
  tunnel, in the order of arrival, and nothing else (an empty packet, the keepalive, is not
  written). A datagram that arrives again is written again: there is no protection against
  replays.
\<close>

theorem session_delivers:
  assumes "cipher_law l key limit" and "lib eA = l" and "lib eB = l"
    and "sending key k s addr pA" and "unat (cs_Nonce l s) + length bs \<le> unat limit" and "list_all out_ok bs"
    and "receiving key k pB"
  shows "\<exists>pA' wA' ds. run_events (peer_step eA selfA) (concat (map send_events bs)) (pA, wA) = Ret (pA', wA') \<and>
     udp_out wA' = udp_out wA @ map (\<lambda>d. (d, addr)) ds \<and> length ds = length bs \<and>
     (\<forall>js ibs. list_all2 (\<lambda>j ib. j < length bs \<and> (\<exists>src. delivered (ds ! j) src ib)) js ibs \<longrightarrow>
        (\<exists>pB' wB'. run_events (peer_step eB selfB) (concat (map receive_events ibs)) (pB, wB) = Ret (pB', wB') \<and>
           tun_out wB' = tun_out wB @ filter (\<lambda>m. m \<noteq> []) (map (\<lambda>j. ob_contents (bs ! j)) js) \<and>
           receiving key k pB'))"
proof -
  have law: "cipher_law (lib eA) key limit" and n: "unat (cs_Nonce (lib eA) s) + length bs \<le> unat limit"
    using assms(1,2,5) by simp_all
  obtain pA' wA' ds s' where send: "run_events (peer_step eA selfA) (concat (map send_events bs)) (pA, wA) = Ret (pA', wA')"
    "udp_out wA' = udp_out wA @ map (\<lambda>d. (d, addr)) ds"
    and ds: "list_all2 (carries (lib eA) key k (nid eA)) ds (map ob_contents bs)"
    using send_all [OF law assms(4) n assms(6), of selfA wA] by blast
  have len: "length ds = length bs" using list_all2_lengthD [OF ds] by simp
  have car: "carries (lib eB) key k (nid eA) (ds ! j) (ob_contents (bs ! j))" if "j < length bs" for j
    using list_all2_nthD [OF ds, of j] that len assms(2,3) by simp
  have recv: "\<exists>pB' wB'. run_events (peer_step eB selfB) (concat (map receive_events ibs)) (pB, wB) = Ret (pB', wB') \<and>
      tun_out wB' = tun_out wB @ filter (\<lambda>m. m \<noteq> []) (map (\<lambda>j. ob_contents (bs ! j)) js) \<and> receiving key k pB'"
    if "list_all2 (\<lambda>j ib. j < length bs \<and> (\<exists>src. delivered (ds ! j) src ib)) js ibs" for js ibs
  proof -
    have "list_all2 (\<lambda>b m. \<exists>d a. carries (lib eB) key k (nid eA) d m \<and> delivered d a b) ibs
        (map (\<lambda>j. ob_contents (bs ! j)) js)"
      using that
    proof (induction rule: list_all2_induct)
      case (Cons j js ib ibs)
      then obtain src where "j < length bs" "delivered (ds ! j) src ib" by blast
      with car [of j] have "\<exists>d a. carries (lib eB) key k (nid eA) d (ob_contents (bs ! j)) \<and> delivered d a ib" by blast
      with Cons.IH show ?case by (simp only: list.map list_all2_Cons simp_thms)
    qed simp
    from receive_all [OF assms(7) this, of selfB wB] show ?thesis by blast
  qed
  show ?thesis using send len recv by (intro exI [of _ pA'] exI [of _ wA'] exI [of _ ds]) simp
qed

section \<open>The handshake between two peers\<close>

text \<open>
  Pattern IK for an initiator with key pair \<open>kA\<close> that knows the responder's static key
  \<open>pubB\<close>: each side accepts the other's message, and the cipher states that result
  are pairwise of one key, with the nonces at zero.
\<close>

definition handshake_law :: "('hs, 'cs, 'kp) noise_lib \<Rightarrow> ('cs \<Rightarrow> 'k) \<Rightarrow> 'kp \<Rightarrow> bytes \<Rightarrow> 'kp \<Rightarrow>
    bytes \<Rightarrow> bytes \<Rightarrow> 'hs \<Rightarrow> 'cs \<Rightarrow> 'cs \<Rightarrow> 'cs \<Rightarrow> 'cs \<Rightarrow> bool" where
  "handshake_law l key kA pubB kB m1 m2 hA tA rA tB rB \<longleftrightarrow>
     (\<exists>h c. new_handshake l True kA (Some pubB) = Some h \<and> write_message l h = Some (m1, hA, c)) \<and>
     (\<exists>h h1 c h2. new_handshake l False kB None = Some h \<and> read_message l h m1 = Some (h1, c) \<and>
        write_message l h1 = Some (m2, h2, Some (rB, tB))) \<and>
     (\<exists>h. read_message l hA m2 = Some (h, Some (tA, rA))) \<and>
     key tA = key rB \<and> key tB = key rA \<and> cs_Nonce l tA = 0 \<and> cs_Nonce l tB = 0"

text \<open>A started peer without a session and with nothing queued.\<close>

definition fresh :: "UDPAddr \<Rightarrow> ('hs, 'cs) Peer \<Rightarrow> bool" where
  "fresh a p \<longleftrightarrow> running p \<and> hstate p = 0 \<and> \<not> inTransport p \<and> \<not> initiator p \<and> pendingLock p \<and>
     inbound p = [] \<and> outbound p = [] \<and> handshakes p = [] \<and>
     inRoutine p = Idle \<and> outRoutine p = Idle \<and> hsRoutine p = Idle \<and> raddr p = Some a"

lemma fresh_described: "ResolveUDPAddr L (pb_Endpoint info) = Some a \<Longrightarrow> fresh a (started (described L info))"
  by (simp add: fresh_def started_def described_def added_peer_def NewPeer_def)

definition handshake_datagram :: "u32 \<Rightarrow> u64 \<Rightarrow> bytes \<Rightarrow> bytes" where
  "handshake_datagram i n m = wire \<lparr>Version = HeaderVersion, Type = MsgHandshake, SenderIndex = i, Counter = n,
     Padding = HeaderPadding\<rparr> @ m"

lemma delivered_payload:
  assumes "delivered (wire h @ m) a b"
  shows "in_ok b" "in_payload b = Ret m" "ib_raddr b = Some a" "Counter (ib_header b) = Counter h"
proof -
  show ok: "in_ok b" "ib_raddr b = Some a" using assms by (simp_all add: delivered_def)
  show "in_payload b = Ret m" using in_payload_Ret [OF ok(1)] assms by (simp add: delivered_def)
  show "Counter (ib_header b) = Counter h" using assms by (simp add: delivered_def)
qed

lemma get_out_header:
  assumes "world_ok w"
  shows "fst (encode_out t i c (fst (get_out k w))) =
    wire \<lparr>Version = HeaderVersion, Type = t, SenderIndex = i, Counter = c, Padding = HeaderPadding\<rparr>"
    "udp_out (snd (get_out k w)) = udp_out w" "tun_out (snd (get_out k w)) = tun_out w"
proof -
  have "shape_out (fst (get_out k w))" using clean_out_ok world_ok_get_out(1) [OF assms] by (simp add: out_ok_def)
  from encode_out_shape(4) [OF this] show "fst (encode_out t i c (fst (get_out k w))) =
    wire \<lparr>Version = HeaderVersion, Type = t, SenderIndex = i, Counter = c, Padding = HeaderPadding\<rparr>" .
qed (simp_all add: get_out_frame)

lemma initiate:
  assumes "handshake_law (lib e) key (keyPair e) (pubkey p) kB m1 m2 hA tA rA tB rB" and "fresh a p" and "world_ok w"
  obtains p' w' where "peer_step e self (EvOutboundPacket b) (p, w) = Ret (p', w')"
    "udp_out w' = udp_out w @ [(handshake_datagram (nid e) 0 m1, a)]" "tun_out w' = tun_out w"
    "p' = p\<lparr>outbound := [Some b], handshakeRetries := handshakeRetries p + 1, initiator := True, hs := Some hA, hstate := 1,
       handshakeSent := Armed 3\<rparr>"
proof -
  obtain h c where h: "new_handshake (lib e) True (keyPair e) (Some (pubkey p)) = Some h"
    "write_message (lib e) h = Some (m1, hA, c)" using assms(1) by (auto simp: handshake_law_def)
  define g where "g = get_out (pk e) w"
  define o' where "o' = encode_out MsgHandshake (nid e) 0 (fst g)"
  have f: "fst o' @ m1 = handshake_datagram (nid e) 0 m1" "udp_out (snd g) = udp_out w" "tun_out (snd g) = tun_out w"
    using get_out_header [OF assms(3)] by (simp_all add: o'_def g_def handshake_datagram_def)
  show thesis
  proof (rule that)
    show "peer_step e self (EvOutboundPacket b) (p, w) = Ret (p\<lparr>outbound := [Some b],
        handshakeRetries := handshakeRetries p + 1, initiator := True, hs := Some hA, hstate := 1,
        handshakeSent := Armed 3\<rparr>, put_out (snd o') (send_udp (fst o' @ m1) (Some a) (snd g)))"
      using assms(2) h
      by (simp add: fresh_def OutboundPacket_def chan_send_def OutboundChannelSize_def TrySendHandshake_def Let_def
          InitHandshake_def CreateHandshake_def case_prod_beta handshakeP1_def o'_def g_def)
  qed (use f in \<open>simp_all add: send_udp_def\<close>)
qed

definition same_endpoint :: "UDPAddr \<Rightarrow> UDPAddr \<Rightarrow> bool" where
  "same_endpoint a b \<longleftrightarrow> IP_Equal (uIP a) (uIP b) \<and> uPort a = uPort b"

definition in_session :: "('cs \<Rightarrow> 'k) \<Rightarrow> 'cs \<Rightarrow> 'k \<Rightarrow> UDPAddr \<Rightarrow> ('hs, 'cs) Peer \<Rightarrow> bool" where
  "in_session key t kr a p \<longleftrightarrow> running p \<and> hstate p = 2 \<and> inTransport p \<and> \<not> pendingLock p \<and> tx p = Some t \<and>
     (\<exists>r. rx p = Some r \<and> key r = kr) \<and> raddr p = Some a \<and>
     inbound p = [] \<and> inRoutine p = Idle \<and> outRoutine p = Idle"

lemma in_sessionD:
  assumes "in_session key t kr a p"
  shows "outbound p = [] \<Longrightarrow> sending key (key t) t a p" "receiving key kr p"
  using assms by (auto simp: in_session_def sending_def receiving_def)

lemma handshake_step:
  assumes "running p" and "handshakes p = []" and "hsRoutine p = Idle"
  shows "run_events (peer_step e self) [EvHandshakePacket b, EvHandshake] (p, w) = Handshake_message e b (p, w)"
proof -
  have p: "p\<lparr>handshakes := []\<rparr> = p" using assms(2) by (cases p) simp
  show ?thesis using assms
    by (simp add: HandshakePacket_def chan_send_wait_def chan_send_def HandshakeChannelSize_def Handshake_def p)
qed

lemma respond:
  assumes "handshake_law (lib e) key kA pubB (keyPair e) m1 m2 hA tA rA tB rB" and "fresh a p" and "world_ok w"
    and "delivered (handshake_datagram i 0 m1) src b"
  obtains p' w' a' where "run_events (peer_step e self) [EvHandshakePacket b, EvHandshake] (p, w) = Ret (p', w')"
    "udp_out w' = udp_out w @ [(handshake_datagram (nid e) 1 m2, a')]" "tun_out w' = tun_out w" "same_endpoint a' src"
    "in_session key tB (key rB) a' p'" "outbound p' = []"
proof -
  obtain h h1 c h2 where h: "new_handshake (lib e) False (keyPair e) None = Some h" "read_message (lib e) h m1 = Some (h1, c)"
    "write_message (lib e) h1 = Some (m2, h2, Some (rB, tB))"
    using assms(1) by (auto simp: handshake_law_def)
  note b = delivered_payload [OF assms(4) [unfolded handshake_datagram_def]]
  define g where "g = get_out (pk e) w"
  define o' where "o' = encode_out MsgHandshake (nid e) 1 (fst g)"
  have f: "fst o' @ m2 = handshake_datagram (nid e) 1 m2" "udp_out (snd g) = udp_out w" "tun_out (snd g) = tun_out w"
    using get_out_header [OF assms(3)] by (simp_all add: o'_def g_def handshake_datagram_def)
  define a' where "a' = (if \<not> IP_Equal (uIP a) (uIP src) \<or> uPort a \<noteq> uPort src then src else a)"
  let ?p = "p\<lparr>initiator := False, hs := Some h2, raddr := Some a', rx := Some rB, tx := Some tB, hstate := 2,
    inTransport := True, pendingLock := False, handshakeRetries := 0, handshakeSent := Stopped,
    keepalive := Armed (TimerKeepalive + 5)\<rparr>"
  let ?w = "put_in b (put_out (snd o') (send_udp (fst o' @ m2) (Some a') (snd g)))"
  have ra: "raddr p = Some a" using assms(2) by (simp add: fresh_def)
  have ue: "UpdateEndpointLocked (Some src) (p\<lparr>initiator := False, hs := Some h1\<rparr>) =
      Ret (p\<lparr>initiator := False, hs := Some h1, raddr := Some a'\<rparr>)"
    using ra by (cases p) (simp add: UpdateEndpointLocked_def a'_def)
  have "handshakeP2 e b (p, w) = Ret (True, (p\<lparr>initiator := False, hs := Some h2, raddr := Some a', rx := Some rB,
      tx := Some tB\<rparr>, ?w))"
    using assms(2) h
    by (simp add: fresh_def handshakeP2_def InitHandshake_def CreateHandshake_def Let_def b(2,3) ue case_prod_beta
        flip: g_def) (simp flip: o'_def)
  then have "finish_handshake e b (p, w) = Ret (p\<lparr>initiator := False, hs := Some h2, raddr := Some a', rx := Some rB,
      tx := Some tB, hstate := 2, inTransport := True, pendingLock := False, handshakeRetries := 0,
      handshakeSent := Stopped\<rparr>, ?w)"
    using assms(2) by (simp add: fresh_def finish_handshake_def unlock_pending_def)
  then have run: "run_events (peer_step e self) [EvHandshakePacket b, EvHandshake] (p, w) = Ret (?p, ?w)"
    using assms(2) handshake_step [of p e self b w] by (simp add: fresh_def Handshake_message_def b(4))
  show thesis
    by (rule that [OF run])
      (use f assms(2) in \<open>auto simp: send_udp_def same_endpoint_def a'_def in_session_def fresh_def\<close>)
qed

lemma complete_state:
  assumes "handshake_law (lib e) key (keyPair e) pubB kB m1 m2 hA tA rA tB rB"
    and "running p" "hstate p = 1" "initiator p" "hs p = Some hA" "pendingLock p" "handshakes p = []" "hsRoutine p = Idle"
    and "delivered (handshake_datagram i 1 m2) src b"
  shows "run_events (peer_step e self) [EvHandshakePacket b, EvHandshake] (p, w) =
    Ret (p\<lparr>tx := Some tA, rx := Some rA, raddr := Some src, hs := None, hstate := 2, inTransport := True,
      pendingLock := False, handshakeRetries := 0, handshakeSent := Stopped, keepalive := Armed TimerKeepalive\<rparr>, put_in b w)"
proof -
  obtain h where h: "read_message (lib e) hA m2 = Some (h, Some (tA, rA))"
    using assms(1) by (auto simp: handshake_law_def)
  note b = delivered_payload [OF assms(9) [unfolded handshake_datagram_def]]
  have "finish_handshake e b (p, w) = Ret (p\<lparr>tx := Some tA, rx := Some rA, raddr := Some src, hs := None, hstate := 2,
      inTransport := True, pendingLock := False, handshakeRetries := 0, handshakeSent := Stopped\<rparr>, put_in b w)"
    using assms(4-6) h by (simp add: finish_handshake_def handshakeP2_def b unlock_pending_def)
  then show ?thesis
    using assms(3) handshake_step [OF assms(2,7,8), of e self b w] by (simp add: Handshake_message_def b(4))
qed

lemma complete_handshake:
  assumes "handshake_law (lib e) key (keyPair e) pubB kB m1 m2 hA tA rA tB rB"
    and "running p" "hstate p = 1" "initiator p" "hs p = Some hA" "pendingLock p"
    and "handshakes p = []" "hsRoutine p = Idle" "inbound p = []" "inRoutine p = Idle" "outRoutine p = Idle"
    and "delivered (handshake_datagram i 1 m2) src b"
  obtains p' w' where "run_events (peer_step e self) [EvHandshakePacket b, EvHandshake] (p, w) = Ret (p', w')"
    "udp_out w' = udp_out w" "tun_out w' = tun_out w" "in_session key tA (key rA) src p'" "outbound p' = outbound p"
  by (rule that [OF complete_state [OF assms(1-8,12)]])
    (use assms in \<open>simp_all add: in_session_def\<close>)

text \<open>The packet that waited for the session.\<close>

lemma drain_one:
  assumes "cipher_law (lib e) key limit" and "in_session key t kr a p" and "outbound p = [Some b]"
    and "cs_Nonce (lib e) t < limit" and "out_ok b"
  obtains d t' p' w' where "run_events (peer_step e self) [EvOutbound, EvOutbound] (p, w) = Ret (p', w')"
    "carries (lib e) key (key t) (nid e) d (ob_contents b)" "udp_out w' = udp_out w @ [(d, a)]" "tun_out w' = tun_out w"
    "in_session key t' kr a p'" "key t' = key t" "outbound p' = []" "cs_Nonce (lib e) t' = cs_Nonce (lib e) t + 1"
proof -
  let ?p = "p\<lparr>outbound := []\<rparr>"
  have s: "tx ?p = Some t" "raddr ?p = Some a" using assms(2) by (simp_all add: in_session_def)
  have p: "p\<lparr>outbound := [], outRoutine := Idle\<rparr> = ?p" using assms(2) by (cases p) (simp add: in_session_def)
  have run: "run_events (peer_step e self) [EvOutbound, EvOutbound] (p, w) = Outbound_packet e b (?p, w)"
    using assms(2,3) by (simp add: in_session_def Outbound_def p)
  obtain d t' w' where o': "Outbound_packet e b (?p, w) = Ret (?p\<lparr>tx := Some t', keepalive := Armed TimerKeepalive\<rparr>, w')"
    "carries (lib e) key (key t) (nid e) d (ob_contents b)" "udp_out w' = udp_out w @ [(d, a)]" "tun_out w' = tun_out w"
    "key t' = key t" "cs_Nonce (lib e) t' = cs_Nonce (lib e) t + 1"
    using Outbound_packet_sends [OF assms(1) s(1) assms(4) s(2) assms(5)] by metis
  show thesis
    by (rule that [OF run [unfolded o'(1)] o'(2-4) _ o'(5) _ o'(6)]) (use assms(2) in \<open>simp_all add: in_session_def\<close>)
qed

text \<open>The answer completes the handshake and the waiting packet leaves.\<close>

lemma answer_and_drain:
  assumes "cipher_law (lib e) key limit" and "0 < limit"
    and "handshake_law (lib e) key (keyPair e) pubB kB m1 m2 hA tA rA tB rB"
    and "running p" "hstate p = 1" "initiator p" "hs p = Some hA" "pendingLock p"
    and "handshakes p = []" "hsRoutine p = Idle" "inbound p = []" "inRoutine p = Idle" "outRoutine p = Idle"
    and "outbound p = [Some b]" "out_ok b" "delivered (handshake_datagram i 1 m2) src ib"
  obtains d t p' w' where
    "run_events (peer_step e self) [EvHandshakePacket ib, EvHandshake, EvOutbound, EvOutbound] (p, w) = Ret (p', w')"
    "carries (lib e) key (key rB) (nid e) d (ob_contents b)" "udp_out w' = udp_out w @ [(d, src)]"
    "sending key (key rB) t src p'" "cs_Nonce (lib e) t = 1" "receiving key (key rA) p'"
proof -
  have keys: "key tA = key rB" and lim: "cs_Nonce (lib e) tA = 0" using assms(3) by (simp_all add: handshake_law_def)
  obtain q w1 where q: "run_events (peer_step e self) [EvHandshakePacket ib, EvHandshake] (p, w) = Ret (q, w1)"
    "udp_out w1 = udp_out w" "tun_out w1 = tun_out w" "in_session key tA (key rA) src q" "outbound q = outbound p"
    using complete_handshake [OF assms(3-13,16)] .
  have ob: "outbound q = [Some b]" and lt: "cs_Nonce (lib e) tA < limit" using q(5) assms(2,14) lim by simp_all
  obtain d t p' w' where s: "run_events (peer_step e self) [EvOutbound, EvOutbound] (q, w1) = Ret (p', w')"
    "carries (lib e) key (key tA) (nid e) d (ob_contents b)" "udp_out w' = udp_out w1 @ [(d, src)]"
    "tun_out w' = tun_out w1" "in_session key t (key rA) src p'" "key t = key tA" "outbound p' = []"
    "cs_Nonce (lib e) t = cs_Nonce (lib e) tA + 1"
    using drain_one [OF assms(1) q(4) ob lt assms(15)] .
  have "[EvHandshakePacket ib, EvHandshake, EvOutbound, EvOutbound] = [EvHandshakePacket ib, EvHandshake] @ [EvOutbound, EvOutbound]"
    by simp
  then have "run_events (peer_step e self) [EvHandshakePacket ib, EvHandshake, EvOutbound, EvOutbound] (p, w) = Ret (p', w')"
    using q(1) s(1) by (simp only: run_events_append obind.simps)
  then show thesis
    by (rule that) (use q(2) s(2,3,6,8) in_sessionD [OF s(5)] s(7) keys lim in simp_all)
qed

text \<open>Whenever the datagram \<open>d\<close> arrives at the peer, the packet \<open>m\<close> is written to the tunnel.\<close>

definition data_arrives :: "('hs, 'cs, 'kp) env \<Rightarrow> nat \<Rightarrow> ('cs \<Rightarrow> 'k) \<Rightarrow> 'k \<Rightarrow> bytes \<Rightarrow> bytes \<Rightarrow> ('hs, 'cs) pstate \<Rightarrow> bool" where
  "data_arrives e self key k d m st \<longleftrightarrow>
     (\<forall>b src. delivered d src b \<longrightarrow>
       (\<exists>p' w'. run_events (peer_step e self) (receive_events b) st = Ret (p', w') \<and>
          tun_out w' = tun_out (snd st) @ (if m = [] then [] else [m]) \<and> receiving key k p'))"

lemma data_arrivesI:
  assumes "receiving key k p" and "carries (lib e) key k i d m"
  shows "data_arrives e self key k d m (p, w)"
  unfolding data_arrives_def using receive_one [OF assms, where self = self and w = w] by (metis snd_conv)

text \<open>
  C1 (functional). Two idle peers, the first packet: the whole path of src/node from
  the tunnel of one node to the tunnel of the other. The packet makes node A send a
  handshake message to B's known endpoint; when that datagram arrives, from whatever
  address, B answers to the address it came from and is in session; when the answer
  arrives, A is in session, and its routine sends the waiting packet to the
  address the answer came from; when that arrives, B writes exactly the packet to its
  tunnel. No step of this crashes or waits. Afterwards both sides can send and receive
  with matching keys, so any further packets are delivered.
\<close>

theorem first_packet_delivered:
  assumes "cipher_law l key limit" and "0 < limit" and "lib eA = l" and "lib eB = l"
    and "handshake_law l key (keyPair eA) (pubkey pA) (keyPair eB) m1 m2 hA tA rA tB rB"
    and "fresh addrB pA" and "fresh addrA pB" and "world_ok wA" and "world_ok wB" and "out_ok b"
  shows "\<exists>pA1 wA1 d1. run_events (peer_step eA selfA) [EvOutboundPacket b] (pA, wA) = Ret (pA1, wA1) \<and>
     udp_out wA1 = udp_out wA @ [(d1, addrB)] \<and>
     (\<forall>b1 srcA. delivered d1 srcA b1 \<longrightarrow>
       (\<exists>pB1 wB1 d2 a. run_events (peer_step eB selfB) [EvHandshakePacket b1, EvHandshake] (pB, wB) = Ret (pB1, wB1) \<and>
          udp_out wB1 = udp_out wB @ [(d2, a)] \<and> same_endpoint a srcA \<and> tun_out wB1 = tun_out wB \<and>
          sending key (key rA) tB a pB1 \<and>
          (\<forall>b2 srcB. delivered d2 srcB b2 \<longrightarrow>
            (\<exists>pA2 wA2 d3 t. run_events (peer_step eA selfA) [EvHandshakePacket b2, EvHandshake, EvOutbound, EvOutbound] (pA1, wA1) = Ret (pA2, wA2) \<and>
               udp_out wA2 = udp_out wA1 @ [(d3, srcB)] \<and> sending key (key rB) t srcB pA2 \<and> cs_Nonce l t = 1 \<and>
               receiving key (key rA) pA2 \<and> data_arrives eB selfB key (key rB) d3 (ob_contents b) (pB1, wB1)))))"
    (is "\<exists>pA1 wA1 d1. ?sent pA1 wA1 \<and> ?out wA1 d1 \<and> (\<forall>b1 srcA. ?arrives d1 b1 srcA \<longrightarrow> ?reply pA1 wA1 b1 srcA)")
proof -
  note laws = assms(1,5) [folded assms(3)] assms(5) [folded assms(4)]
  have keyB: "key tB = key rA" using assms(5) by (simp add: handshake_law_def)
  obtain pA1 wA1 where A1: "peer_step eA selfA (EvOutboundPacket b) (pA, wA) = Ret (pA1, wA1)"
    "udp_out wA1 = udp_out wA @ [(handshake_datagram (nid eA) 0 m1, addrB)]" "tun_out wA1 = tun_out wA"
    "pA1 = pA\<lparr>outbound := [Some b], handshakeRetries := handshakeRetries pA + 1, initiator := True, hs := Some hA,
       hstate := 1, handshakeSent := Armed 3\<rparr>"
    using initiate [OF laws(2) assms(6,8)] .
  have p1: "running pA1" "hstate pA1 = 1" "initiator pA1" "hs pA1 = Some hA" "pendingLock pA1" "handshakes pA1 = []"
    "hsRoutine pA1 = Idle" "inbound pA1 = []" "inRoutine pA1 = Idle" "outRoutine pA1 = Idle" "outbound pA1 = [Some b]"
    using assms(6) by (simp_all add: A1(4) fresh_def)
  have stage2: "\<exists>pA2 wA2 d3 t. run_events (peer_step eA selfA) [EvHandshakePacket b2, EvHandshake, EvOutbound, EvOutbound] (pA1, wA1) = Ret (pA2, wA2) \<and>
      udp_out wA2 = udp_out wA1 @ [(d3, srcB)] \<and> sending key (key rB) t srcB pA2 \<and> cs_Nonce l t = 1 \<and>
      receiving key (key rA) pA2 \<and> data_arrives eB selfB key (key rB) d3 (ob_contents b) (pB1, wB1)"
    if r: "receiving key (key rB) pB1" and d: "delivered (handshake_datagram (nid eB) 1 m2) srcB b2" for b2 srcB pB1 wB1
    using answer_and_drain [OF laws(1) assms(2) laws(2) p1 assms(10) d, of selfA wA1]
      data_arrivesI [OF r, of eB] assms(3,4) by metis
  have stage1: "\<exists>pB1 wB1 a. run_events (peer_step eB selfB) [EvHandshakePacket b1, EvHandshake] (pB, wB) = Ret (pB1, wB1) \<and>
      udp_out wB1 = udp_out wB @ [(handshake_datagram (nid eB) 1 m2, a)] \<and> same_endpoint a srcA \<and>
      tun_out wB1 = tun_out wB \<and> sending key (key rA) tB a pB1 \<and> receiving key (key rB) pB1"
    if d: "delivered (handshake_datagram (nid eA) 0 m1) srcA b1" for b1 srcA
    using respond [OF laws(3) assms(7,9) d, of selfB] in_sessionD keyB by metis
  show ?thesis
  proof (rule exI [of _ pA1], rule exI [of _ wA1], rule exI [of _ "handshake_datagram (nid eA) 0 m1"], intro conjI allI impI)
    show "run_events (peer_step eA selfA) [EvOutboundPacket b] (pA, wA) = Ret (pA1, wA1)" using A1(1) by simp
  next
    fix b1 srcA
    assume "delivered (handshake_datagram (nid eA) 0 m1) srcA b1"
    from stage1 [OF this] stage2 show "?reply pA1 wA1 b1 srcA" by fast
  qed (rule A1(2))
qed

section \<open>The concrete library\<close>

lemma toy_cipher_law: "cipher_law toy_noise (\<lambda>_. ()) 1000"
  by (simp add: cipher_law_def opens_def toy_noise_def)

lemma toy_handshake_law: "handshake_law toy_noise (\<lambda>_. ()) () rs () [7] [8] (True, 1) 0 0 0 0"
  by (auto simp: handshake_law_def toy_noise_def)

definition toy_idle :: "u8 \<Rightarrow> (bool \<times> nat, u64) Peer" where
  "toy_idle x = started (added_peer 9 (Addr4 1) [] [] (Some (udp_addr x)))"

lemma toy_idle_fresh: "fresh (udp_addr x) (toy_idle x)"
  by (simp add: fresh_def toy_idle_def started_def added_peer_def NewPeer_def)

definition toy_packet :: OutboundBuffer where
  "toy_packet = NewOutboundBuffer\<lparr>ob_size := 1\<rparr>"

lemma toy_packet_ok: "out_ok toy_packet" "ob_contents toy_packet = [0]"
  using NewOutboundBuffer_ok
  by (simp_all add: out_ok_def shape_out_def toy_packet_def ob_contents_def)
    (simp_all add: NewOutboundBuffer_def make_slice_def BufferSize_def)

theorem first_packet_delivered_witness:
  "\<exists>pA1 wA1 d1. run_events (peer_step toy_env 0) [EvOutboundPacket toy_packet] (toy_idle 2, quiet_world) = Ret (pA1, wA1) \<and>
     udp_out wA1 = [(d1, udp_addr 2)] \<and>
     (\<forall>b1 srcA. delivered d1 srcA b1 \<longrightarrow>
       (\<exists>pB1 wB1. run_events (peer_step toy_env 1) [EvHandshakePacket b1, EvHandshake] (toy_idle 3, quiet_world) = Ret (pB1, wB1)))"
proof -
  have e: "lib toy_env = toy_noise" "keyPair toy_env = ()" by (simp_all add: toy_env_def)
  have lim: "0 < (1000 :: u64)" by simp
  have law: "handshake_law toy_noise (\<lambda>_. ()) (keyPair toy_env) (pubkey (toy_idle 2)) (keyPair toy_env) [7] [8] (True, 1) 0 0 0 0"
    using toy_handshake_law by simp
  note first = first_packet_delivered [OF toy_cipher_law lim e(1) e(1) law
      toy_idle_fresh [of 2] toy_idle_fresh [of 3] quiet_world_ok quiet_world_ok toy_packet_ok(1), where selfA = 0 and selfB = 1]
  have "udp_out quiet_world = []" by (simp add: quiet_world_def)
  with first obtain pA1 wA1 d1 where 1: "run_events (peer_step toy_env 0) [EvOutboundPacket toy_packet] (toy_idle 2, quiet_world) = Ret (pA1, wA1)"
    "udp_out wA1 = [(d1, udp_addr 2)]"
    "\<forall>b1 srcA. delivered d1 srcA b1 \<longrightarrow>
       (\<exists>pB1 wB1. run_events (peer_step toy_env 1) [EvHandshakePacket b1, EvHandshake] (toy_idle 3, quiet_world) = Ret (pB1, wB1))"
    by (simp only: append_Nil) metis
  then show ?thesis by blast
qed

definition toy_session :: "(bool \<times> nat, u64) Peer" where
  "toy_session = (toy_idle 2)\<lparr>hstate := 2, inTransport := True, pendingLock := False, tx := Some 0, rx := Some 0\<rparr>"

lemma toy_session_ready: "sending (\<lambda>_. ()) () 0 (udp_addr 2) toy_session" "receiving (\<lambda>_. ()) () toy_session"
  using toy_idle_fresh [of 2] by (simp_all add: sending_def receiving_def toy_session_def fresh_def)

text \<open>Two packets; the second datagram arrives first, and then both once more.\<close>

theorem session_delivers_witness:
  "\<exists>pA wA d0 d1. run_events (peer_step toy_env 0) (concat (map send_events [NewOutboundBuffer, toy_packet])) (toy_session, quiet_world) = Ret (pA, wA) \<and>
     udp_out wA = [(d0, udp_addr 2), (d1, udp_addr 2)] \<and>
     (\<forall>b0 b1 b2. delivered d1 (udp_addr 5) b0 \<and> delivered d0 (udp_addr 5) b1 \<and> delivered d1 (udp_addr 6) b2 \<longrightarrow>
        (\<exists>pB wB. run_events (peer_step toy_env 1) (concat (map receive_events [b0, b1, b2])) (toy_session, quiet_world) = Ret (pB, wB) \<and>
           tun_out wB = [[0], [0]]))"
proof -
  have e: "lib toy_env = toy_noise" by (simp add: toy_env_def)
  have n: "unat (cs_Nonce toy_noise 0) + length [NewOutboundBuffer, toy_packet] \<le> unat (1000 :: u64)"
    by (simp add: toy_noise_def)
  have ok: "list_all out_ok [NewOutboundBuffer, toy_packet]" by (simp add: NewOutboundBuffer_ok toy_packet_ok)
  have c: "ob_contents NewOutboundBuffer = []" by (simp add: ob_contents_def NewOutboundBuffer_def)
  obtain pA wA ds where s: "run_events (peer_step toy_env 0) (concat (map send_events [NewOutboundBuffer, toy_packet])) (toy_session, quiet_world) = Ret (pA, wA)"
    "udp_out wA = udp_out quiet_world @ map (\<lambda>d. (d, udp_addr 2)) ds" "length ds = length [NewOutboundBuffer, toy_packet]"
    and r: "\<forall>js ibs. list_all2 (\<lambda>j ib. j < length [NewOutboundBuffer, toy_packet] \<and> (\<exists>src. delivered (ds ! j) src ib)) js ibs \<longrightarrow>
        (\<exists>pB wB. run_events (peer_step toy_env 1) (concat (map receive_events ibs)) (toy_session, quiet_world) = Ret (pB, wB) \<and>
           tun_out wB = tun_out quiet_world @ filter (\<lambda>m. m \<noteq> []) (map (\<lambda>j. ob_contents ([NewOutboundBuffer, toy_packet] ! j)) js) \<and>
           receiving (\<lambda>_. ()) () pB)"
    using session_delivers [OF toy_cipher_law e e toy_session_ready(1) n ok toy_session_ready(2),
        where wA = quiet_world and wB = quiet_world and selfA = 0 and selfB = 1] by blast
  from s(3) obtain d0 d1 where ds: "ds = [d0, d1]" by (auto simp: length_Suc_conv)
  have "tun_out quiet_world = []" "udp_out quiet_world = []" by (simp_all add: quiet_world_def)
  moreover have "\<exists>pB wB. run_events (peer_step toy_env 1) (concat (map receive_events [b0, b1, b2])) (toy_session, quiet_world) = Ret (pB, wB) \<and>
      tun_out wB = [[0], [0]]"
    if "delivered d1 (udp_addr 5) b0 \<and> delivered d0 (udp_addr 5) b1 \<and> delivered d1 (udp_addr 6) b2" for b0 b1 b2
  proof -
    have "list_all2 (\<lambda>j ib. j < length [NewOutboundBuffer, toy_packet] \<and> (\<exists>src. delivered (ds ! j) src ib)) [1, 0, 1] [b0, b1, b2]"
      using that by (auto simp: ds)
    from r [rule_format, OF this] show ?thesis
      using \<open>tun_out quiet_world = []\<close> by (simp only: list.map nth_Cons_0 One_nat_def nth_Cons_Suc c toy_packet_ok(2)) auto
  qed
  ultimately show ?thesis
    using s(1,2) by (intro exI [of _ pA] exI [of _ wA] exI [of _ d0] exI [of _ d1]) (simp only: ds, simp)
qed

end
