(* ===== verification/Overlay.thy ===== *)
theory Overlay
  imports Tunnel
begin

text \<open>
  Two whole nodes with a session between them: a packet that one node reads from its
  tunnel device (src/node/packets.go), routes (src/node/node.go), encrypts and sends
  (src/node/peer_transport.go) is dispatched, decrypted and written to the tunnel device
  by the other. The routines of a peer are the events of \<open>PeerInvariant\<close>, run on the
  peer's address in the heap of its node.
\<close>

section \<open>Routines of a node's peer\<close>

definition peer_routine ::
  "('hs, 'cs, 'kp) node_libs \<Rightarrow> nat \<Rightarrow> peer_event \<Rightarrow> ('hs, 'cs, 'kp) Node \<Rightarrow> ('hs, 'cs, 'kp) Node outcome" where
  "peer_routine L a ev n = with_peer a (peer_step (node_env L n) a ev) n"

definition put_peer :: "nat \<Rightarrow> ('hs, 'cs, 'kp) Node \<Rightarrow> ('hs, 'cs) pstate \<Rightarrow> ('hs, 'cs, 'kp) Node" where
  "put_peer a n st = n\<lparr>heap := (heap n)[a := fst st], nworld := snd st\<rparr>"

lemma put_peer_simps [simp]:
  "node_env L (put_peer a n st) = node_env L n" "nworld (put_peer a n st) = snd st"
  "length (heap (put_peer a n st)) = length (heap n)" "a < length (heap n) \<Longrightarrow> heap (put_peer a n st) ! a = fst st"
  "put_peer a (put_peer a n st) st' = put_peer a n st'" "maps_id (put_peer a n st) = maps_id n"
  "maps_ip (put_peer a n st) = maps_ip n" "node_ip (put_peer a n st) = node_ip n"
  by (simp_all add: put_peer_def node_env_def)

lemma put_peer_same [simp]: "put_peer a n (heap n ! a, nworld n) = n"
  by (simp add: put_peer_def)

lemma with_peer_put: "with_peer a f n = obind (f (heap n ! a, nworld n)) (\<lambda>st. Ret (put_peer a n st))"
  by (simp add: with_peer_def put_peer_def case_prod_beta')

text \<open>A run of a peer inside its node is the run of the peer.\<close>

lemma run_peer_routine:
  "a < length (heap n) \<Longrightarrow>
     run_events (peer_routine L a) evs n =
       obind (run_events (peer_step (node_env L n) a) evs (heap n ! a, nworld n)) (\<lambda>st. Ret (put_peer a n st))"
proof (induction evs arbitrary: n)
  case (Cons ev evs)
  have step: "peer_routine L a ev n = obind (peer_step (node_env L n) a ev (heap n ! a, nworld n)) (\<lambda>st. Ret (put_peer a n st))"
    by (simp add: peer_routine_def with_peer_put)
  have "run_events (peer_routine L a) evs (put_peer a n st) =
      obind (run_events (peer_step (node_env L n) a) evs st) (\<lambda>st. Ret (put_peer a n st))" for st
    using Cons.IH [of "put_peer a n st"] Cons.prems by simp
  then show ?case by (simp add: step obind_assoc)
qed simp

section \<open>From one tunnel to the other\<close>

text \<open>
  The library's tag: a ciphertext is at most sixteen bytes longer than its message. With the
  header and the tag a packet of the interface's MTU fits the buffers.
\<close>

definition tag_law :: "('hs, 'cs, 'kp) noise_lib \<Rightarrow> bool" where
  "tag_law l \<longleftrightarrow> (\<forall>s m ct s'. cs_encrypt l s m = Some (ct, s') \<longrightarrow> length ct \<le> length m + 16)"

lemma framed_wire:
  assumes "Version h = HeaderVersion" and "Padding h = HeaderPadding"
  shows "framed (wire h @ ct)"
proof -
  have "(wire h @ ct) ! 14 = take 2 (drop 14 (wire h)) ! 0" "(wire h @ ct) ! 15 = take 2 (drop 14 (wire h)) ! 1"
    by (simp_all add: nth_append HeaderLen_def del: wire_windows)
  moreover have "put_be 2 HeaderPadding = [0xfe, 0xed]" unfolding HeaderPadding_def by code_simp
  moreover have "(wire h @ ct) ! 0 = HeaderVersion" using assms(1) by (simp add: nth_append HeaderLen_def)
  ultimately show ?thesis using assms(2) by (simp add: framed_def)
qed

lemma carries_framed:
  assumes "carries l key k i d m"
  shows "framed d" "Type (header_at d) = MsgData" "SenderIndex (header_at d) = i"
  using assms by (auto simp: carries_def framed_wire)

lemma tun_target_world [simp]: "tun_target L packet (n\<lparr>nworld := w\<rparr>) = tun_target L packet n"
  by (simp add: tun_target_def cong: option.case_cong if_cong)

text \<open>The sending node: from its tunnel to the socket.\<close>

lemma node_sends:
  assumes law: "cipher_law (noise L) key limit" "tag_law (noise L)" and n: "world_ok (nworld n)" "pAddr (node_ip n) = Addr4 v"
    and fits: "length packet \<le> BufferSize" and tgt: "tun_target L (packet @ replicate (BufferSize - length packet) 0) n = Some t"
    and t: "t < length (heap n)" "sending key k s a (heap n ! t)" and lt: "cs_Nonce (noise L) s < limit"
  shows "\<exists>n1 n2 d. ReadTunPackets_step L (Some packet) n = Ret n1 \<and>
     run_events (peer_routine L t) [EvOutbound, EvOutbound] n1 = Ret n2 \<and>
     udp_out (nworld n2) = udp_out (nworld n) @ [(d, a)] \<and> tun_out (nworld n2) = tun_out (nworld n) \<and>
     carries (noise L) key k (node_id n) d packet \<and> length d \<le> HeaderLen + length packet + 16 \<and> length (heap n2) = length (heap n) \<and>
     (\<forall>u < length (heap n). u \<noteq> t \<longrightarrow> heap n2 ! u = heap n ! u)"
proof -
  define g where "g = get_out (picks L) (nworld n)"
  define b where "b = (fst g)\<lparr>ob_packet := (ob_packet (fst g))\<lparr>backing := put_at 0 packet (backing (ob_packet (fst g)))\<rparr>,
    ob_size := length packet\<rparr>"
  let ?m = "n\<lparr>nworld := snd g\<rparr>"
  have clean: "clean_out (fst g)" using world_ok_get_out(1) [OF n(1)] by (simp add: g_def)
  then have pkt: "ob_packet (fst g) = make_slice BufferSize" by (simp add: clean_out_def)
  have bytes: "backing (ob_packet b) = packet @ replicate (BufferSize - length packet) 0"
    using fits by (simp add: b_def pkt make_slice_def put_at_def)
  have b: "out_ok b" "ob_contents b = packet" "sbytes (ob_packet b) = packet @ replicate (BufferSize - length packet) 0"
  proof -
    show "out_ok b" using clean_out_ok [OF clean] fits
      by (simp add: out_ok_def shape_out_def full_slice_def b_def put_at_def) (simp add: pkt make_slice_def scap_def)
    show "ob_contents b = packet" by (simp add: ob_contents_def bytes) (simp add: b_def)
    show "sbytes (ob_packet b) = packet @ replicate (BufferSize - length packet) 0"
      using fits by (simp add: sbytes_def bytes) (simp add: b_def pkt make_slice_def)
  qed
  have "ReadTunPackets_step L (Some packet) n = OnTunnelPacket L b ?m"
    using fits by (simp add: ReadTunPackets_step_def case_prod_beta flip: g_def) (simp add: b_def pkt make_slice_def Let_def)
  also have "\<dots> = with_peer t (OutboundPacket (node_env L ?m) b) ?m"
    using OnTunnelPacket_routing [of ?m v L b] n(2) by (simp add: b(3) tgt)
  also have "\<dots> = peer_routine L t (EvOutboundPacket b) ?m" by (simp add: peer_routine_def with_peer_def)
  finally have r: "ReadTunPackets_step L (Some packet) n = peer_routine L t (EvOutboundPacket b) ?m" .
  have e: "lib (node_env L ?m) = noise L" "nid (node_env L ?m) = node_id n" by (simp_all add: node_env_def)
  obtain d s' p' w' where o': "run_events (peer_step (node_env L ?m) t) (send_events b) (heap n ! t, snd g) = Ret (p', w')"
    "carries (noise L) key k (node_id n) d (ob_contents b)" "udp_out w' = udp_out (snd g) @ [(d, a)]" "tun_out w' = tun_out (snd g)"
    "\<exists>ct. cs_encrypt (noise L) s (ob_contents b) = Some (ct, s') \<and> length d = HeaderLen + length ct"
    using send_one [of "node_env L ?m", unfolded e, OF law(1) t(2) lt b(1), where self = t and w = "snd g"] by metis
  have len: "length d \<le> HeaderLen + length packet + 16"
  proof -
    from o'(5) obtain ct where ct: "cs_encrypt (noise L) s (ob_contents b) = Some (ct, s')" "length d = HeaderLen + length ct" by blast
    with law(2) have "length ct \<le> length (ob_contents b) + 16" unfolding tag_law_def by blast
    then show ?thesis by (simp add: ct(2) b(2))
  qed
  have fr: "udp_out (snd g) = udp_out (nworld n)" "tun_out (snd g) = tun_out (nworld n)"
    using get_out_header(2,3) [OF n(1)] by (simp_all add: g_def)
  have run: "run_events (peer_routine L t) (send_events b) ?m = Ret (put_peer t ?m (p', w'))"
    using run_peer_routine [of t ?m L "send_events b"] t(1) o'(1) by simp
  then obtain n1 where n1: "peer_routine L t (EvOutboundPacket b) ?m = Ret n1"
    "run_events (peer_routine L t) [EvOutbound, EvOutbound] n1 = Ret (put_peer t ?m (p', w'))"
    by (auto simp: send_events_def obind_eq_Ret)
  show ?thesis
    using n1 r o'(2-4) fr b(2) len by (intro exI [of _ n1] exI [of _ "put_peer t ?m (p', w')"] exI [of _ d]) (simp add: put_peer_def)
qed

text \<open>The receiving node: from the socket to its tunnel.\<close>

lemma node_receives:
  assumes m: "world_ok (nworld m)" and d: "carries (noise L) key k i d packet" "length d \<le> BufferSize"
    and u: "lookupPeer i m = Some u" "u < length (heap m)" "receiving key k (heap m ! u)"
  shows "\<exists>m1 m2. ReadUDPPackets_step L (Some (d, src)) m = Ret m1 \<and>
     run_events (peer_routine L u) [EvInbound, EvInbound] m1 = Ret m2 \<and>
     tun_out (nworld m2) = tun_out (nworld m) @ (if packet = [] then [] else [packet]) \<and>
     udp_out (nworld m2) = udp_out (nworld m) \<and> length (heap m2) = length (heap m) \<and>
     (\<forall>x < length (heap m). x \<noteq> u \<longrightarrow> heap m2 ! x = heap m ! x)"
proof -
  have td: "take BufferSize d = d" using d(2) by simp
  have "udp_target d m = Some u" using carries_framed [OF d(1)] u(1) by (simp add: udp_target_def)
  with ReadUDPPackets_dispatch [OF m, where datagram = d and L = L and a = src] obtain b w where b: "delivered d src b"
    "udp_out w = udp_out (nworld m)" "tun_out w = tun_out (nworld m)"
    "ReadUDPPackets_step L (Some (d, src)) m =
       with_peer u (\<lambda>st. if Type (ib_header b) = MsgHandshake then HandshakePacket b st else Ret (InboundPacket b st))
         (m\<lparr>nworld := w\<rparr>)" unfolding td by auto
  let ?m = "m\<lparr>nworld := w\<rparr>"
  have "Type (ib_header b) \<noteq> MsgHandshake"
    using b(1) carries_framed(2) [OF d(1)] by (simp add: delivered_def MsgData_def MsgHandshake_def)
  then have r: "ReadUDPPackets_step L (Some (d, src)) m = peer_routine L u (EvInboundPacket b) ?m"
    by (simp add: b(4) peer_routine_def with_peer_def)
  have e: "lib (node_env L ?m) = noise L" by (simp add: node_env_def)
  obtain p' w' where o': "run_events (peer_step (node_env L ?m) u) (receive_events b) (heap m ! u, w) = Ret (p', w')"
    "tun_out w' = tun_out w @ (if packet = [] then [] else [packet])" "udp_out w' = udp_out w"
    using receive_one [of key k "heap m ! u" "node_env L ?m", unfolded e, OF u(3) d(1) b(1), where self = u and w = w] by metis
  have "run_events (peer_routine L u) (receive_events b) ?m = Ret (put_peer u ?m (p', w'))"
    using run_peer_routine [of u ?m L "receive_events b"] u(2) o'(1) by simp
  then obtain m1 where m1: "peer_routine L u (EvInboundPacket b) ?m = Ret m1"
    "run_events (peer_routine L u) [EvInbound, EvInbound] m1 = Ret (put_peer u ?m (p', w'))"
    by (auto simp: receive_events_def obind_eq_Ret)
  show ?thesis
    using m1 r o'(2,3) b(2,3) by (intro exI [of _ m1] exI [of _ "put_peer u ?m (p', w')"]) (simp add: put_peer_def)
qed

section \<open>Across the overlay\<close>

text \<open>
  C3 (refinement). What the overlay promises its users, through the whole of both nodes:
  a packet of at most the interface's MTU that node A reads from its tunnel device and
  that its routing maps to a peer in session leaves A as exactly one datagram, to that
  peer's endpoint; and when node B, whose peer with A's identifier holds the same
  session, reads this datagram from its socket, from any source address, it writes
  exactly the packet to its tunnel and sends nothing. Neither node crashes, and neither
  touches any other of its peers.
\<close>

theorem packet_crosses_overlay:
  assumes "cipher_law (noise LA) key limit" and "tag_law (noise LA)" and "noise LB = noise LA"
    and "world_ok (nworld nA)" and "world_ok (nworld nB)" and "pAddr (node_ip nA) = Addr4 v"
    and "packet \<noteq> []" and "HeaderLen + length packet + 16 \<le> BufferSize"
    and "tun_target LA (packet @ replicate (BufferSize - length packet) 0) nA = Some t"
    and "t < length (heap nA)" and "sending key k s a (heap nA ! t)" and "cs_Nonce (noise LA) s < limit"
    and "lookupPeer (node_id nA) nB = Some u" and "u < length (heap nB)" and "receiving key k (heap nB ! u)"
  shows "\<exists>n1 n2 d. ReadTunPackets_step LA (Some packet) nA = Ret n1 \<and>
     run_events (peer_routine LA t) [EvOutbound, EvOutbound] n1 = Ret n2 \<and>
     udp_out (nworld n2) = udp_out (nworld nA) @ [(d, a)] \<and> tun_out (nworld n2) = tun_out (nworld nA) \<and>
     (\<forall>x < length (heap nA). x \<noteq> t \<longrightarrow> heap n2 ! x = heap nA ! x) \<and>
     (\<forall>src. \<exists>m1 m2. ReadUDPPackets_step LB (Some (d, src)) nB = Ret m1 \<and>
        run_events (peer_routine LB u) [EvInbound, EvInbound] m1 = Ret m2 \<and>
        tun_out (nworld m2) = tun_out (nworld nB) @ [packet] \<and> udp_out (nworld m2) = udp_out (nworld nB) \<and>
        (\<forall>x < length (heap nB). x \<noteq> u \<longrightarrow> heap m2 ! x = heap nB ! x))"
proof -
  have fits: "length packet \<le> BufferSize" using assms(8) by simp
  from node_sends [OF assms(1,2,4,6) fits assms(9-12)] obtain n1 n2 d where A:
    "ReadTunPackets_step LA (Some packet) nA = Ret n1" "run_events (peer_routine LA t) [EvOutbound, EvOutbound] n1 = Ret n2"
    "udp_out (nworld n2) = udp_out (nworld nA) @ [(d, a)]" "tun_out (nworld n2) = tun_out (nworld nA)"
    "carries (noise LA) key k (node_id nA) d packet" "length d \<le> HeaderLen + length packet + 16"
    "\<forall>x < length (heap nA). x \<noteq> t \<longrightarrow> heap n2 ! x = heap nA ! x" by blast
  have B: "carries (noise LB) key k (node_id nA) d packet" "length d \<le> BufferSize"
    using A(5,6) assms(3,8) by simp_all
  have recv: "\<exists>m1 m2. ReadUDPPackets_step LB (Some (d, src)) nB = Ret m1 \<and>
      run_events (peer_routine LB u) [EvInbound, EvInbound] m1 = Ret m2 \<and>
      tun_out (nworld m2) = tun_out (nworld nB) @ [packet] \<and> udp_out (nworld m2) = udp_out (nworld nB) \<and>
      (\<forall>x < length (heap nB). x \<noteq> u \<longrightarrow> heap m2 ! x = heap nB ! x)" for src
    using node_receives [OF assms(5) B assms(13-15), of src] assms(7) by (simp only: if_False) blast
  show ?thesis
    using A(1-4,7) recv by blast
qed

text \<open>Node 5 sends a packet for 0.0.0.1; the other node knows node 5 as its only peer.\<close>

definition toy_A :: "(bool \<times> nat, u64, unit) Node" where
  "toy_A = toy_node\<lparr>heap := [toy_session]\<rparr>"

definition toy_B :: "(bool \<times> nat, u64, unit) Node" where
  "toy_B = toy_node\<lparr>heap := [toy_session], maps_id := [(5, 0)]\<rparr>"

definition toy_ip_packet :: bytes where
  "toy_ip_packet = replicate 16 0 @ [0, 0, 0, 1]"

theorem packet_crosses_overlay_witness:
  "\<exists>n1 n2 d. ReadTunPackets_step toy_libs (Some toy_ip_packet) toy_A = Ret n1 \<and>
     run_events (peer_routine toy_libs 0) [EvOutbound, EvOutbound] n1 = Ret n2 \<and> udp_out (nworld n2) = [(d, udp_addr 2)] \<and>
     (\<forall>src. \<exists>m1 m2. ReadUDPPackets_step toy_libs (Some (d, src)) toy_B = Ret m1 \<and>
        run_events (peer_routine toy_libs 0) [EvInbound, EvInbound] m1 = Ret m2 \<and> tun_out (nworld m2) = [toy_ip_packet])"
proof -
  have l: "noise toy_libs = toy_noise" by (simp add: toy_libs_def)
  have w: "nworld toy_A = quiet_world" "nworld toy_B = quiet_world" "heap toy_A = [toy_session]" "heap toy_B = [toy_session]"
    "pAddr (node_ip toy_A) = Addr4 0" "lookupPeer (node_id toy_A) toy_B = Some 0"
    by (simp_all add: toy_A_def toy_B_def toy_node_def lookupPeer_def)
  have q: "udp_out quiet_world = []" "tun_out quiet_world = []" by (simp_all add: quiet_world_def)
  have law: "cipher_law (noise toy_libs) (\<lambda>_. ()) 1000" "tag_law (noise toy_libs)"
    unfolding l using toy_cipher_law by (simp_all add: tag_law_def toy_noise_def)
  have ok: "world_ok (nworld toy_A)" "world_ok (nworld toy_B)" by (simp_all add: w quiet_world_ok)
  have p: "toy_ip_packet \<noteq> []" "HeaderLen + length toy_ip_packet + 16 \<le> BufferSize"
    by (simp_all add: toy_ip_packet_def HeaderLen_def BufferSize_def)
  have net: "Contains (Masked \<lparr>pAddr = Addr4 0, pBits = 24\<rparr>) (Addr4 1)" by code_simp
  have tgt: "tun_target toy_libs (toy_ip_packet @ replicate (BufferSize - length toy_ip_packet) 0) toy_A = Some 0"
    by (simp add: tun_target_def toy_libs_def toy_A_def toy_node_def toy_ip_packet_def To4_def AddrFromSlice_def net)
  have s: "0 < length (heap toy_A)" "sending (\<lambda>_. ()) () 0 (udp_addr 2) (heap toy_A ! 0)" "cs_Nonce (noise toy_libs) 0 < 1000"
    "0 < length (heap toy_B)" "receiving (\<lambda>_. ()) () (heap toy_B ! 0)"
    using toy_session_ready by (simp_all add: w l toy_noise_def)
  from packet_crosses_overlay [OF law refl ok w(5) p tgt s(1-3) w(6) s(4,5)] show ?thesis
    unfolding w q append_Nil by blast
qed

end
