(* ===== verification/NodeInvariant.thy ===== *)
theory NodeInvariant
  imports NodeSetup Overlay
begin

text \<open>
  Well-formedness of a whole node and its preservation by everything that can happen
  to it: the requests of its service, the controller's updates, packets from the socket
  and the tunnel (src/node/packets.go, src/node/node.go), and the routines and timers
  of each of its peers (src/node/peer_transport.go).
\<close>

section \<open>Peers that wait in Stop\<close>

text \<open>
  A peer whose \<open>Stop\<close> found a data routine that holds a packet: it is not running, its
  pending lock stays taken, every routine has ended or waits for the lock with the nil behind
  it in its channel, and all it ever gets is a keepalive packet from a late callback.
\<close>

definition stuck :: "('hs, 'cs) Peer \<Rightarrow> bool" where
  "stuck p \<longleftrightarrow> stopping p \<and> hstate p = 0 \<and> \<not> inTransport p \<and> \<not> initiator p \<and>
     keepalive p = Stopped \<and> receivedPacket p = Stopped \<and>
     handshakes p = [] \<and> hsRoutine p = Exited \<and> inRoutine p \<noteq> Idle \<and> outRoutine p \<noteq> Idle \<and>
     inbound p = (if inRoutine p = Exited then [] else [None]) \<and>
     (outRoutine p \<noteq> Exited \<longrightarrow> outbound p = [None]) \<and> peer_live p"

definition peer_ok :: "('hs, 'cs, 'kp) noise_lib \<Rightarrow> ('hs, 'cs) Peer \<Rightarrow> bool" where
  "peer_ok l p \<longleftrightarrow> peer_wf l p \<and> peer_live p \<or> stuck p"

lemma peer_okE:
  assumes "peer_ok l p"
  obtains (wf) "peer_wf l p" "peer_live p" | (stuck) "stuck p"
  using assms by (auto simp: peer_ok_def)

text \<open>The routines and timers of a peer, as against what its node does to it.\<close>

fun routine_event :: "peer_event \<Rightarrow> bool" where
  "routine_event EvInbound = True"
| "routine_event EvOutbound = True"
| "routine_event EvHandshake = True"
| "routine_event EvHandshakeTimer = True"
| "routine_event EvRxTimer = True"
| "routine_event EvTxTimer = True"
| "routine_event _ = False"

lemma stuck_Stopped [simp]: "stuck (p\<lparr>handshakeSent := t\<rparr>) = stuck p"
  by (simp add: stuck_def stopping_def)

lemma stuck_routine:
  assumes "stuck p" and "routine_event ev"
  shows "peer_step e self ev (p, w) \<in> {Block, Ret (p, w), Ret (p\<lparr>handshakeSent := Stopped\<rparr>, w)}"
  using assms
  by (cases ev) (auto simp: stuck_def stopping_def Inbound_def Outbound_def Handshake_def HandshakeTimeout_def
      split: routine.splits)

lemma stuck_packets:
  assumes "stuck p"
  shows "InboundPacket b (p, w) = (p, put_in b w)" "OutboundPacket e b' (p, w) = Ret (p, put_out b' w)"
    "HandshakePacket b (p, w) = Ret (p, w)"
  using assms by (simp_all add: stuck_def stopping_def InboundPacket_def OutboundPacket_def HandshakePacket_def)

lemma stuck_waits: "stuck p \<Longrightarrow> peer_Stop (p, w) = Block"
  by (simp add: stuck_def peer_Stop_def)

lemma stuck_stop: "stuck p \<Longrightarrow> stop_goroutine (p, w) = Ret (p, w)"
  by (simp add: stop_goroutine_def stuck_waits) (simp add: stuck_def)

text \<open>Late callbacks and expiries of its timers.\<close>

lemma stuck_callback:
  assumes "stuck p" and "world_ok w" and "callback e self t (p, w) = Ret (p', w')"
  shows "stuck p' \<and> world_ok w'"
proof (cases t)
  case Keepalive_timer
  have "peer_live p" using assms(1) by (simp add: stuck_def)
  then have "peer_live p' \<and> world_ok w'" using TXTimeout_live [of p w e self p' w'] assms(2,3) Keepalive_timer by simp
  with assms(1,3) Keepalive_timer show ?thesis
    by (auto simp: stuck_def stopping_def TXTimeout_def obind_eq_Ret Let_def case_prod_beta split: if_splits)
qed (use assms in \<open>auto simp: stuck_def stopping_def HandshakeTimeout_def RXTimeout_def\<close>)

lemma stuck_disarm: "stuck p \<Longrightarrow> stuck (disarm t p)"
  by (cases t) (simp_all add: stuck_def stopping_def)

section \<open>Operations keep peers well formed\<close>

definition st_ok :: "('hs, 'cs, 'kp) noise_lib \<Rightarrow> ('hs, 'cs) pstate \<Rightarrow> bool" where
  "st_ok l st \<longleftrightarrow> peer_ok l (fst st) \<and> world_ok (snd st)"

lemma step_ok:
  assumes "noise_ik (lib e)" and "st_ok (lib e) (p, w)" and "routine_event ev" and "peer_step e self ev (p, w) = Ret (p', w')"
  shows "st_ok (lib e) (p', w')"
proof -
  have ev: "event_ok ev" using assms(3) by (cases ev) auto
  have w: "world_ok w" using assms(2) by (simp add: st_ok_def)
  from assms(2) have "peer_ok (lib e) p" by (simp add: st_ok_def)
  then show ?thesis
  proof (cases rule: peer_okE)
    case wf
    from peer_step_wf [OF assms(1) wf(1) assms(4)] peer_step_live [OF ev wf w assms(4)]
    show ?thesis by (simp add: st_ok_def peer_ok_def)
  next
    case stuck
    from stuck_routine [OF this assms(3), of e self w] assms(4) stuck w show ?thesis
      by (auto simp: st_ok_def peer_ok_def)
  qed
qed

lemma delivery_ok:
  assumes "st_ok l (p, w)" and "in_ok b"
  shows "InboundPacket b (p, w) = (p', w') \<Longrightarrow> st_ok l (p', w')"
    and "HandshakePacket b (p, w) = Ret (p', w') \<Longrightarrow> st_ok l (p', w')"
proof -
  have w: "world_ok w" and p: "peer_ok l p" using assms(1) by (simp_all add: st_ok_def)
  have s: "shape_in b" using assms(2) by (simp add: in_ok_def)
  show "st_ok l (p', w')" if i: "InboundPacket b (p, w) = (p', w')"
    using p
  proof (cases rule: peer_okE)
    case wf
    from InboundPacket_wf [OF wf(1) i] InboundPacket_live [OF wf(2) w assms(2) i] show ?thesis
      by (simp add: st_ok_def peer_ok_def)
  next
    case stuck
    with i world_ok_put_in [OF w s] p show ?thesis by (auto simp: stuck_packets st_ok_def)
  qed
  show "st_ok l (p', w')" if i: "HandshakePacket b (p, w) = Ret (p', w')"
    using p
  proof (cases rule: peer_okE)
    case wf
    from HandshakePacket_wf [OF wf(1) i] HandshakePacket_live [OF wf(2) w assms(2) i] show ?thesis
      by (simp add: st_ok_def peer_ok_def)
  next
    case stuck
    with i w p show ?thesis by (auto simp: stuck_packets st_ok_def)
  qed
qed

lemma OutboundPacket_ok:
  assumes "st_ok (lib e) (p, w)" and "out_ok b" and o': "OutboundPacket e b (p, w) = Ret (p', w')"
  shows "st_ok (lib e) (p', w')"
proof -
  have w: "world_ok w" and p: "peer_ok (lib e) p" using assms(1) by (simp_all add: st_ok_def)
  from p show ?thesis
  proof (cases rule: peer_okE)
    case wf
    from OutboundPacket_wf [OF wf(1) o'] OutboundPacket_live [OF peer_wfD(1) [OF wf(1)] wf(2) w assms(2) o'] show ?thesis
      by (simp add: st_ok_def peer_ok_def)
  next
    case stuck
    with o' world_ok_put_out [OF w] assms(2) p show ?thesis by (auto simp: stuck_packets st_ok_def out_ok_def)
  qed
qed

text \<open>All events of a peer, not only its routines.\<close>

lemma event_step_ok:
  assumes "noise_ik (lib e)" and st: "st_ok (lib e) (p, w)" and ev: "event_ok ev" and s: "peer_step e self ev (p, w) = Ret (p', w')"
  shows "st_ok (lib e) (p', w')"
proof -
  have w: "world_ok w" and p: "peer_ok (lib e) p" using st by (simp_all add: st_ok_def)
  from p show ?thesis
  proof (cases rule: peer_okE)
    case wf
    from peer_step_wf [OF assms(1) wf(1) s] peer_step_live [OF ev wf w s] show ?thesis by (simp add: st_ok_def peer_ok_def)
  next
    case stuck
    show ?thesis
    proof (cases "routine_event ev")
      case True
      from step_ok [OF assms(1) st True s] show ?thesis .
    next
      case False
      with s stuck ev st w show ?thesis
        by (cases ev) (auto simp: stuck_waits peer_Start_def lock_pending_def stuck_def stopping_def obind_eq_Ret
            split: if_splits intro: delivery_ok OutboundPacket_ok)
    qed
  qed
qed

lemma stop_ok:
  assumes "st_ok l (p, w)" and g: "stop_goroutine (p, w) = Ret (p', w')"
  shows "st_ok l (p', w')"
proof -
  have w: "world_ok w" and p: "peer_ok l p" using assms(1) by (simp_all add: st_ok_def)
  from p show ?thesis
  proof (cases rule: peer_okE)
    case wf
    note nn = peer_wfD(1) [OF wf(1)]
    have nn': "no_nil (p\<lparr>running := False\<rparr>)" using nn by (simp add: no_nil_def)
    show ?thesis
    proof (cases "peer_Stop (p, w)")
      case (Ret st)
      with g have s: "peer_Stop (p, w) = Ret (p', w')" by (simp add: stop_goroutine_def)
      from peer_Stop_wf [OF wf(1) s] peer_Stop_live [OF wf w s] show ?thesis by (simp add: st_ok_def peer_ok_def)
    next
      case Block
      let ?q = "p\<lparr>running := False\<rparr>"
      have ns: "\<not> stopping p" using wf(1) by (rule peer_wf_not_stopping)
      have c: "running p" "hstate p \<noteq> 2" "inRoutine p \<noteq> Idle \<or> outRoutine p \<noteq> Idle"
        using peer_Stop_cases(1,2) [OF wf(1), of w] Block by (cases "running p"; force)+
      have "peer_live ?q" using wf(2) by simp
      from ResetState_live [OF nn' this w ResetState_Ret [OF nn']]
      have lv: "peer_live (reset_peer ?q)" "world_ok (w\<lparr>pools := reset_pools ?q (pools w)\<rparr>)" by simp_all
      have p': "p' = (reset_peer ?q)\<lparr>handshakes := snd (left_behind (hsRoutine p)), inbound := snd (left_behind (inRoutine p)),
          outbound := snd (left_behind (outRoutine p)), hsRoutine := fst (left_behind (hsRoutine p)),
          inRoutine := fst (left_behind (inRoutine p)), outRoutine := fst (left_behind (outRoutine p))\<rparr>"
        and w': "w' = w\<lparr>pools := reset_pools ?q (pools w)\<rparr>"
        using g ns Block by (auto simp: stop_goroutine_def ResetState_Ret [OF nn'] case_prod_beta reset_peer_def)
      have "hsRoutine p = Idle" "inRoutine p \<noteq> Exited" "outRoutine p \<noteq> Exited" "pendingLock p"
        using c peer_wfD(5,6,7,11) [OF wf(1)] by auto
      with lv wf(2) show ?thesis
        by (cases "inRoutine p"; cases "outRoutine p")
          (simp_all add: p' w' st_ok_def peer_ok_def stuck_def stopping_def reset_peer_def peer_live_def)
    qed (use g in \<open>simp add: stop_goroutine_def\<close>)
  next
    case stuck
    with g w show ?thesis by (auto simp: stuck_stop st_ok_def peer_ok_def)
  qed
qed

text \<open>Routines and timers with late callbacks.\<close>

fun timed_routine :: "timed_event \<Rightarrow> bool" where
  "timed_routine (Timed ev) = routine_event ev"
| "timed_routine _ = True"

lemma timed_ok_step:
  assumes "noise_ik (lib e)" and st: "st_ok (lib e) (p, w)" and "timed_routine ev" and "timely ev (p, w)"
    and s: "timed_step e self ev (p, w) = Ret (p', w')"
  shows "st_ok (lib e) (p', w')"
proof -
  have w: "world_ok w" and p: "peer_ok (lib e) p" using st by (simp_all add: st_ok_def)
  show ?thesis
  proof (cases ev)
    case (Timed x)
    with step_ok [OF assms(1) st, of x self] assms(3) s show ?thesis by simp
  next
    case (Expiry t)
    with s p w show ?thesis by (auto simp: st_ok_def peer_ok_def disarm_wf stuck_disarm)
  next
    case (Late t)
    from p show ?thesis
    proof (cases rule: peer_okE)
      case wf
      have ok: "timed_ok ev" using Late by simp
      from timed_step_wf [OF assms(1) wf(1) assms(4) s] timed_step_live [OF ok wf w s] show ?thesis
        by (simp add: st_ok_def peer_ok_def)
    next
      case stuck
      from s Late have "callback e self t (p, w) = Ret (p', w')" by simp
      from stuck_callback [OF stuck w this] show ?thesis by (simp add: st_ok_def peer_ok_def)
    qed
  qed
qed

lemma Update_ok:
  assumes "st_ok l (p, w)" and u: "peer_Update L info (p, w) = Ret (ok, (p', w'))"
  shows "st_ok l (p', w')"
proof -
  have w: "world_ok w" and p: "peer_ok l p" using assms(1) by (simp_all add: st_ok_def)
  have live: "\<not> stopping p" using u by (auto simp: peer_Update_def)
  then have wf: "peer_wf l p" "peer_live p" using p by (auto simp: peer_ok_def stuck_def)
  show ?thesis
  proof (cases "netip_ParseAddrPort (ip6t L) (pb_Endpoint info)")
    case (Some ap)
    define q where "q = update_endpoint L info ap p"
    have q: "peer_wf l q" "peer_live q"
      using wf update_endpoint_identity(8) [of l L info ap p]
      by (auto simp: q_def update_endpoint_def Let_def peer_live_def split: option.splits)
    obtain k where k: "update_key info (pubkey p) (q, w) = Ret (k, w')" and p': "p' = k \<or> (\<exists>i. p' = k\<lparr>peerIP := i\<rparr>)"
      using u Some by (auto simp: peer_Update_stages [OF live] obind_eq_Ret q_def split: if_splits)
    have "peer_wf l k \<and> peer_live k \<and> world_ok w'"
    proof (cases "k = q \<and> w' = w")
      case False
      with k obtain s w2 newKey t where s: "peer_Stop (q, w) = Ret (s, w')"
        and t: "peer_Start (s\<lparr>pubkey := newKey\<rparr>) = Ret (True, k)"
        by (auto simp: update_key_def obind_eq_Ret split: option.splits if_splits)
      have "peer_wf l s" "peer_live s" "world_ok w'" using peer_Stop_wf [OF q(1) s] peer_Stop_live [OF q w s] by simp_all
      then show ?thesis using peer_Start_wf [OF _ t, of l] peer_Start_live [OF _ t] by (simp add: peer_live_def)
    qed (use q w in simp)
    then show ?thesis using p' by (auto simp: st_ok_def peer_ok_def peer_live_def)
  qed (use u live assms(1) in \<open>simp add: peer_Update_stages\<close>)
qed

section \<open>Nodes\<close>

lemma put_ident [simp]: "peerID (fst (InitHandshake e i p)) = peerID p"
  by (simp add: InitHandshake_simps)

lemma TrySendHandshake_peerID: "TrySendHandshake e r (p, w) = Ret (p', w') \<Longrightarrow> peerID p' = peerID p"
  using ResetState_identity [of "p\<lparr>handshakeRetries := handshakeRetries p + 1, handshakeSent := Stopped\<rparr>" w p' w']
  by (auto simp: TrySendHandshake_def obind_eq_Ret Let_def case_prod_beta split: if_splits dest!: handshakeP1_Ret)

lemma finish_handshake_peerID: "finish_handshake e b (p, w) = Ret (p', w') \<Longrightarrow> peerID p' = peerID p"
  by (auto simp: finish_handshake_def handshakeP2_def InitHandshake_def obind_eq_Ret unlock_pending_def Let_def nil_deref_def
      case_prod_beta split: if_splits option.splits dest!: UpdateEndpoint_Ret(2))

lemma Handshake_peerID: "Handshake e (p, w) = Ret (p', w') \<Longrightarrow> peerID p' = peerID p"
  by (auto simp: Handshake_def Handshake_message_def lock_pending_def obind_eq_Ret
      split: if_splits option.splits dest!: UpdateEndpoint_Ret(1) finish_handshake_peerID)

lemma Inbound_peerID: "Inbound e (p, w) = Ret (p', w') \<Longrightarrow> peerID p' = peerID p"
  by (auto simp: Inbound_def Inbound_packet_def obind_eq_Ret Let_def case_prod_beta nil_deref_def
      split: routine.splits option.splits if_splits dest!: UpdateEndpoint_Ret(1))

lemma Outbound_peerID: "Outbound e (p, w) = Ret (p', w') \<Longrightarrow> peerID p' = peerID p"
  by (auto simp: Outbound_def Outbound_packet_def obind_eq_Ret Let_def case_prod_beta nil_deref_def
      split: routine.splits option.splits if_splits)

lemma routine_peerID:
  assumes "routine_event ev" and "peer_step e self ev (p, w) = Ret (p', w')"
  shows "peerID p' = peerID p"
  using assms ResetState_identity [of _ w p' w']
  by (cases ev) (auto simp: HandshakeTimeout_def RXTimeout_def TXTimeout_def lock_pending_def obind_eq_Ret Let_def
      case_prod_beta split: if_splits dest!: TrySendHandshake_peerID Handshake_peerID Inbound_peerID Outbound_peerID)

lemma timed_peerID:
  assumes "timed_routine ev" and "timed_step e self ev (p, w) = Ret (p', w')"
  shows "peerID p' = peerID p"
proof (cases ev)
  case (Timed x)
  with assms routine_peerID show ?thesis by simp
next
  case (Expiry t)
  with assms(2) show ?thesis by (cases t) auto
next
  case (Late t)
  with assms(2) ResetState_identity [of _ w p' w'] show ?thesis
    by (cases t) (auto simp: HandshakeTimeout_def RXTimeout_def TXTimeout_def lock_pending_def obind_eq_Ret Let_def
        case_prod_beta split: if_splits dest!: TrySendHandshake_peerID)
qed

lemma packets_peerID:
  "InboundPacket b (p, w) = (p', w') \<Longrightarrow> peerID p' = peerID p"
  "HandshakePacket b (p, w) = Ret (p', w') \<Longrightarrow> peerID p' = peerID p"
  "OutboundPacket e b' (p, w) = Ret (p', w') \<Longrightarrow> peerID p' = peerID p"
  by (auto simp: InboundPacket_def HandshakePacket_def OutboundPacket_def Let_def obind_eq_Ret
      split: if_splits option.splits dest!: TrySendHandshake_peerID)

definition node_wf :: "('hs, 'cs, 'kp) node_libs \<Rightarrow> ('hs, 'cs, 'kp) Node \<Rightarrow> bool" where
  "node_wf L n \<longleftrightarrow> maps_ok n \<and> world_ok (nworld n) \<and> list_all (peer_ok (noise L)) (heap n) \<and>
     list_all (\<lambda>a. a < length (heap n)) (stops n)"

lemma node_wf_same:
  assumes "node_wf L n" and "heap n' = heap n" and "world_ok (nworld n')" and "maps_id n' = maps_id n" and "maps_ip n' = maps_ip n"
    and "stops n' = stops n"
  shows "node_wf L n'"
  using assms by (simp add: node_wf_def maps_ok_def)

lemma node_wf_flags [simp]:
  "node_wf L (n\<lparr>node_running := r\<rparr>) = node_wf L n" "node_wf L (n\<lparr>loggedIn := r\<rparr>) = node_wf L n"
  "node_wf L (n\<lparr>initialized := r\<rparr>) = node_wf L n" "node_wf L (n\<lparr>node_id := i\<rparr>) = node_wf L n"
  "node_wf L (n\<lparr>node_ip := x\<rparr>) = node_wf L n" "node_wf L (n\<lparr>discoveredEndpoint := d\<rparr>) = node_wf L n"
  "node_wf L (n\<lparr>endpoint_rpcs := c\<rparr>) = node_wf L n"
  by (simp_all add: node_wf_def maps_ok_def)

lemma node_wf_world: "node_wf L n \<Longrightarrow> world_ok w \<Longrightarrow> node_wf L (n\<lparr>nworld := w\<rparr>)"
  by (simp add: node_wf_def maps_ok_def)

lemma node_wfD:
  assumes "node_wf L n"
  shows "world_ok (nworld n)" "maps_ok n" "a < length (heap n) \<Longrightarrow> st_ok (noise L) (heap n ! a, nworld n)"
    "map_of (maps_id n) i = Some b \<Longrightarrow> b < length (heap n)" "map_of (maps_ip n) x = Some b \<Longrightarrow> b < length (heap n)"
  using assms by (auto simp: node_wf_def st_ok_def list_all_length) (auto simp: maps_ok_def list_all_iff dest!: map_of_SomeD)

lemma with_peer_wf:
  assumes "node_wf L n" and "a < length (heap n)" and w: "with_peer a f n = Ret n'"
    and "\<And>p' w'. f (heap n ! a, nworld n) = Ret (p', w') \<Longrightarrow> st_ok (noise L) (p', w') \<and> peerID p' = peerID (heap n ! a)"
  shows "node_wf L n'"
proof -
  from w obtain p' w' where f: "f (heap n ! a, nworld n) = Ret (p', w')" and n': "n' = n\<lparr>heap := (heap n)[a := p'], nworld := w'\<rparr>"
    by (auto simp: with_peer_def obind_eq_Ret)
  note s = assms(4) [OF f]
  have "maps_ok n'" using maps_ok_same [of n' n] with_peer_same [OF w] assms(4) node_wfD(2) [OF assms(1)] by blast
  with s assms(1,2) show ?thesis by (auto simp: n' node_wf_def st_ok_def list_all_length nth_list_update)
qed

section \<open>Packets\<close>

lemma drop_in_wf: "node_wf L n \<Longrightarrow> shape_in b \<Longrightarrow> node_wf L (drop_in b n)"
  unfolding drop_in_def using node_wfD(1) by (intro node_wf_world world_ok_put_in)

lemma drop_out_wf: "node_wf L n \<Longrightarrow> shape_out b \<Longrightarrow> node_wf L (drop_out b n)"
  unfolding drop_out_def using node_wfD(1) by (intro node_wf_world world_ok_put_out)

lemma handleStunMessage_wf: "node_wf L n \<Longrightarrow> node_wf L (handleStunMessage L' m n)"
  by (simp add: handleStunMessage_def split: option.split)

definition timed_peer ::
  "('hs, 'cs, 'kp) node_libs \<Rightarrow> nat \<Rightarrow> timed_event \<Rightarrow> ('hs, 'cs, 'kp) Node \<Rightarrow> ('hs, 'cs, 'kp) Node outcome" where
  "timed_peer L a ev n = with_peer a (timed_step (node_env L n) a ev) n"

lemma run_peer_wf:
  assumes "noise_ik (noise L)" and "node_wf L n" and "a < length (heap n)" and "timed_routine ev"
    and "timely ev (heap n ! a, nworld n)" and "timed_peer L a ev n = Ret n'"
  shows "node_wf L n'"
  using assms(6) unfolding timed_peer_def
  by (rule with_peer_wf [OF assms(2,3)])
    (use timed_ok_step [of "node_env L n"] timed_peerID assms node_wfD(3) [OF assms(2,3)] in \<open>auto simp: node_env_def\<close>)

lemma OnUDPPacket_maps:
  "OnUDPPacket L b n = Ret n' \<Longrightarrow> maps_id n' = maps_id n \<and> maps_ip n' = maps_ip n \<and> stops n' = stops n"
  by (auto simp: OnUDPPacket_def handleStunMessage_def drop_in_def with_peer_def obind_eq_Ret Let_def
      split: prod.splits option.splits if_splits)

lemma get_in_ok:
  assumes "world_ok w"
  shows "shape_in (fst (GetInboundBuffer c (pools w)))" "world_ok (w\<lparr>pools := snd (GetInboundBuffer c (pools w))\<rparr>)"
  using world_ok_get_in [OF assms, of c] clean_in_shape by auto

lemma ReadUDP_wf:
  assumes wf: "node_wf L n" and r: "ReadUDPPackets_step L d n = Ret n'"
  shows "node_wf L n'"
proof (cases d)
  case None
  note g = get_in_ok [OF node_wfD(1) [OF wf], of "picks L"]
  show ?thesis
    using r None drop_in_wf [OF node_wf_world [OF wf g(2)] g(1)] by (simp add: ReadUDPPackets_step_def case_prod_beta)
next
  case (Some da)
  obtain dat a where da: "da = (dat, a)" by (cases da)
  note D = ReadUDPPackets_dispatch [OF node_wfD(1) [OF wf], where datagram = dat and L = L and a = a, folded da, folded Some]
  show ?thesis
  proof (cases "udp_target (take BufferSize dat) n")
    case None
    from D [unfolded None option.case] r have n': "heap n' = heap n" "world_ok (nworld n')" by auto
    have "maps_id n' = maps_id n \<and> maps_ip n' = maps_ip n \<and> stops n' = stops n"
      using r Some da by (auto simp: ReadUDPPackets_filled Let_def dest: OnUDPPacket_maps)
    with node_wf_same [OF wf n'] show ?thesis by simp
  next
    case (Some t)
    from D [unfolded Some option.case] obtain b w where b: "delivered (take BufferSize dat) a b" "world_ok w"
      "ReadUDPPackets_step L d n =
         with_peer t (\<lambda>st. if Type (ib_header b) = MsgHandshake then HandshakePacket b st else Ret (InboundPacket b st)) (n\<lparr>nworld := w\<rparr>)"
      by blast
    have wf': "node_wf L (n\<lparr>nworld := w\<rparr>)" using wf b(2) by (rule node_wf_world)
    have t: "t < length (heap (n\<lparr>nworld := w\<rparr>))"
      using Some node_wfD(4) [OF wf, of _ t] by (auto simp: udp_target_def lookupPeer_def split: if_splits)
    have "in_ok b" using b(1) by (simp add: delivered_def)
    note ok = delivery_ok [OF node_wfD(3) [OF wf' t] this]
    show ?thesis
      using r unfolding b(3)
    proof (rule with_peer_wf [OF wf' t])
      fix p' w'
      assume "(if Type (ib_header b) = MsgHandshake then HandshakePacket b (heap (n\<lparr>nworld := w\<rparr>) ! t, nworld (n\<lparr>nworld := w\<rparr>))
        else Ret (InboundPacket b (heap (n\<lparr>nworld := w\<rparr>) ! t, nworld (n\<lparr>nworld := w\<rparr>)))) = Ret (p', w')"
      then consider "HandshakePacket b (heap (n\<lparr>nworld := w\<rparr>) ! t, nworld (n\<lparr>nworld := w\<rparr>)) = Ret (p', w')"
        | "InboundPacket b (heap (n\<lparr>nworld := w\<rparr>) ! t, nworld (n\<lparr>nworld := w\<rparr>)) = (p', w')"
        by (auto split: if_splits)
      then show "st_ok (noise L) (p', w') \<and> peerID p' = peerID (heap (n\<lparr>nworld := w\<rparr>) ! t)"
      proof cases
        case 1
        from ok(2) [OF 1] packets_peerID(2) [OF 1] show ?thesis ..
      next
        case 2
        from ok(1) [OF 2] packets_peerID(1) [OF 2] show ?thesis ..
      qed
    qed
  qed
qed

lemma read_packet_ok:
  assumes "clean_out b"
  shows "out_ok (b\<lparr>ob_packet := (ob_packet b)\<lparr>backing := put_at 0 (take (slen (ob_packet b)) p) (backing (ob_packet b))\<rparr>,
    ob_size := length (take (slen (ob_packet b)) p)\<rparr>)"
  using clean_out_ok [OF assms] assms
  by (simp add: out_ok_def shape_out_def full_slice_def) (simp add: clean_out_def make_slice_def scap_def)

lemma OnTunnelPacket_cases:
  "OnTunnelPacket L b n = Ret (drop_out b n) \<or>
   (\<exists>a x. map_of (maps_ip n) x = Some a \<and> OnTunnelPacket L b n = with_peer a (OutboundPacket (node_env L n) b) n)"
  by (simp add: OnTunnelPacket_def Let_def split: option.split) blast

lemma ReadTun_wf:
  assumes wf: "node_wf L n" and r: "ReadTunPackets_step L d n = Ret n'"
  shows "node_wf L n'"
proof -
  define g where "g = get_out (picks L) (nworld n)"
  have g: "clean_out (fst g)" "world_ok (snd g)" using world_ok_get_out [OF node_wfD(1) [OF wf]] by (simp_all add: g_def)
  let ?n = "n\<lparr>nworld := snd g\<rparr>"
  have wf': "node_wf L ?n" using wf g(2) by (rule node_wf_world)
  show ?thesis
  proof (cases d)
    case None
    with r drop_out_wf [OF wf' clean_out_shape [OF g(1)]] show ?thesis
      by (simp add: ReadTunPackets_step_def case_prod_beta flip: g_def)
  next
    case (Some p)
    define b where "b = (fst g)\<lparr>ob_packet := (ob_packet (fst g))\<lparr>backing := put_at 0 (take (slen (ob_packet (fst g))) p)
      (backing (ob_packet (fst g)))\<rparr>, ob_size := length (take (slen (ob_packet (fst g))) p)\<rparr>"
    have b: "out_ok b" unfolding b_def using read_packet_ok [OF g(1)] .
    have r': "OnTunnelPacket L b ?n = Ret n'"
      using r Some by (simp add: ReadTunPackets_step_def case_prod_beta Let_def b_def flip: g_def)
    show ?thesis
    proof (cases "OnTunnelPacket L b ?n = Ret (drop_out b ?n)")
      case True
      then have "n' = drop_out b ?n" using r' by simp
      with drop_out_wf [OF wf', of b] b show ?thesis by (simp add: out_ok_def)
    next
      case False
      then obtain a x where a: "map_of (maps_ip ?n) x = Some a"
        "OnTunnelPacket L b ?n = with_peer a (OutboundPacket (node_env L ?n) b) ?n"
        using OnTunnelPacket_cases [of L b ?n] by blast
      have t: "a < length (heap ?n)" using node_wfD(5) [OF wf' a(1)] .
      show ?thesis
        using r' unfolding a(2)
        by (rule with_peer_wf [OF wf' t])
          (use OutboundPacket_ok [of "node_env L ?n"] b packets_peerID(3) node_wfD(3) [OF wf' t] in \<open>auto simp: node_env_def\<close>)
    qed
  qed
qed

section \<open>Updates and requests\<close>

lemma described_ok:
  assumes "peer_parses L info"
  shows "peer_ok l (described L info)"
  using assms by (auto simp: peer_ok_def described_def added_peer_def peer_wf_def peer_live_def NewPeer_def no_nil_def
      peer_parses_def)

lemma AddPeer_wf:
  assumes "node_wf L n" and "AddPeer L info n = (r, n')"
  shows "node_wf L n'" "r = Some a \<Longrightarrow> a < length (heap n')"
  using assms AddPeer_maps_ok [OF node_wfD(2) [OF assms(1)] assms(2)] described_ok [of L info]
  by (auto simp: AddPeer_cases node_wf_def list_all_iff less_Suc_eq split: if_splits)

lemma start_peer_wf:
  assumes wf: "node_wf L n" and a: "a < length (heap n)" and s: "start_peer a n = Ret (ok, n')"
  shows "node_wf L n'"
proof -
  from s obtain p' where p': "peer_Start (heap n ! a) = Ret (ok, p')" "n' = n\<lparr>heap := (heap n)[a := p']\<rparr>"
    by (auto simp: start_peer_def obind_eq_Ret)
  have "peer_ok (noise L) (heap n ! a)" using node_wfD(3) [OF wf a] by (simp add: st_ok_def)
  then have "peer_ok (noise L) p'"
    using p'(1) peer_Start_wf [of "noise L" "heap n ! a"] peer_Start_live [of "heap n ! a"]
    by (auto simp: peer_ok_def) (auto simp: stuck_def stopping_def peer_Start_def lock_pending_def split: if_splits)
  moreover have "maps_ok n'" using maps_ok_start [OF s] node_wfD(2) [OF wf] by simp
  ultimately show ?thesis using wf a by (auto simp: p'(2) node_wf_def list_all_length nth_list_update)
qed

lemma handleInitialSync_wf: "node_wf L n \<Longrightarrow> handleInitialSync L ps n = Ret n' \<Longrightarrow> node_wf L n'"
proof (induction ps arbitrary: n)
  case (Cons rp ps)
  obtain r m where m: "AddPeer L rp n = (r, m)" by (cases "AddPeer L rp n")
  from Cons.prems(2) m obtain a k where k: "r = Some a" "start_peer a m = Ret (True, k)" "handleInitialSync L ps k = Ret n'"
    by (auto simp: obind_eq_Ret split: option.splits if_splits)
  note A = AddPeer_wf [OF Cons.prems(1) m]
  show ?case by (rule Cons.IH [OF start_peer_wf [OF A(1) A(2) [OF k(1)] k(2)] k(3)])
qed simp

lemma node_Stop_wf: "node_wf L n \<Longrightarrow> node_wf L (snd (node_Stop n))"
  by (auto simp: node_Stop_def StopAllPeers_def node_wf_def maps_ok_def list_all_iff)

lemma handleLogout_wf: "node_wf L n \<Longrightarrow> node_wf L (handleLogout n)"
  by (simp add: handleLogout_def node_Stop_wf)

lemma run_stop_wf:
  assumes "node_wf L n" and s: "run_stop a n = Ret n'"
  shows "node_wf L n'"
proof (cases "a \<in> set (stops n)")
  case True
  let ?n = "n\<lparr>stops := remove1 a (stops n)\<rparr>"
  have wf: "node_wf L ?n" using assms(1) by (auto simp: node_wf_def maps_ok_def list_all_iff dest: notin_set_remove1)
  have a: "a < length (heap ?n)" using assms(1) True by (auto simp: node_wf_def list_all_iff)
  from s True have "with_peer a stop_goroutine ?n = Ret n'" by (simp add: run_stop_def)
  then show ?thesis
    by (rule with_peer_wf [OF wf a]) (use stop_ok stop_goroutine_identity node_wfD(3) [OF wf a] in blast)
qed (use assms in \<open>simp add: run_stop_def\<close>)

lemma HandleUpdate_wf:
  assumes wf: "node_wf L n" and h: "HandleUpdate L u n = Ret n'"
  shows "node_wf L n'"
proof (cases "ur_UpdateType u")
  case INIT
  with h handleInitialSync_wf [OF wf] show ?thesis by (auto simp: HandleUpdate_def nil_deref_def split: option.splits)
next
  case PUNCH
  with h wf node_wfD(1) [OF wf] show ?thesis
    by (auto simp: HandleUpdate_def handlePeerPunchRequest_def intro!: node_wf_world split: option.splits)
next
  case LOGOUT
  with h handleLogout_wf [OF wf] show ?thesis by (auto simp: HandleUpdate_def)
next
  case CONNECT
  with h have c: "handlePeerConnectUpdate L u n = Ret n'" by (simp add: HandleUpdate_def)
  show ?thesis
  proof (cases "n' = n")
    case False
    with c CONNECT obtain l rp ps where l: "ur_PeerList u = Some l" "pl_Count l \<noteq> 0" "pl_Peers l = rp # ps"
      by (auto simp: handlePeerConnectUpdate_def nil_deref_def split: option.splits if_splits list.splits)
    show ?thesis
    proof (cases "map_of (maps_id n) (pb_Id rp)")
      case None
      obtain r m where m: "AddPeer L rp n = (r, m)" by (cases "AddPeer L rp n")
      note A = AddPeer_wf [OF wf m]
      show ?thesis
      proof (cases r)
        case (Some a)
        with c l CONNECT None m have "start_peer a m = Ret (True, n')"
          by (auto simp: handlePeerConnectUpdate_def obind_eq_Ret split: if_splits)
        with start_peer_wf [OF A(1) A(2) [OF Some]] show ?thesis by blast
      qed (use c l CONNECT None m A in \<open>auto simp: handlePeerConnectUpdate_def\<close>)
    next
      case (Some a)
      note a = node_wfD(4) [OF wf Some]
      from h obtain p w where p: "peer_Update L rp (heap n ! a, nworld n) = Ret (True, (p, w))"
        and n': "n' = n\<lparr>heap := (heap n)[a := p], nworld := w\<rparr>"
        unfolding connect_known [OF Some CONNECT l] by (auto simp: obind_eq_Ret split: if_splits)
      have "st_ok (noise L) (p, w)" using Update_ok [OF node_wfD(3) [OF wf a] p] .
      with HandleUpdate_maps_ok [OF node_wfD(2) [OF wf] h] wf a show ?thesis
        by (auto simp: n' node_wf_def st_ok_def list_all_length nth_list_update)
    qed
  qed (use wf in simp)
qed (use h wf in \<open>simp add: HandleUpdate_def\<close>)

lemma sendStunRequest_wf: "node_wf L n \<Longrightarrow> node_wf L (snd (sendStunRequest io n))"
  using node_wfD(1) [of L n] by (auto simp: sendStunRequest_def intro!: node_wf_world split: option.split)

interpretation updates: preserves "HandleUpdate L" "node_wf L" for L
  by unfold_locales (rule HandleUpdate_wf)

lemma life_step_wf:
  assumes wf: "node_wf L n" and s: "life_step L e n = Ret n'"
  shows "node_wf L n'"
proof (cases e)
  case (NLogin r pkce)
  with s wf show ?thesis
    by (auto simp: obind_eq_Ret node_Login_def use_config_def nil_deref_def Let_def
        split: login_reply.splits option.splits if_splits)
next
  case (NUp io early)
  have m: "node_wf L (n\<lparr>initialized := True, nworld := send_udp (binding_request io) a (nworld n)\<rparr>)" for a
    using node_wf_world [of L "n\<lparr>initialized := True\<rparr>"] wf node_wfD(1) [OF wf] by simp
  from NUp s wf show ?thesis
    by (auto simp: Up_during_def node_Start_cases simp del: run_events.simps simp add: obind_eq_Ret
        split: if_splits option.splits dest!: updates.run_inv [OF m])
next
  case NDown
  with s node_Stop_wf [OF wf] show ?thesis by (auto simp: Down_def)
next
  case (NTick c io)
  with s sendStunRequest_wf [OF wf, of io] wf show ?thesis by (auto simp: stunRoutine_tick_def split: if_splits)
qed (use s wf in \<open>auto intro: HandleUpdate_wf ReadUDP_wf ReadTun_wf run_stop_wf\<close>)

end
