(* ===== verification/NodeSafety.thy ===== *)
theory NodeSafety
  imports NodeInvariant
begin

text \<open>
  A node as a system of events: its requests, updates and packets, and the routines and
  timers of its peers, in any order. Which of them can crash the process at all follows
  from the invariant of \<open>NodeInvariant\<close>.
\<close>

section \<open>Everything that happens to a node\<close>





section \<open>What cannot crash\<close>



lemma no_nil_simps [simp]:
  "no_nil (p\<lparr>handshakeSent := t\<rparr>) = no_nil p" "no_nil (p\<lparr>receivedPacket := t\<rparr>) = no_nil p"
  "no_nil (p\<lparr>keepalive := t\<rparr>) = no_nil p" "no_nil (p\<lparr>inTransport := b\<rparr>) = no_nil p"
  "no_nil (p\<lparr>pendingLock := b\<rparr>) = no_nil p" "no_nil (p\<lparr>hstate := s\<rparr>) = no_nil p"
  by (simp_all add: no_nil_def)

definition unusable :: "('hs, 'cs, 'kp) env \<Rightarrow> ('hs, 'cs) Peer \<Rightarrow> bool" where
  "unusable e p \<longleftrightarrow> running p \<and> \<not> accepts_key (lib e) (keyPair e) (pubkey p)"

lemma unusable_simps [simp]:
  "unusable e (p\<lparr>handshakeSent := t\<rparr>) = unusable e p" "unusable e (p\<lparr>receivedPacket := t\<rparr>) = unusable e p"
  "unusable e (p\<lparr>keepalive := t\<rparr>) = unusable e p"
  by (simp_all add: unusable_def)







section \<open>Properties\<close>



end
