(* ===== verification/Isolation.thy ===== *)
theory Isolation
  imports NodeSafety "HOL-Library.Sublist"
begin

text \<open>
  The peers of one node share its buffer pools, its socket and its tunnel. This theory
  shows that they share nothing else: a step of a peer depends on its own state alone,
  and in a run of the node each peer goes through exactly the states, and sends exactly
  the packets, of a run of its own events by themselves.
\<close>

section \<open>Equal outcomes\<close>

lemma rel_obind:
  assumes "rel_outcome R r s" and "\<And>x y. R x y \<Longrightarrow> rel_outcome S (f x) (g y)"
  shows "rel_outcome S (obind r f) (obind s g)"
  using assms by (cases r; cases s) auto

lemma rel_outcome_Ret: "rel_outcome R (Ret x) s \<longleftrightarrow> (\<exists>y. s = Ret y \<and> R x y)"
  by (cases s) auto

section \<open>Two worlds with the same new output\<close>

text \<open>Since \<open>a\<close> and \<open>b\<close>, the same was sent, written and requested in \<open>w\<close> and in \<open>v\<close>.\<close>

definition same_output :: "world \<Rightarrow> world \<Rightarrow> world \<Rightarrow> world \<Rightarrow> bool" where
  "same_output a b w v \<longleftrightarrow>
     (\<exists>us ts ps. udp_out w = udp_out a @ us \<and> udp_out v = udp_out b @ us \<and>
        tun_out w = tun_out a @ ts \<and> tun_out v = tun_out b @ ts \<and>
        punches w = punches a @ ps \<and> punches v = punches b @ ps)"

lemma same_output_refl [simp]: "same_output a b a b"
  by (simp add: same_output_def)

lemma same_output_pools [simp]:
  "same_output a b (w\<lparr>pools := s\<rparr>) v = same_output a b w v" "same_output a b w (v\<lparr>pools := s\<rparr>) = same_output a b w v"
  "same_output a b (put_in i w) v = same_output a b w v" "same_output a b w (put_in i v) = same_output a b w v"
  "same_output a b (put_out x w) v = same_output a b w v" "same_output a b w (put_out x v) = same_output a b w v"
  "same_output a b (snd (get_out c w)) v = same_output a b w v" "same_output a b w (snd (get_out c v)) = same_output a b w v"
  by (simp_all add: same_output_def get_out_frame)

lemma same_output_sends [intro]:
  "same_output a b w v \<Longrightarrow> same_output a b (send_udp m r w) (send_udp m r v)"
  "same_output a b w v \<Longrightarrow> same_output a b (w\<lparr>tun_out := tun_out w @ ts\<rparr>) (v\<lparr>tun_out := tun_out v @ ts\<rparr>)"
  "same_output a b w v \<Longrightarrow> peerID p = peerID q \<Longrightarrow> same_output a b (RequestPunch p w) (RequestPunch q v)"
  by (auto simp: same_output_def send_udp_def RequestPunch_def split: option.split)

section \<open>Peers up to stale headers\<close>

text \<open>
  A pooled buffer keeps the header of its last use, and a keepalive is queued with it.
  Nothing reads it: \<open>Outbound\<close> encodes a new one.
\<close>

definition same_buffer :: "OutboundBuffer \<Rightarrow> OutboundBuffer \<Rightarrow> bool" where
  "same_buffer b c \<longleftrightarrow> shape_out b \<and> shape_out c \<and> ob_packet b = ob_packet c \<and> ob_size b = ob_size c \<and> ob_peer b = ob_peer c"

definition same_peer :: "('hs, 'cs) Peer \<Rightarrow> ('hs, 'cs) Peer \<Rightarrow> bool" where
  "same_peer p q \<longleftrightarrow> q = p\<lparr>outbound := outbound q, outRoutine := outRoutine q\<rparr> \<and>
     list_all2 (rel_option same_buffer) (outbound p) (outbound q) \<and> rel_routine same_buffer (outRoutine p) (outRoutine q)"

lemma same_peerE:
  assumes "same_peer p q"
  obtains x r where "q = p\<lparr>outbound := x, outRoutine := r\<rparr>" "list_all2 (rel_option same_buffer) (outbound p) x"
    "rel_routine same_buffer (outRoutine p) r"
  using assms unfolding same_peer_def by blast

lemma same_peerI [intro]:
  "list_all2 (rel_option same_buffer) (outbound p) x \<Longrightarrow> rel_routine same_buffer (outRoutine p) r \<Longrightarrow>
     same_peer p (p\<lparr>outbound := x, outRoutine := r\<rparr>)"
  by (simp add: same_peer_def)

lemma same_peer_refl:
  assumes "peer_live p"
  shows "same_peer p p"
proof -
  have b: "same_buffer b b" if "out_ok b" for b using that by (simp add: same_buffer_def out_ok_def)
  have "rel_option same_buffer x x" if "x \<in> set (outbound p)" for x
    using peer_liveD(4) [OF assms] that b by (cases x) (auto simp: list_all_iff)
  then have "list_all2 (rel_option same_buffer) (outbound p) (outbound p)" by (rule list.rel_refl_strong)
  moreover have "rel_routine same_buffer (outRoutine p) (outRoutine p)"
    using peer_liveD(6) [OF assms] b by (cases "outRoutine p") auto
  ultimately show ?thesis by (simp add: same_peer_def)
qed

definition same_state :: "world \<Rightarrow> world \<Rightarrow> ('hs, 'cs) pstate \<Rightarrow> ('hs, 'cs) pstate \<Rightarrow> bool" where
  "same_state a b s t \<longleftrightarrow> same_peer (fst s) (fst t) \<and> same_output a b (snd s) (snd t)"

lemma same_state_pair [simp]: "same_state a b (p, w) (q, v) = (same_peer p q \<and> same_output a b w v)"
  by (simp add: same_state_def)

section \<open>Effects of one step\<close>

abbreviation same_outcome ::
  "world \<Rightarrow> world \<Rightarrow> ('hs, 'cs) pstate outcome \<Rightarrow> ('hs, 'cs) pstate outcome \<Rightarrow> bool" where
  "same_outcome a b \<equiv> rel_outcome (same_state a b)"

lemma flushOutbound_same:
  "list_all2 (rel_option same_buffer) x y \<Longrightarrow> same_output a b w v \<Longrightarrow>
     rel_outcome (same_output a b) (flushOutboundQueue x w) (flushOutboundQueue y v)"
proof (induction x y arbitrary: w v rule: list_all2_induct)
  case (Cons o1 x o2 y)
  then show ?case by (cases o1; cases o2) (simp_all add: nil_deref_def)
qed simp

lemma flushInbound_same:
  "same_output a b w v \<Longrightarrow> rel_outcome (same_output a b) (flushInboundQueue x w) (flushInboundQueue x v)"
proof (induction x arbitrary: w v)
  case (Cons o1 x)
  then show ?case by (cases o1) (simp_all add: nil_deref_def)
qed simp

lemma ResetState_same:
  assumes "same_peer p q" and "same_output a b w v"
  shows "same_outcome a b (ResetState (p, w)) (ResetState (q, v))"
proof -
  obtain x r where q: "q = p\<lparr>outbound := x, outRoutine := r\<rparr>" "list_all2 (rel_option same_buffer) (outbound p) x"
    "rel_routine same_buffer (outRoutine p) r" using assms(1) by (rule same_peerE)
  show ?thesis
    unfolding ResetState_def flushQueues_def flushHandshakeQueue_def Let_def prod.case obind_assoc obind.simps
    by (rule rel_obind [where R = "same_output a b"] | simp add: q assms(2) same_peer_def flushInbound_same flushOutbound_same)+
qed

lemma get_out_same:
  assumes "world_ok w" and "world_ok v"
  shows "same_buffer (fst (get_out c w)) (fst (get_out c v))"
  using world_ok_get_out(1) [OF assms(1), of c] world_ok_get_out(1) [OF assms(2), of c]
  by (simp add: same_buffer_def clean_out_shape) (simp add: clean_out_def)

lemma encode_same: "shape_out b \<Longrightarrow> shape_out c \<Longrightarrow> fst (encode_out t i n b) = fst (encode_out t i n c)"
  by (simp add: encode_out_shape)

lemma same_peer_fields:
  assumes "same_peer p q"
  shows "hs q = hs p" "rx q = rx p" "tx q = tx p" "raddr q = raddr p" "peerID q = peerID p" "hstate q = hstate p"
    "initiator q = initiator p" "pubkey q = pubkey p" "running q = running p" "pendingLock q = pendingLock p"
    "inTransport q = inTransport p" "handshakeRetries q = handshakeRetries p" "inbound q = inbound p"
    "handshakes q = handshakes p" "hsRoutine q = hsRoutine p" "inRoutine q = inRoutine p"
    "handshakeSent q = handshakeSent p" "receivedPacket q = receivedPacket p" "keepalive q = keepalive p"
    "length (outbound q) = length (outbound p)"
  using assms by (auto elim!: same_peerE dest: list_all2_lengthD)

lemma same_output_raddr [intro]:
  "same_output a b w v \<Longrightarrow> same_peer p q \<Longrightarrow> same_output a b (send_udp m (raddr p) w) (send_udp m (raddr q) v)"
  using same_peer_fields(4) [of p q] by auto

lemma same_peer_updates [intro!]:
  assumes "same_peer p q"
  shows "same_peer (p\<lparr>hs := h\<rparr>) (q\<lparr>hs := h\<rparr>)" "same_peer (p\<lparr>rx := c\<rparr>) (q\<lparr>rx := c\<rparr>)" "same_peer (p\<lparr>tx := c\<rparr>) (q\<lparr>tx := c\<rparr>)"
    "same_peer (p\<lparr>raddr := a\<rparr>) (q\<lparr>raddr := a\<rparr>)" "same_peer (p\<lparr>hstate := s\<rparr>) (q\<lparr>hstate := s\<rparr>)"
    "same_peer (p\<lparr>initiator := i\<rparr>) (q\<lparr>initiator := i\<rparr>)" "same_peer (p\<lparr>handshakeSent := t\<rparr>) (q\<lparr>handshakeSent := t\<rparr>)"
    "same_peer (p\<lparr>receivedPacket := t\<rparr>) (q\<lparr>receivedPacket := t\<rparr>)" "same_peer (p\<lparr>keepalive := t\<rparr>) (q\<lparr>keepalive := t\<rparr>)"
    "same_peer (p\<lparr>handshakeRetries := n\<rparr>) (q\<lparr>handshakeRetries := n\<rparr>)" "same_peer (p\<lparr>inTransport := i\<rparr>) (q\<lparr>inTransport := i\<rparr>)"
    "same_peer (p\<lparr>pendingLock := i\<rparr>) (q\<lparr>pendingLock := i\<rparr>)" "same_peer (p\<lparr>running := i\<rparr>) (q\<lparr>running := i\<rparr>)"
    "same_peer (p\<lparr>inbound := x\<rparr>) (q\<lparr>inbound := x\<rparr>)" "same_peer (p\<lparr>handshakes := x\<rparr>) (q\<lparr>handshakes := x\<rparr>)"
    "same_peer (p\<lparr>hsRoutine := y\<rparr>) (q\<lparr>hsRoutine := y\<rparr>)" "same_peer (p\<lparr>inRoutine := y\<rparr>) (q\<lparr>inRoutine := y\<rparr>)"
  by (rule same_peerE [OF assms], simp add: same_peer_def)+

lemma same_peer_queues [intro]:
  "same_peer p q \<Longrightarrow> list_all2 (rel_option same_buffer) x y \<Longrightarrow> same_peer (p\<lparr>outbound := x\<rparr>) (q\<lparr>outbound := y\<rparr>)"
  "same_peer p q \<Longrightarrow> rel_routine same_buffer r s \<Longrightarrow> same_peer (p\<lparr>outRoutine := r\<rparr>) (q\<lparr>outRoutine := s\<rparr>)"
  by (erule same_peerE, simp add: same_peer_def)+

lemma handshakeP1_same:
  assumes "same_peer p q" and "same_output a b w v" and "shape_out c" and "shape_out d"
  shows "same_outcome a b (handshakeP1 e c (p, w)) (handshakeP1 e d (q, v))"
  using assms(1,2) same_peer_fields [OF assms(1)] encode_same [OF assms(3,4)]
  by (auto simp: handshakeP1_def nil_deref_def case_prod_beta split: option.split)

lemma TrySendHandshake_same:
  assumes pq: "same_peer p q" and wv: "same_output a b w v" and ok: "world_ok w" "world_ok v"
  shows "same_outcome a b (TrySendHandshake e retry (p, w)) (TrySendHandshake e retry (q, v))"
proof -
  let ?p = "p\<lparr>handshakeRetries := handshakeRetries p + 1\<rparr>" and ?q = "q\<lparr>handshakeRetries := handshakeRetries p + 1\<rparr>"
  note f = same_peer_fields [OF pq]
  have i: "same_peer (fst (InitHandshake e True ?p)) (fst (InitHandshake e True ?q))"
    "snd (InitHandshake e True ?q) = snd (InitHandshake e True ?p)"
    using pq f by (auto simp: InitHandshake_simps)
  define w' v' where "w' = (if retry then RequestPunch ?p w else w)" and "v' = (if retry then RequestPunch ?q v else v)"
  have o': "same_output a b w' v'" "world_ok w'" "world_ok v'"
    using wv ok f(5) by (auto simp: w'_def v'_def)
  have "shape_out (fst (get_out (pk e) w'))" "shape_out (fst (get_out (pk e) v'))"
    using get_out_same [OF o'(2,3)] by (simp_all add: same_buffer_def)
  then have h: "same_outcome a b
      (obind (handshakeP1 e (fst (get_out (pk e) w')) (fst (InitHandshake e True ?p), snd (get_out (pk e) w')))
        (\<lambda>(p, w). Ret (p\<lparr>handshakeSent := Armed 3\<rparr>, w)))
      (obind (handshakeP1 e (fst (get_out (pk e) v')) (fst (InitHandshake e True ?q), snd (get_out (pk e) v')))
        (\<lambda>(p, w). Ret (p\<lparr>handshakeSent := Armed 3\<rparr>, w)))"
    using o'(1) by (intro rel_obind [OF handshakeP1_same [OF i(1)]]) auto
  have r: "same_outcome a b (ResetState (?p\<lparr>handshakeSent := Stopped\<rparr>, w)) (ResetState (?q\<lparr>handshakeSent := Stopped\<rparr>, v))"
    using pq wv by (intro ResetState_same) auto
  show ?thesis
    using h r f(12) i(2) unfolding w'_def v'_def
    by (cases retry) (simp_all add: TrySendHandshake_def Let_def case_prod_beta)
qed

lemma UpdateEndpoint_same:
  assumes "same_peer p q"
  shows "rel_outcome same_peer (UpdateEndpoint x p) (UpdateEndpoint x q)"
    and "rel_outcome same_peer (UpdateEndpointLocked x p) (UpdateEndpointLocked x q)"
  using assms same_peer_fields(4) [OF assms]
  by (auto simp: UpdateEndpoint_def UpdateEndpointLocked_def nil_deref_def split: option.split)

lemma handshakeP2_same:
  assumes pq: "same_peer p q" and wv: "same_output a b w v" and ok: "world_ok w" "world_ok v"
  shows "rel_outcome (rel_prod (=) (same_state a b)) (handshakeP2 e m (p, w)) (handshakeP2 e m (q, v))"
proof (cases "initiator p")
  case True
  with pq wv same_peer_fields [OF pq] show ?thesis
    by (cases "in_payload m")
      (auto simp: handshakeP2_def nil_deref_def split: option.split)
next
  case False
  note f = same_peer_fields [OF pq]
  have i: "same_peer (fst (InitHandshake e False p)) (fst (InitHandshake e False q))"
    using pq f by (auto simp: InitHandshake_simps)
  have s: "shape_out (fst (get_out (pk e) w))" "shape_out (fst (get_out (pk e) v))"
    using get_out_same [OF ok] by (simp_all add: same_buffer_def)
  have answer: "rel_outcome (rel_prod (=) (same_state a b))
     (obind (UpdateEndpointLocked x (fst (InitHandshake e False p)\<lparr>hs := h\<rparr>)) (\<lambda>p.
        let (outbuf, w) = get_out (pk e) w; (final, outbuf) = encode_out MsgHandshake (nid e) 1 outbuf
        in case write_message (lib e) h' of
             None \<Rightarrow> Ret (False, (p\<lparr>rx := None, tx := None\<rparr>, put_in m (put_out outbuf w)))
           | Some (y, h'', cs) \<Rightarrow> Ret (True, (p\<lparr>hs := Some h'', rx := map_option fst cs, tx := map_option snd cs\<rparr>,
               put_in m (put_out outbuf (send_udp (final @ y) (raddr p) w))))))
     (obind (UpdateEndpointLocked x (fst (InitHandshake e False q)\<lparr>hs := h\<rparr>)) (\<lambda>p.
        let (outbuf, w) = get_out (pk e) v; (final, outbuf) = encode_out MsgHandshake (nid e) 1 outbuf
        in case write_message (lib e) h' of
             None \<Rightarrow> Ret (False, (p\<lparr>rx := None, tx := None\<rparr>, put_in m (put_out outbuf w)))
           | Some (y, h'', cs) \<Rightarrow> Ret (True, (p\<lparr>hs := Some h'', rx := map_option fst cs, tx := map_option snd cs\<rparr>,
               put_in m (put_out outbuf (send_udp (final @ y) (raddr p) w))))))" for x h h'
    using i wv encode_same [OF s, of MsgHandshake "nid e" 1]
    by (intro rel_obind [OF UpdateEndpoint_same(2)])
      (auto simp: case_prod_beta Let_def split: option.split)
  have h: "hs (fst (InitHandshake e False q)) = hs (fst (InitHandshake e False p))"
    "snd (InitHandshake e False q) = snd (InitHandshake e False p)"
    using f by (simp_all add: InitHandshake_simps)
  show ?thesis
    using False i wv answer f(7) h
    by (cases "in_payload m") (auto simp: handshakeP2_def nil_deref_def case_prod_beta Let_def split: option.split)
qed

lemma unlock_same: "same_peer p q \<Longrightarrow> rel_outcome same_peer (unlock_pending p) (unlock_pending q)"
  using same_peer_fields(10) [of p q] by (auto simp: unlock_pending_def)

lemma finish_handshake_same:
  assumes "same_peer p q" and "same_output a b w v" and "world_ok w" and "world_ok v"
  shows "same_outcome a b (finish_handshake e m (p, w)) (finish_handshake e m (q, v))"
  unfolding finish_handshake_def
  by (rule rel_obind [OF handshakeP2_same [OF assms]])
    (auto intro!: rel_obind [OF unlock_same] split: if_splits)

lemma Handshake_message_same:
  assumes pq: "same_peer p q" and "same_output a b w v" and "world_ok w" and "world_ok v"
  shows "same_outcome a b (Handshake_message e m (p, w)) (Handshake_message e m (q, v))"
proof -
  note f = same_peer_fields [OF pq]
  have fin: "same_outcome a b (obind (finish_handshake e m (p, w)) (\<lambda>(p, w). Ret (p\<lparr>keepalive := t\<rparr>, w)))
      (obind (finish_handshake e m (q, v)) (\<lambda>(p, w). Ret (p\<lparr>keepalive := t\<rparr>, w)))" for t
    by (rule rel_obind [OF finish_handshake_same [OF assms]]) auto
  have "same_peer (p\<lparr>pendingLock := True\<rparr>) (q\<lparr>pendingLock := True\<rparr>)" using pq by auto
  then have again: "same_outcome a b
      (obind (UpdateEndpoint x (p\<lparr>pendingLock := True\<rparr>)) (\<lambda>p. obind (finish_handshake e m (p, w)) (\<lambda>(p, w).
        Ret (p\<lparr>keepalive := Armed TimerKeepalive, receivedPacket := Armed TimerRxTimeout\<rparr>, w))))
      (obind (UpdateEndpoint x (q\<lparr>pendingLock := True\<rparr>)) (\<lambda>p. obind (finish_handshake e m (p, v)) (\<lambda>(p, w).
        Ret (p\<lparr>keepalive := Armed TimerKeepalive, receivedPacket := Armed TimerRxTimeout\<rparr>, w))))" for x
    by (intro rel_obind [OF UpdateEndpoint_same(1)] rel_obind [OF finish_handshake_same [OF _ assms(2-4)]]) auto
  show ?thesis
    using fin again by (simp add: Handshake_message_def lock_pending_def f)
qed

lemma Handshake_same:
  assumes pq: "same_peer p q" and "same_output a b w v" and "world_ok w" and "world_ok v"
  shows "same_outcome a b (Handshake e (p, w)) (Handshake e (q, v))"
proof -
  have "same_peer (p\<lparr>handshakes := x\<rparr>) (q\<lparr>handshakes := x\<rparr>)" for x using pq by auto
  from Handshake_message_same [OF this assms(2-4)] show ?thesis
    using pq assms(2) same_peer_fields(14,15) [OF pq] by (auto simp: Handshake_def split: option.split)
qed

lemma Inbound_packet_same:
  assumes pq: "same_peer p q" and wv: "same_output a b w v"
  shows "same_outcome a b (Inbound_packet e m (p, w)) (Inbound_packet e m (q, v))"
proof (cases "rx p")
  case None
  with same_peer_fields(2) [OF pq] show ?thesis by (simp add: Inbound_packet_def nil_deref_def)
next
  case (Some c)
  have upd: "same_outcome a b (obind (UpdateEndpoint x (p\<lparr>rx := d, receivedPacket := t\<rparr>)) (\<lambda>p. Ret (p, put_in i w')))
      (obind (UpdateEndpoint x (q\<lparr>rx := d, receivedPacket := t\<rparr>)) (\<lambda>p. Ret (p, put_in i v')))"
    if "same_output a b w' v'" for x d t i w' v'
    using pq that by (intro rel_obind [OF UpdateEndpoint_same(1)]) auto
  have t: "same_output a b (w\<lparr>tun_out := tun_out w @ ts\<rparr>) (v\<lparr>tun_out := tun_out v @ ts\<rparr>)" for ts using wv by blast
  show ?thesis
    using pq wv Some same_peer_fields(2) [OF pq] upd [OF wv] upd [OF t]
    by (cases "in_payload m") (auto simp: Inbound_packet_def Let_def case_prod_beta)
qed

lemma Outbound_packet_same:
  assumes pq: "same_peer p q" and wv: "same_output a b w v" and m: "same_buffer m m'"
  shows "same_outcome a b (Outbound_packet e m (p, w)) (Outbound_packet e m' (q, v))"
proof (cases "tx p")
  case None
  with same_peer_fields(3) [OF pq] show ?thesis by (simp add: Outbound_packet_def nil_deref_def)
next
  case (Some c)
  define n where "n = cs_Nonce (lib e) c"
  have s: "shape_out m" "shape_out m'" using m by (simp_all add: same_buffer_def)
  note E = encode_out_shape [OF s(1), of MsgData "nid e" n] encode_out_shape [OF s(2), of MsgData "nid e" n]
  have pay: "out_payload (snd (encode_out MsgData (nid e) n m')) = out_payload (snd (encode_out MsgData (nid e) n m))"
    using m E by (simp add: out_payload_def same_buffer_def)
  show ?thesis
    using pq wv Some same_peer_fields(3) [OF pq] E(4,8) pay
    by (cases "out_payload (snd (encode_out MsgData (nid e) n m))")
      (auto simp: Outbound_packet_def Let_def case_prod_beta simp flip: n_def split: option.split)
qed

lemma Inbound_same:
  assumes pq: "same_peer p q" and wv: "same_output a b w v"
  shows "same_outcome a b (Inbound e (p, w)) (Inbound e (q, v))"
proof -
  have i: "same_peer (p\<lparr>inRoutine := Idle\<rparr>) (q\<lparr>inRoutine := Idle\<rparr>)" using pq by auto
  show ?thesis
    using pq wv Inbound_packet_same [OF i wv] same_peer_fields(10,13,16) [OF pq]
    by (cases "inRoutine p") (auto simp: Inbound_def split: option.split)
qed

lemma Outbound_same:
  assumes pq: "same_peer p q" and wv: "same_output a b w v"
  shows "same_outcome a b (Outbound e (p, w)) (Outbound e (q, v))"
proof -
  obtain x r where q: "q = p\<lparr>outbound := x, outRoutine := r\<rparr>" "list_all2 (rel_option same_buffer) (outbound p) x"
    "rel_routine same_buffer (outRoutine p) r" using pq by (rule same_peerE)
  have i: "same_peer (p\<lparr>outRoutine := Idle\<rparr>) (q\<lparr>outRoutine := Idle\<rparr>)" using pq by (intro same_peer_queues) simp_all
  note f = same_peer_fields [OF pq]
  show ?thesis
  proof (cases "outRoutine p")
    case Exited
    then show ?thesis using q pq wv by (cases r) (simp_all add: Outbound_def)
  next
    case Idle
    then have r: "r = Idle" using q(3) by (cases r) auto
    show ?thesis
    proof (cases "outbound p")
      case Nil
      then show ?thesis using Idle r q pq wv by (simp add: Outbound_def)
    next
      case (Cons y ys)
      then obtain z zs where x: "x = z # zs" "rel_option same_buffer y z" "list_all2 (rel_option same_buffer) ys zs"
        using q(2) by (auto simp: list_all2_Cons1)
      have "same_peer (p\<lparr>outbound := ys, outRoutine := s\<rparr>) (q\<lparr>outbound := zs, outRoutine := t\<rparr>)" if "rel_routine same_buffer s t" for s t
        using pq x(3) that by (intro same_peer_queues)
      then show ?thesis
        using Idle r Cons x wv unfolding q(1) by (cases y; cases z) (simp_all add: Outbound_def)
    qed
  next
    case (Holding m)
    then obtain m' where "r = Holding m'" "same_buffer m m'" using q(3) by (cases r) auto
    with Holding q(1) Outbound_packet_same [OF i wv, where e = e] show ?thesis by (simp add: Outbound_def)
  qed
qed

lemma same_buffer_refl: "out_ok m \<Longrightarrow> same_buffer m m"
  by (simp add: same_buffer_def out_ok_def)

lemma send_same:
  assumes "list_all2 (rel_option same_buffer) x y" and "same_buffer m m'"
  shows "rel_option (list_all2 (rel_option same_buffer)) (chan_send c (Some m) x) (chan_send c (Some m') y)"
  using assms list_all2_lengthD [OF assms(1)] by (simp add: chan_send_def list_all2_appendI)

lemma same_outbound: "same_peer p q \<Longrightarrow> list_all2 (rel_option same_buffer) (outbound p) (outbound q)"
  by (simp add: same_peer_def)

lemma OutboundPacket_same:
  assumes pq: "same_peer p q" and wv: "same_output a b w v" and ok: "world_ok w" "world_ok v" and m: "out_ok m"
  shows "same_outcome a b (OutboundPacket e m (p, w)) (OutboundPacket e m (q, v))"
proof -
  note f = same_peer_fields [OF pq]
  let ?p = "case chan_send OutboundChannelSize (Some m) (outbound p) of Some x \<Rightarrow> p\<lparr>outbound := x\<rparr> | None \<Rightarrow> p"
  let ?q = "case chan_send OutboundChannelSize (Some m) (outbound q) of Some x \<Rightarrow> q\<lparr>outbound := x\<rparr> | None \<Rightarrow> q"
  have s: "same_peer ?p ?q"
    using send_same [OF same_outbound [OF pq] same_buffer_refl [OF m], of OutboundChannelSize] pq
    by (cases "chan_send OutboundChannelSize (Some m) (outbound p)"; cases "chan_send OutboundChannelSize (Some m) (outbound q)")
      (auto intro: same_peer_queues)
  show ?thesis
    using TrySendHandshake_same [OF s wv ok, of e False] s wv pq f(9) same_peer_fields(6,11) [OF s]
    by (simp add: OutboundPacket_def Let_def)
qed

lemma packets_same:
  assumes pq: "same_peer p q" and wv: "same_output a b w v"
  shows "same_state a b (InboundPacket m (p, w)) (InboundPacket m (q, v))"
    and "same_outcome a b (HandshakePacket m (p, w)) (HandshakePacket m (q, v))"
  using pq wv same_peer_fields(9,13,14) [OF pq]
  by (auto simp: InboundPacket_def HandshakePacket_def chan_send_wait_def split: option.split)

lemma timers_same:
  assumes pq: "same_peer p q" and wv: "same_output a b w v" and ok: "world_ok w" "world_ok v"
  shows "same_outcome a b (HandshakeTimeout e (p, w)) (HandshakeTimeout e (q, v))"
    and "same_outcome a b (RXTimeout e (p, w)) (RXTimeout e (q, v))"
    and "same_outcome a b (TXTimeout e self (p, w)) (TXTimeout e self (q, v))"
proof -
  note f = same_peer_fields [OF pq]
  have "same_peer (p\<lparr>inTransport := False\<rparr>) (q\<lparr>inTransport := False\<rparr>)" using pq by auto
  from TrySendHandshake_same [OF this wv ok] show "same_outcome a b (HandshakeTimeout e (p, w)) (HandshakeTimeout e (q, v))"
    using pq wv f by (auto simp: HandshakeTimeout_def Let_def)
  let ?p = "p\<lparr>keepalive := Stopped, receivedPacket := Stopped, pendingLock := True, hstate := 0\<rparr>"
  let ?q = "q\<lparr>keepalive := Stopped, receivedPacket := Stopped, pendingLock := True, hstate := 0\<rparr>"
  have s: "same_peer ?p ?q" "same_peer (?p\<lparr>receivedPacket := Stopped, handshakeSent := Stopped\<rparr>)
    (?q\<lparr>receivedPacket := Stopped, handshakeSent := Stopped\<rparr>)" using pq by auto
  show "same_outcome a b (RXTimeout e (p, w)) (RXTimeout e (q, v))"
    using TrySendHandshake_same [OF s(1) wv ok] ResetState_same [OF s(2) wv] pq wv f
    by (auto simp: RXTimeout_def Let_def lock_pending_def)
  have "same_buffer (fst (get_out (pk e) w)\<lparr>ob_peer := Some self\<rparr>) (fst (get_out (pk e) v)\<lparr>ob_peer := Some self\<rparr>)"
    using get_out_same [OF ok, of "pk e"] by (simp add: same_buffer_def shape_out_def)
  then show "same_outcome a b (TXTimeout e self (p, w)) (TXTimeout e self (q, v))"
    using same_outbound [OF pq] pq wv
    by (cases "outbound p") (auto simp: TXTimeout_def case_prod_beta Let_def OutboundChannelSize_def list_all2_Cons1 intro!: same_peer_queues)
qed

lemma peer_Start_same:
  assumes pq: "same_peer p q" and wv: "same_output a b w v"
  shows "same_outcome a b (obind (peer_Start p) (\<lambda>(_, p). Ret (p, w))) (obind (peer_Start q) (\<lambda>(_, p). Ret (p, v)))"
proof -
  have "same_peer (p\<lparr>pendingLock := True, inRoutine := Idle, outRoutine := Idle, hsRoutine := Idle, running := True, inTransport := False\<rparr>)
      (q\<lparr>pendingLock := True, inRoutine := Idle, outRoutine := Idle, hsRoutine := Idle, running := True, inTransport := False\<rparr>)"
    using pq by (auto intro!: same_peer_queues)
  then show ?thesis using pq wv same_peer_fields(9,10) [OF pq] by (simp add: peer_Start_def lock_pending_def)
qed

lemma await_same:
  assumes "list_all2 (rel_option same_buffer) x y" and "rel_routine same_buffer r s"
  shows "rel_outcome (list_all2 (rel_option same_buffer)) (await_routine x r l) (await_routine y s l)"
  using assms by (cases r; cases s) (simp_all add: await_routine_def nil_deref_def list_all2_appendI)

lemma peer_Stop_same:
  assumes pq: "same_peer p q" and wv: "same_output a b w v"
  shows "same_outcome a b (peer_Stop (p, w)) (peer_Stop (q, v))"
proof -
  have r: "same_peer (p\<lparr>running := False\<rparr>) (q\<lparr>running := False\<rparr>)" using pq by auto
  have stop: "same_outcome a b
     (obind (await_routine (handshakes p) (hsRoutine p) (pendingLock p)) (\<lambda>hq.
        obind (await_routine (inbound p) (inRoutine p) (pendingLock p)) (\<lambda>iq.
        obind (await_routine (outbound p) (outRoutine p) (pendingLock p)) (\<lambda>oq.
        obind (unlock_pending (p\<lparr>handshakes := hq, inbound := iq, outbound := oq,
                 hsRoutine := Exited, inRoutine := Exited, outRoutine := Exited\<rparr>)) (\<lambda>p. Ret (p, w))))))
     (obind (await_routine (handshakes q) (hsRoutine q) (pendingLock q)) (\<lambda>hq.
        obind (await_routine (inbound q) (inRoutine q) (pendingLock q)) (\<lambda>iq.
        obind (await_routine (outbound q) (outRoutine q) (pendingLock q)) (\<lambda>oq.
        obind (unlock_pending (q\<lparr>handshakes := hq, inbound := iq, outbound := oq,
                 hsRoutine := Exited, inRoutine := Exited, outRoutine := Exited\<rparr>)) (\<lambda>p. Ret (p, v))))))"
    if pq: "same_peer p q" and wv: "same_output a b w v" for p q :: "('a, 'b) Peer" and w v
  proof -
    note f = same_peer_fields [OF pq]
    have o': "rel_outcome (list_all2 (rel_option same_buffer)) (await_routine (outbound p) (outRoutine p) (pendingLock p))
        (await_routine (outbound q) (outRoutine q) (pendingLock p))"
      using pq by (intro await_same) (auto simp: same_peer_def)
    have rest: "rel_outcome (same_state a b)
       (obind (await_routine (outbound p) (outRoutine p) (pendingLock p)) (\<lambda>oq.
          obind (unlock_pending (p\<lparr>handshakes := hq, inbound := iq, outbound := oq,
                 hsRoutine := Exited, inRoutine := Exited, outRoutine := Exited\<rparr>)) (\<lambda>p. Ret (p, w))))
       (obind (await_routine (outbound q) (outRoutine q) (pendingLock p)) (\<lambda>oq.
          obind (unlock_pending (q\<lparr>handshakes := hq, inbound := iq, outbound := oq,
                 hsRoutine := Exited, inRoutine := Exited, outRoutine := Exited\<rparr>)) (\<lambda>p. Ret (p, v))))" for hq iq
      using pq wv by (intro rel_obind [OF o'] rel_obind [OF unlock_same]) (auto intro!: same_peer_queues)
    show ?thesis
      unfolding f
      by (rule rel_obind [where R = "(=)"], simp add: outcome.rel_eq, rule rel_obind [where R = "(=)"], simp add: outcome.rel_eq)
        (simp add: rest)
  qed
  have same: "stopping q = stopping p" by (simp add: stopping_def same_peer_fields [OF pq])
  show ?thesis
  proof (cases "stopping p")
    case False
    then show ?thesis
      unfolding peer_Stop_def prod.case same if_not_P [OF False]
      by (intro rel_obind [OF ResetState_same [OF r wv]]) (clarsimp, rule stop)
  qed (simp add: peer_Stop_def same)
qed

text \<open>The outcome of a step, its new state and its output do not depend on the rest of the node.\<close>

lemma peer_step_same:
  assumes pq: "same_peer p q" and wv: "same_output a b w v" and ok: "world_ok w" "world_ok v" and ev: "event_ok ev"
  shows "same_outcome a b (peer_step e self ev (p, w)) (peer_step e self ev (q, v))"
proof -
  have s: "same_peer (p\<lparr>handshakeSent := Stopped\<rparr>) (q\<lparr>handshakeSent := Stopped\<rparr>)"
    "same_peer (p\<lparr>receivedPacket := Stopped\<rparr>) (q\<lparr>receivedPacket := Stopped\<rparr>)"
    "same_peer (p\<lparr>keepalive := Stopped\<rparr>) (q\<lparr>keepalive := Stopped\<rparr>)" using pq by auto
  show ?thesis
    using pq wv ev OutboundPacket_same [OF pq wv ok, where e = e] packets_same [OF pq wv]
      Inbound_same [OF pq wv, where e = e] Outbound_same [OF pq wv, where e = e] Handshake_same [OF pq wv ok, where e = e]
      timers_same(1) [OF s(1) wv ok, where e = e] timers_same(2) [OF s(2) wv ok, where e = e]
      timers_same(3) [OF s(3) wv ok, where e = e and self = self]
      peer_Start_same [OF pq wv] peer_Stop_same [OF pq wv] same_peer_fields(17-19) [OF pq]
    by (cases ev) (simp_all del: same_state_pair, simp_all)
qed

section \<open>Runs of a node and of its peers\<close>

definition adds :: "world \<Rightarrow> world \<Rightarrow> (bytes \<times> UDPAddr) list \<Rightarrow> bytes list \<Rightarrow> u32 list \<Rightarrow> bool" where
  "adds w w' us ts ps \<longleftrightarrow> udp_out w' = udp_out w @ us \<and> tun_out w' = tun_out w @ ts \<and> punches w' = punches w @ ps"

definition contributes :: "world \<Rightarrow> world \<Rightarrow> world \<Rightarrow> world \<Rightarrow> bool" where
  "contributes v v' w w' \<longleftrightarrow>
     (\<exists>us ts ps us' ts' ps'. adds v v' us ts ps \<and> adds w w' us' ts' ps' \<and> subseq us us' \<and> subseq ts ts' \<and> subseq ps ps')"

lemma contributes_refl [simp]: "contributes v v w w"
  unfolding contributes_def adds_def by (intro exI [of _ "[]"]) simp

lemma contributes_same: "same_output w v w' v' \<Longrightarrow> contributes v v' w w'"
  unfolding same_output_def contributes_def adds_def by blast

lemma contributes_other: "same_output w v w' v' \<Longrightarrow> contributes x x w w'"
  unfolding same_output_def contributes_def adds_def
  by (elim exE) (intro exI [of _ "[]"] exI, auto)

lemma contributes_trans:
  assumes "contributes v v1 w w1" and "contributes v1 v2 w1 w2"
  shows "contributes v v2 w w2"
proof -
  from assms obtain us ts ps us' ts' ps' xs ys zs xs' ys' zs' where
    "adds v v1 us ts ps" "adds w w1 us' ts' ps'" "subseq us us'" "subseq ts ts'" "subseq ps ps'"
    "adds v1 v2 xs ys zs" "adds w1 w2 xs' ys' zs'" "subseq xs xs'" "subseq ys ys'" "subseq zs zs'"
    unfolding contributes_def by blast
  then have "adds v v2 (us @ xs) (ts @ ys) (ps @ zs) \<and> adds w w2 (us' @ xs') (ts' @ ys') (ps' @ zs') \<and>
      subseq (us @ xs) (us' @ xs') \<and> subseq (ts @ ys) (ts' @ ys') \<and> subseq (ps @ zs) (ps' @ zs')"
    by (simp add: adds_def list_emb_append_mono)
  then show ?thesis unfolding contributes_def by blast
qed

definition peers_ok :: "('hs, 'cs, 'kp) node_libs \<Rightarrow> ('hs, 'cs, 'kp) Node \<Rightarrow> bool" where
  "peers_ok L n \<longleftrightarrow> world_ok (nworld n) \<and> list_all (peer_ok (noise L)) (heap n)"

lemma peers_ok_nth: "peers_ok L n \<Longrightarrow> a < length (heap n) \<Longrightarrow> st_ok (noise L) (heap n ! a, nworld n)"
  by (simp add: peers_ok_def st_ok_def list_all_length)

lemma peers_ok_put: "peers_ok L n \<Longrightarrow> st_ok (noise L) st \<Longrightarrow> peers_ok L (put_peer a n st)"
  by (cases "a < length (heap n)") (auto simp: peers_ok_def st_ok_def put_peer_def list_all_length nth_list_update)

lemma peer_ok_live: "peer_ok l p \<Longrightarrow> peer_live p"
  by (auto simp: peer_ok_def stuck_def)

definition node_run :: "('hs, 'cs, 'kp) node_libs \<Rightarrow> (nat \<times> peer_event) list \<Rightarrow> ('hs, 'cs, 'kp) Node \<Rightarrow> ('hs, 'cs, 'kp) Node outcome" where
  "node_run L = run_events (\<lambda>(a, ev). peer_routine L a ev)"

definition events_of :: "nat \<Rightarrow> (nat \<times> peer_event) list \<Rightarrow> peer_event list" where
  "events_of a evs = map snd (filter (\<lambda>(b, _). b = a) evs)"

lemma node_run_simps [simp]:
  "node_run L [] n = Ret n"
  "node_run L ((b, ev) # evs) n = obind (peer_step (node_env L n) b ev (heap n ! b, nworld n)) (\<lambda>st. node_run L evs (put_peer b n st))"
  by (simp_all add: node_run_def peer_routine_def with_peer_put obind_assoc)

lemma events_of_simps [simp]:
  "events_of a [] = []" "events_of a ((b, ev) # evs) = (if b = a then ev # events_of a evs else events_of a evs)"
  by (simp_all add: events_of_def)

lemma node_run_decomposes:
  assumes ik: "noise_ik (noise L)" and "peers_ok L n" and "list_all (\<lambda>(b, ev). b < length (heap n) \<and> event_ok ev) evs"
    and "node_run L evs n = Ret n'" and "a < length (heap n)" and "same_peer (heap n ! a) p" and "st_ok (noise L) (p, w)"
  shows "\<exists>p' w'. run_events (peer_step (node_env L n) a) (events_of a evs) (p, w) = Ret (p', w') \<and>
     same_peer (heap n' ! a) p' \<and> contributes w w' (nworld n) (nworld n')"
  using assms(2-)
proof (induction evs arbitrary: n p w)
  case (Cons bev evs)
  obtain b ev where bev: "bev = (b, ev)" by (cases bev)
  have b: "b < length (heap n)" and ev: "event_ok ev" using Cons.prems(2) by (simp_all add: bev)
  obtain r v where st: "peer_step (node_env L n) b ev (heap n ! b, nworld n) = Ret (r, v)"
    and run: "node_run L evs (put_peer b n (r, v)) = Ret n'"
    using Cons.prems(3) by (auto simp: bev obind_eq_Ret)
  let ?n = "put_peer b n (r, v)"
  have e: "lib (node_env L n) = noise L" by (simp add: node_env_def)
  note okb = peers_ok_nth [OF Cons.prems(1) b]
  have rok: "st_ok (noise L) (r, v)"
    using event_step_ok [of "node_env L n", unfolded e, OF ik okb ev st] .
  have ok: "peers_ok L ?n" using peers_ok_put [OF Cons.prems(1) rok] .
  have evs: "list_all (\<lambda>(b, ev). b < length (heap ?n) \<and> event_ok ev) evs" using Cons.prems(2) by (simp add: bev)
  have a: "a < length (heap ?n)" using Cons.prems(4) by simp
  have worlds: "world_ok (nworld n)" "world_ok w" using Cons.prems(1,6) by (simp_all add: peers_ok_def st_ok_def)
  show ?case
  proof (cases "b = a")
    case True
    have "same_outcome (nworld n) w (peer_step (node_env L n) a ev (heap n ! a, nworld n)) (peer_step (node_env L n) a ev (p, w))"
      by (rule peer_step_same [OF Cons.prems(5) same_output_refl worlds ev])
    then obtain p1 w1 where one: "peer_step (node_env L n) a ev (p, w) = Ret (p1, w1)" "same_peer r p1" "same_output (nworld n) w v w1"
      using st True by (auto simp: rel_outcome_Ret)
    have "st_ok (noise L) (p1, w1)" using event_step_ok [of "node_env L n", unfolded e, OF ik Cons.prems(6) ev one(1)] .
    moreover have "same_peer (heap ?n ! a) p1" using one(2) True Cons.prems(4) by simp
    ultimately obtain p' w' where rest: "run_events (peer_step (node_env L ?n) a) (events_of a evs) (p1, w1) = Ret (p', w')"
      "same_peer (heap n' ! a) p'" "contributes w1 w' (nworld ?n) (nworld n')"
      using Cons.IH [OF ok evs run a] by blast
    have "contributes w w1 (nworld n) (nworld ?n)" using contributes_same [OF one(3)] by simp
    from contributes_trans [OF this rest(3)] have "contributes w w' (nworld n) (nworld n')" .
    moreover have "run_events (peer_step (node_env L n) a) (events_of a (bev # evs)) (p, w) = Ret (p', w')"
      using one(1) rest(1) True by (simp add: bev)
    ultimately show ?thesis using rest(2) by blast
  next
    case False
    have "same_peer (heap n ! b) (heap n ! b)"
      using peer_ok_live okb same_peer_refl by (auto simp: st_ok_def)
    from peer_step_same [OF this same_output_refl worlds(1) worlds(1) ev, of "node_env L n" b] st
    have "same_output (nworld n) (nworld n) v v" by simp
    then have idle: "contributes w w (nworld n) (nworld ?n)" using contributes_other by simp
    have "same_peer (heap ?n ! a) p" using Cons.prems(4,5) False by (simp add: put_peer_def)
    from Cons.IH [OF ok evs run a this Cons.prems(6)] obtain p' w' where
      rest: "run_events (peer_step (node_env L ?n) a) (events_of a evs) (p, w) = Ret (p', w')"
      "same_peer (heap n' ! a) p'" "contributes w w' (nworld ?n) (nworld n')" by blast
    from contributes_trans [OF idle rest(3)] have "contributes w w' (nworld n) (nworld n')" .
    moreover have "run_events (peer_step (node_env L n) a) (events_of a (bev # evs)) (p, w) = Ret (p', w')"
      using rest(1) False by (simp add: bev)
    ultimately show ?thesis using rest(2) by blast
  qed
qed simp

section \<open>Properties\<close>

text \<open>
  C7 (equivalence). The peers of a node do not interfere. Take any run of a well-formed node
  in which packets, starts, stops, routines and timers of all its peers interleave in any
  order. Then the events of each single peer, run by themselves in a world with any clean
  buffer pools, return as well; the peer ends in the same state, its queued
  buffers up to headers that are overwritten before they are sent; and what it sent, wrote
  to the tunnel and asked to punch is, in the same order, part of what the node sent, wrote and
  asked for. So neither the shared buffer pools nor the schedule carry anything from one
  peer to another.
\<close>

theorem peers_are_isolated:
  assumes "noise_ik (noise L)" and "node_wf L n" and "list_all (\<lambda>(b, ev). b < length (heap n) \<and> event_ok ev) evs"
    and "node_run L evs n = Ret n'" and "a < length (heap n)" and "world_ok w"
  shows "\<exists>p w'. run_events (peer_step (node_env L n) a) (events_of a evs) (heap n ! a, w) = Ret (p, w') \<and>
     same_peer (heap n' ! a) p \<and> contributes w w' (nworld n) (nworld n')"
proof -
  have p: "peer_ok (noise L) (heap n ! a)" using node_wfD(3) [OF assms(2,5)] by (simp add: st_ok_def)
  show ?thesis
    using assms(2) p assms(6)
    by (intro node_run_decomposes [OF assms(1) _ assms(3-5)] same_peer_refl peer_ok_live [OF p])
      (simp_all add: peers_ok_def node_wf_def st_ok_def)
qed

text \<open>Two peers of one node send their first handshake messages.\<close>

definition toy_pair :: "(bool \<times> nat, u64, unit) Node" where
  "toy_pair = toy_node\<lparr>heap := [started toy_peer, started toy_peer], maps_id := [], maps_ip := []\<rparr>"

lemma toy_pair_wf: "node_wf toy_libs toy_pair"
proof -
  have "peer_wf toy_noise (started toy_peer)" "peer_live (started toy_peer)"
    by (simp_all add: started_def toy_peer_def added_peer_def NewPeer_def peer_wf_def no_nil_def peer_live_def)
  then show ?thesis
    by (simp add: node_wf_def toy_pair_def toy_node_def maps_ok_def quiet_world_ok peer_ok_def) (simp add: toy_libs_def)
qed

lemma toy_peer_sends:
  "\<exists>p' w'. OutboundPacket (node_env toy_libs toy_pair) NewOutboundBuffer (started toy_peer, w) = Ret (p', w')"
proof -
  let ?p = "(started toy_peer)\<lparr>outbound := [Some NewOutboundBuffer]\<rparr>"
  have p: "raddr ?p = Some (udp_addr 1)" "no_nil ?p"
    by (simp_all add: started_def toy_peer_def added_peer_def NewPeer_def no_nil_def)
  have e: "accepts_key (lib (node_env toy_libs toy_pair)) (keyPair (node_env toy_libs toy_pair)) (pubkey ?p)"
    by (simp add: node_env_def toy_libs_def)
  have "\<exists>p' w'. TrySendHandshake (node_env toy_libs toy_pair) False (?p, w) = Ret (p', w')"
    by (rule TrySendHandshake_sends [OF e p, of False w]) auto
  moreover have "OutboundPacket (node_env toy_libs toy_pair) NewOutboundBuffer (started toy_peer, w) =
      TrySendHandshake (node_env toy_libs toy_pair) False (?p, w)"
    by (simp add: OutboundPacket_def started_def toy_peer_def added_peer_def NewPeer_def chan_send_def OutboundChannelSize_def)
  ultimately show ?thesis by simp
qed

theorem peers_are_isolated_witness:
  "\<exists>n' p w'. node_run toy_libs [(0, EvOutboundPacket NewOutboundBuffer), (1, EvOutboundPacket NewOutboundBuffer)] toy_pair = Ret n' \<and>
     peer_step (node_env toy_libs toy_pair) 0 (EvOutboundPacket NewOutboundBuffer) (heap toy_pair ! 0, quiet_world) = Ret (p, w') \<and>
     same_peer (heap n' ! 0) p \<and> contributes quiet_world w' quiet_world (nworld n')"
proof -
  let ?evs = "[(0, EvOutboundPacket NewOutboundBuffer), (1, EvOutboundPacket NewOutboundBuffer)]"
  have ik: "noise_ik (noise toy_libs)" using toy_noise_ik by (simp add: toy_libs_def)
  have evs: "list_all (\<lambda>(b, ev). b < length (heap toy_pair) \<and> event_ok ev) ?evs"
    by (simp add: toy_pair_def NewOutboundBuffer_ok)
  have a: "0 < length (heap toy_pair)" by (simp add: toy_pair_def)
  have sends: "\<exists>p' w'. OutboundPacket (node_env toy_libs toy_pair) NewOutboundBuffer (started toy_peer, w) = Ret (p', w')" for w
    by (rule toy_peer_sends)
  then obtain p1 w1 where 1: "OutboundPacket (node_env toy_libs toy_pair) NewOutboundBuffer (started toy_peer, quiet_world) = Ret (p1, w1)" by blast
  from sends obtain p2 w2 where 2: "OutboundPacket (node_env toy_libs toy_pair) NewOutboundBuffer (started toy_peer, w1) = Ret (p2, w2)" by blast
  have h: "heap toy_pair = [started toy_peer, started toy_peer]" by (simp add: toy_pair_def)
  have h1: "heap (put_peer 0 toy_pair (p1, w1)) ! 1 = started toy_peer" by (simp add: h put_peer_def)
  have w: "nworld toy_pair = quiet_world" by (simp add: toy_pair_def toy_node_def)
  have n': "node_run toy_libs ?evs toy_pair = Ret (put_peer 1 (put_peer 0 toy_pair (p1, w1)) (p2, w2))"
    using 1 2 h1 by (simp add: h w)
  from peers_are_isolated [OF ik toy_pair_wf evs n' a quiet_world_ok] n' w show ?thesis by (auto simp: obind_eq_Ret)
qed

end
