(* ===== verification/Races.thy ===== *)
theory Races
  imports NodeSafety
begin

text \<open>
  Timers that fire late. \<open>time.AfterFunc\<close> runs its function in a goroutine of its own, and
  \<open>Stop\<close> neither waits for it nor takes it back. \<open>peer_step\<close> runs a callback at the
  moment its timer expires; here the expiry of the handshake timer (src/node/peer.go,
  src/node/peer_transport.go) and the run of its callback are two steps, and anything can
  happen to the peer between them. The callback tests \<open>state > 0\<close>, which also holds for a
  peer whose session was completed in the meantime.
\<close>

section \<open>Callbacks under way\<close>

text \<open>The first component counts the callbacks that were started and did not run yet.\<close>

datatype race_event = Expire | Callback | Peer_event peer_event

fun race_step ::
  "('hs, 'cs, 'kp) env \<Rightarrow> nat \<Rightarrow> race_event \<Rightarrow> nat \<times> ('hs, 'cs) pstate \<Rightarrow> (nat \<times> ('hs, 'cs) pstate) outcome" where
  "race_step e self Expire (k, p, w) =
     Ret (if handshakeSent p = Stopped then (k, p, w) else (Suc k, p\<lparr>handshakeSent := Stopped\<rparr>, w))"
| "race_step e self Callback (k, st) =
     (if k = 0 then Ret (k, st) else obind (HandshakeTimeout e st) (\<lambda>st. Ret (k - 1, st)))"
| "race_step e self (Peer_event ev) (k, st) = obind (peer_step e self ev st) (\<lambda>st. Ret (k, st))"

text \<open>A callback that runs at once is the timer event of the peer.\<close>

lemma prompt_callback:
  assumes "handshakeSent p \<noteq> Stopped"
  shows "run_events (race_step e self) [Expire, Callback] (k, p, w) = race_step e self (Peer_event EvHandshakeTimer) (k, p, w)"
  using assms by (simp add: obind_assoc)

lemma race_run_events:
  "run_events (race_step e self) (map Peer_event evs) (k, st) = obind (run_events (peer_step e self) evs st) (\<lambda>st. Ret (k, st))"
  by (induction evs arbitrary: st) (simp_all add: obind_assoc)

section \<open>A retry in the middle of a session\<close>

text \<open>A peer that waits for a reply although it has a session and released the lock.\<close>

definition misplaced :: "('hs, 'cs) Peer \<Rightarrow> bool" where
  "misplaced p \<longleftrightarrow> running p \<and> hstate p = 1 \<and> initiator p \<and> hs p \<noteq> None \<and> \<not> pendingLock p \<and> rx p \<noteq> None \<and> tx p \<noteq> None \<and>
     handshakes p = [] \<and> hsRoutine p = Idle"

lemma misplaced_not_wf: "misplaced p \<Longrightarrow> \<not> peer_wf l p"
  using peer_wfD(11) [of l p] by (auto simp: misplaced_def)

lemma misplaced_crashes:
  assumes "misplaced p" and "in_ok b"
  shows "is_panic (run_events (peer_step e self) [EvHandshakePacket b, EvHandshake] (p, w))"
proof -
  obtain h where h: "hs p = Some h" using assms(1) by (auto simp: misplaced_def)
  have "is_panic (Handshake_message e b (p, w))"
    using assms(1) h
    by (cases "read_message (lib e) h (drop HeaderLen (take (ib_size b) (backing (ib_in b))))")
      (auto simp: misplaced_def Handshake_message_def finish_handshake_def handshakeP2_def unlock_pending_def in_payload_Ret [OF assms(2)])
  then show ?thesis using assms(1) handshake_step [of p e self b w] by (simp add: misplaced_def)
qed

lemma late_callback:
  assumes "accepts_key (lib e) (keyPair e) (pubkey p)" and "in_session key t kr a p" and "initiator p" and "handshakeRetries p = 0"
    and "no_nil p" and "handshakes p = []" and "hsRoutine p = Idle"
  shows "\<exists>p' w' m. HandshakeTimeout e (p, w) = Ret (p', w') \<and> misplaced p' \<and> rx p' = rx p \<and> tx p' = tx p \<and>
    attempting 1 a p' \<and> unmoved p p' \<and> udp_out w' = udp_out w @ [(m, a)] \<and> punches w' = punches w @ [peerID p]"
proof -
  let ?p = "p\<lparr>inTransport := False\<rparr>"
  obtain h m h' cs where h: "new_handshake (lib e) True (keyPair e) (Some (pubkey p)) = Some h"
    "write_message (lib e) h = Some (m, h', cs)"
    using assms(1) unfolding accepts_key_def by blast
  let ?w = "RequestPunch (?p\<lparr>handshakeRetries := 1\<rparr>) w"
  define g where "g = get_out (pk e) ?w"
  define o' where "o' = encode_out MsgHandshake (nid e) 0 (fst g)"
  have run: "HandshakeTimeout e (p, w) = Ret (?p\<lparr>handshakeRetries := 1, initiator := True, hs := Some h', hstate := 1,
      handshakeSent := Armed 3\<rparr>, put_out (snd o') (send_udp (fst o' @ m) (Some a) (snd g)))"
    using assms(2-4) h
    by (simp add: HandshakeTimeout_def in_session_def TrySendHandshake_def Let_def InitHandshake_def CreateHandshake_def
        case_prod_beta handshakeP1_def CountHandshakeRetries_def g_def o'_def)
  show ?thesis
    unfolding run using assms by (auto simp: misplaced_def attempting_def unmoved_def no_nil_def in_session_def g_def get_out_frame
        send_udp_def RequestPunch_def)
qed

text \<open>
  When nobody answers the new attempts either, the last of them drops the keys of the session
  while its lock is free, and the next data packet finds none.
\<close>

lemma keys_dropped_under_session:
  assumes "attempting 1 a p" and "accepts_key (lib e) (keyPair e) (pubkey p)" and "running p" and "\<not> pendingLock p"
    and "inRoutine p = Idle"
  shows "is_panic (run_events (peer_step e self) (replicate 10 EvHandshakeTimer @ [EvInboundPacket b, EvInbound, EvInbound]) (p, w))"
proof -
  obtain q v where q: "run_events (peer_step e self) (replicate 9 EvHandshakeTimer) (p, w) = Ret (q, v)" "attempting 10 a q" "unmoved p q"
    using retry_steps [OF assms(2,1), of 9 self w] by auto
  have ten: "replicate 10 EvHandshakeTimer = replicate 9 EvHandshakeTimer @ [EvHandshakeTimer]"
    by (simp add: replicate_append_same numeral_eq_Suc)
  define r where "r = reset_peer (q\<lparr>handshakeSent := Stopped\<rparr>)"
  have r: "running r" "inbound r = []" "inRoutine r = Idle" "\<not> pendingLock r" "rx r = None"
    using q(3) assms(3-5) by (simp_all add: r_def reset_peer_def unmoved_def)
  have "is_panic (run_events (peer_step e self) [EvInboundPacket b, EvInbound, EvInbound] (r, u))" for u
    using r by (simp add: InboundPacket_def chan_send_def InboundChannelSize_def Inbound_def chan_recv_def Inbound_packet_def nil_deref_def)
  then show ?thesis
    unfolding ten by (simp add: run_events_append q(1) retry_exceeded [OF q(2)] r_def del: peer_step.simps)
qed

section \<open>Properties\<close>

text \<open>
  C10 (error). A retry timer that expires just before the reply arrives crashes the node. The
  peer sends its first handshake message; the timer expires; the reply is handled and the
  session is complete; then the callback of the timer runs. It passes its test, because the state
  of a session is above zero too, sends a new first message and puts the peer into the state that waits
  for a reply, while the session's lock is free. From there every handshake message, well
  formed or not, the other side's correct reply included, ends the process; and when no
  message comes, the tenth expiry of the timer drops the keys of the session, and the next data packet
  ends it. The same events with the callback run at once are an ordinary retry.
\<close>

theorem late_retry_crashes_node:
  assumes "handshake_law (lib e) key (keyPair e) (pubkey p) kB m1 m2 hA tA rA tB rB"
    and "fresh a p" and "world_ok w" and "delivered (handshake_datagram i 1 m2) src b"
  shows "\<exists>p' w' m.
     run_events (race_step e self) [Peer_event (EvOutboundPacket ob), Expire, Peer_event (EvHandshakePacket b),
       Peer_event EvHandshake, Callback] (0, p, w) = Ret (0, p', w') \<and>
     hstate p' = 1 \<and> \<not> pendingLock p' \<and> rx p' = Some rA \<and> tx p' = Some tA \<and>
     udp_out w' = udp_out w @ [(handshake_datagram (nid e) 0 m1, a), (m, src)] \<and>
     (\<forall>b'. in_ok b' \<longrightarrow> is_panic (run_events (race_step e self)
        [Peer_event (EvHandshakePacket b'), Peer_event EvHandshake] (0, p', w'))) \<and>
     (\<forall>b'. is_panic (run_events (race_step e self) (map Peer_event
        (replicate 10 EvHandshakeTimer @ [EvInboundPacket b', EvInbound, EvInbound])) (0, p', w')))"
proof -
  let ?q = "p\<lparr>outbound := [Some ob], handshakeRetries := handshakeRetries p + 1, initiator := True, hs := Some hA, hstate := 1\<rparr>"
  obtain w1 where one: "peer_step e self (EvOutboundPacket ob) (p, w) = Ret (?q\<lparr>handshakeSent := Armed 3\<rparr>, w1)"
    "udp_out w1 = udp_out w @ [(handshake_datagram (nid e) 0 m1, a)]"
    by (rule initiate [OF assms(1-3)]) blast
  let ?r = "?q\<lparr>tx := Some tA, rx := Some rA, raddr := Some src, hs := None, hstate := 2, inTransport := True,
      pendingLock := False, handshakeRetries := 0, handshakeSent := Stopped, keepalive := Armed TimerKeepalive\<rparr>"
  have two: "run_events (peer_step e self) [EvHandshakePacket b, EvHandshake] (?q\<lparr>handshakeSent := Stopped\<rparr>, w1) = Ret (?r, put_in b w1)"
    using complete_state [OF assms(1) _ _ _ _ _ _ _ assms(4), of "?q\<lparr>handshakeSent := Stopped\<rparr>"] assms(2) by (simp add: fresh_def)
  have key: "accepts_key (lib e) (keyPair e) (pubkey ?r)"
    using assms(1) by (auto simp: handshake_law_def accepts_key_def)
  have "in_session key tA (key rA) src ?r" using assms(2) by (simp add: in_session_def fresh_def)
  moreover have "initiator ?r" "handshakeRetries ?r = 0" "no_nil ?r" "handshakes ?r = []" "hsRoutine ?r = Idle"
    using assms(2) by (simp_all add: fresh_def no_nil_def)
  ultimately have "\<exists>p' w' m. HandshakeTimeout e (?r, put_in b w1) = Ret (p', w') \<and> misplaced p' \<and> rx p' = rx ?r \<and> tx p' = tx ?r \<and>
      attempting 1 src p' \<and> unmoved ?r p' \<and> udp_out w' = udp_out (put_in b w1) @ [(m, src)] \<and> punches w' = punches (put_in b w1) @ [peerID ?r]"
    by (rule late_callback [OF key])
  then obtain p' w' m where three: "HandshakeTimeout e (?r, put_in b w1) = Ret (p', w')" "misplaced p'"
    "rx p' = Some rA" "tx p' = Some tA" "attempting 1 src p'" "unmoved ?r p'" "udp_out w' = udp_out w1 @ [(m, src)]" by auto
  have "run_events (race_step e self) [Peer_event (EvOutboundPacket ob), Expire, Peer_event (EvHandshakePacket b),
       Peer_event EvHandshake, Callback] (0, p, w) =
      run_events (race_step e self) (map Peer_event [EvHandshakePacket b, EvHandshake] @ [Callback]) (1, ?q\<lparr>handshakeSent := Stopped\<rparr>, w1)"
    using one(1) by simp
  also have "\<dots> = Ret (0, p', w')" unfolding run_events_append race_run_events two using three(1) by simp
  finally have run: "run_events (race_step e self) [Peer_event (EvOutboundPacket ob), Expire, Peer_event (EvHandshakePacket b),
       Peer_event EvHandshake, Callback] (0, p, w) = Ret (0, p', w')" .
  have crash: "is_panic (run_events (race_step e self) [Peer_event (EvHandshakePacket b'), Peer_event EvHandshake] (0, p', w'))"
    if "in_ok b'" for b'
    using misplaced_crashes [OF three(2) that, of e self w'] race_run_events [of e self "[EvHandshakePacket b', EvHandshake]" 0 "(p', w')"]
    by (cases "run_events (peer_step e self) [EvHandshakePacket b', EvHandshake] (p', w')") simp_all
  have drop: "is_panic (run_events (race_step e self) (map Peer_event
      (replicate 10 EvHandshakeTimer @ [EvInboundPacket b', EvInbound, EvInbound])) (0, p', w'))" for b'
  proof -
    have "running p'" "\<not> pendingLock p'" using three(2) by (simp_all add: misplaced_def)
    moreover have "accepts_key (lib e) (keyPair e) (pubkey p')" "inRoutine p' = Idle"
      using three(6) key assms(2) by (simp_all add: unmoved_def fresh_def)
    ultimately show ?thesis
      using keys_dropped_under_session [OF three(5), of e self b' w']
      unfolding race_run_events by (cases "run_events (peer_step e self) (replicate 10 EvHandshakeTimer @ [EvInboundPacket b', EvInbound, EvInbound]) (p', w')") simp_all
  qed
  show ?thesis
    using run crash drop three one(2) by (intro exI [of _ p'] exI [of _ w'] exI [of _ m]) (simp add: misplaced_def)
qed

text \<open>The reply of the concrete library, in a buffer, and once more after the late retry.\<close>

lemma delivered_exists:
  assumes "HeaderLen \<le> length d" and "length d \<le> BufferSize"
  shows "delivered d a ((filled_in NewInboundBuffer d a)\<lparr>ib_header := header_at d\<rparr>)"
proof -
  have c: "clean_in NewInboundBuffer" by (simp add: clean_in_def NewInboundBuffer_def list_all_length)
  from filled_in_ok [OF c assms(2,1), of a] filled_in_bytes [OF c assms(2), of a] show ?thesis
    by (simp add: delivered_def in_ok_def shape_in_def) (simp add: filled_in_def)
qed

theorem late_retry_crashes_node_witness:
  "\<exists>b p' w'. run_events (race_step toy_env 0) [Peer_event (EvOutboundPacket toy_packet), Expire, Peer_event (EvHandshakePacket b),
       Peer_event EvHandshake, Callback] (0, toy_idle 2, quiet_world) = Ret (0, p', w') \<and> hstate p' = 1 \<and> length (udp_out w') = 2 \<and>
     is_panic (run_events (race_step toy_env 0) [Peer_event (EvHandshakePacket b), Peer_event EvHandshake] (0, p', w'))"
proof -
  have e: "lib toy_env = toy_noise" "keyPair toy_env = ()" by (simp_all add: toy_env_def)
  have law: "handshake_law (lib toy_env) (\<lambda>_. ()) (keyPair toy_env) (pubkey (toy_idle 2)) () [7] [8] (True, 1) 0 0 0 0"
    using toy_handshake_law by (simp add: e)
  define d where "d = handshake_datagram 9 1 [8]"
  define b where "b = (filled_in NewInboundBuffer d (udp_addr 2))\<lparr>ib_header := header_at d\<rparr>"
  have b: "delivered d (udp_addr 2) b" unfolding b_def
    by (rule delivered_exists) (simp_all add: d_def handshake_datagram_def HeaderLen_def BufferSize_def)
  then have "in_ok b" by (simp add: delivered_def)
  with late_retry_crashes_node [OF law toy_idle_fresh quiet_world_ok b [unfolded d_def], of 0 toy_packet]
  show ?thesis by (intro exI [of _ b]) (auto simp: quiet_world_def)
qed

end
