(* ===== verification/Store.thy ===== *)
theory Store
  imports PeerTypes
begin

text \<open>
  The controller's peer table (src/controller/db/peer.go). The object-relational
  mapper gorm is a parameter: the record \<open>gorm\<close> has one field per call the store
  makes, and \<open>gorm_ok\<close> states what gorm documents about these calls on a working
  database, above all that \<open>Updates\<close> with a struct writes only its non-zero fields.
  The locale \<open>peer_store\<close> is the contract between the store and the controller.
\<close>

section \<open>The mapper\<close>

record 'db gorm =
  rows :: "'db \<Rightarrow> DBPeer list"
  stamp :: "'db \<Rightarrow> instant"
  First_by_machine :: "string \<Rightarrow> 'db \<Rightarrow> DBPeer option"
  First_by_id :: "u32 \<Rightarrow> 'db \<Rightarrow> DBPeer option"
  Find_all :: "'db \<Rightarrow> DBPeer list option"
  Find_connected :: "bool \<Rightarrow> 'db \<Rightarrow> DBPeer list option"
  Pluck_ip :: "'db \<Rightarrow> string list option"
  Update_connected :: "DBPeer \<Rightarrow> bool \<Rightarrow> 'db \<Rightarrow> bool \<times> 'db"
  Update_endpoint :: "u32 \<Rightarrow> string \<Rightarrow> 'db \<Rightarrow> bool \<times> 'db"
  Updates :: "DBPeer \<Rightarrow> 'db \<Rightarrow> bool \<times> 'db"
  Create :: "DBPeer \<Rightarrow> 'db \<Rightarrow> DBPeer option \<times> 'db"
  Delete_row :: "DBPeer \<Rightarrow> 'db \<Rightarrow> bool \<times> 'db"

definition nonzero_or :: "'a \<Rightarrow> 'a \<Rightarrow> 'a \<Rightarrow> 'a" where
  "nonzero_or z new old = (if new = z then old else new)"

text \<open>The row after \<open>Updates\<close> with the struct \<open>p\<close>: zero fields are not written.\<close>

definition merge_nonzero :: "instant \<Rightarrow> DBPeer \<Rightarrow> DBPeer \<Rightarrow> DBPeer" where
  "merge_nonzero t p r = r\<lparr>
     MachineID := nonzero_or [] (MachineID p) (MachineID r),
     NoisePublicKey := nonzero_or [] (NoisePublicKey p) (NoisePublicKey r),
     IP := nonzero_or [] (IP p) (IP r),
     PrefixStr := nonzero_or [] (PrefixStr p) (PrefixStr r),
     Endpoint := nonzero_or [] (Endpoint p) (Endpoint r),
     HostName := nonzero_or [] (HostName p) (HostName r),
     LoggedIn := nonzero_or False (LoggedIn p) (LoggedIn r),
     Connected := nonzero_or False (Connected p) (Connected r),
     User := nonzero_or [] (User p) (User r),
     Disabled := nonzero_or False (Disabled p) (Disabled r),
     LastLogin := nonzero_or zeroTime (LastLogin p) (LastLogin r),
     LastAuth := nonzero_or zeroTime (LastAuth p) (LastAuth r),
     CreatedAt := nonzero_or zeroTime (CreatedAt p) (CreatedAt r),
     UpdatedAt := t\<rparr>"

definition upd_row :: "u32 \<Rightarrow> (DBPeer \<Rightarrow> DBPeer) \<Rightarrow> DBPeer list \<Rightarrow> DBPeer list" where
  "upd_row i f rs = map (\<lambda>r. if ID r = i then f r else r) rs"

text \<open>
  The one constraint of the table: the tag of the field \<open>IP\<close> (src/controller/types/peer.go)
  gives it a unique index. The tags of the other fields separate their settings with commas
  where gorm expects semicolons, so gorm does not recognise what they say of uniqueness; the
  field \<open>ID\<close> is the primary key by its name. An update that would give a row the address of
  another one is refused and writes nothing.
\<close>

definition ip_clash :: "u32 \<Rightarrow> string \<Rightarrow> DBPeer list \<Rightarrow> bool" where
  "ip_clash i ip rs \<longleftrightarrow> ip \<noteq> [] \<and> i \<in> ID ` set rs \<and> (\<exists>r \<in> set rs. ID r \<noteq> i \<and> IP r = ip)"

text \<open>
  Documented behaviour on a working database whose rows are listed in the order of
  the primary key. A zero primary key gives gorm no condition, which it refuses.
\<close>

definition gorm_reads :: "'db gorm \<Rightarrow> bool" where
  "gorm_reads g \<longleftrightarrow>
     (\<forall>m db. First_by_machine g m db = find (\<lambda>r. MachineID r = m) (rows g db)) \<and>
     (\<forall>i db. First_by_id g i db = find (\<lambda>r. ID r = i) (rows g db)) \<and>
     (\<forall>db. Find_all g db = Some (rows g db)) \<and>
     (\<forall>c db. Find_connected g c db = Some (filter (\<lambda>r. Connected r = c) (rows g db))) \<and>
     (\<forall>db. Pluck_ip g db = Some (map IP (rows g db)))"

definition gorm_writes :: "'db gorm \<Rightarrow> bool" where
  "gorm_writes g \<longleftrightarrow>
     (\<forall>p c db. ID p \<noteq> 0 \<longrightarrow> fst (Update_connected g p c db) \<and>
        rows g (snd (Update_connected g p c db)) =
          upd_row (ID p) (\<lambda>r. r\<lparr>Connected := c, UpdatedAt := stamp g db\<rparr>) (rows g db)) \<and>
     (\<forall>i s db. i \<noteq> 0 \<longrightarrow> fst (Update_endpoint g i s db) \<and>
        rows g (snd (Update_endpoint g i s db)) =
          upd_row i (\<lambda>r. r\<lparr>Endpoint := s, UpdatedAt := stamp g db\<rparr>) (rows g db)) \<and>
     (\<forall>p db. ID p \<noteq> 0 \<longrightarrow> fst (Updates g p db) = (\<not> ip_clash (ID p) (IP p) (rows g db)) \<and>
        rows g (snd (Updates g p db)) =
          (if ip_clash (ID p) (IP p) (rows g db) then rows g db
           else upd_row (ID p) (merge_nonzero (stamp g db) p) (rows g db))) \<and>
     (\<forall>p db. ID p \<noteq> 0 \<longrightarrow> fst (Delete_row g p db) \<and>
        rows g (snd (Delete_row g p db)) = filter (\<lambda>r. ID r \<noteq> ID p) (rows g db))"

text \<open>
  \<open>Create\<close> chooses an unused key and sets the two time stamps. A record with the address of
  a stored row is refused and nothing is written.
\<close>

definition id_free :: "DBPeer list \<Rightarrow> bool" where
  "id_free rs \<longleftrightarrow> (\<exists>i. i \<noteq> 0 \<and> i \<notin> ID ` set rs)"

definition created :: "u32 \<Rightarrow> instant \<Rightarrow> DBPeer \<Rightarrow> DBPeer" where
  "created i t p = p\<lparr>ID := i, CreatedAt := t, UpdatedAt := t\<rparr>"

definition gorm_creates :: "'db gorm \<Rightarrow> bool" where
  "gorm_creates g \<longleftrightarrow>
     (\<forall>p db. ID p = 0 \<and> id_free (rows g db) \<longrightarrow>
        (if IP p \<in> IP ` set (rows g db)
         then fst (Create g p db) = None \<and> rows g (snd (Create g p db)) = rows g db
         else \<exists>i. i \<noteq> 0 \<and> i \<notin> ID ` set (rows g db) \<and>
           fst (Create g p db) = Some (created i (stamp g db) p) \<and>
           rows g (snd (Create g p db)) = rows g db @ [created i (stamp g db) p]))"

definition gorm_ok :: "'db gorm \<Rightarrow> bool" where
  "gorm_ok g \<longleftrightarrow> gorm_reads g \<and> gorm_writes g \<and> gorm_creates g"

section \<open>Operations of the store\<close>

definition GetPeerByMachineID :: "'db gorm \<Rightarrow> string \<Rightarrow> 'db \<Rightarrow> DBPeer option" where
  "GetPeerByMachineID g machineID db = First_by_machine g machineID db"

definition store_GetPeers :: "'db gorm \<Rightarrow> 'db \<Rightarrow> DBPeer list option" where
  "store_GetPeers g db = Find_all g db"

definition store_GetConnectedPeers :: "'db gorm \<Rightarrow> 'db \<Rightarrow> DBPeer list option" where
  "store_GetConnectedPeers g db = Find_connected g True db"

definition GetPeerbyID :: "'db gorm \<Rightarrow> u32 \<Rightarrow> 'db \<Rightarrow> DBPeer option" where
  "GetPeerbyID g i db = First_by_id g i db"

definition SetPeerConnected :: "'db gorm \<Rightarrow> DBPeer \<Rightarrow> bool \<Rightarrow> 'db \<Rightarrow> bool \<times> 'db" where
  "SetPeerConnected g peer connected db = Update_connected g peer connected db"

definition UpdatePeerEndpoint :: "'db gorm \<Rightarrow> u32 \<Rightarrow> string \<Rightarrow> 'db \<Rightarrow> bool \<times> 'db" where
  "UpdatePeerEndpoint g i endpoint db = Update_endpoint g i endpoint db"

definition UpdatePeer :: "'db gorm \<Rightarrow> DBPeer \<Rightarrow> 'db \<Rightarrow> bool \<times> 'db" where
  "UpdatePeer g peer db = Updates g peer db"

definition CreatePeer :: "'db gorm \<Rightarrow> DBPeer \<Rightarrow> 'db \<Rightarrow> DBPeer option \<times> 'db" where
  "CreatePeer g peer db = Create g peer db"

definition store_DeletePeer :: "'db gorm \<Rightarrow> DBPeer \<Rightarrow> 'db \<Rightarrow> bool \<times> 'db" where
  "store_DeletePeer g peer db = Delete_row g peer db"

section \<open>Rows\<close>

text \<open>Primary keys are distinct and never zero.\<close>

definition keys_ok :: "DBPeer list \<Rightarrow> bool" where
  "keys_ok rs \<longleftrightarrow> distinct (map ID rs) \<and> 0 \<notin> ID ` set rs"

definition keeps_keys :: "(DBPeer \<Rightarrow> DBPeer) \<Rightarrow> bool" where
  "keeps_keys f \<longleftrightarrow> (\<forall>r. ID (f r) = ID r)"

lemma map_ID_upd_row [simp]: "keeps_keys f \<Longrightarrow> map ID (upd_row i f rs) = map ID rs"
  by (simp add: upd_row_def keeps_keys_def)

lemma keys_ok_upd_row [simp]: "keeps_keys f \<Longrightarrow> keys_ok (upd_row i f rs) = keys_ok rs"
  using map_ID_upd_row [of f i rs] unfolding keys_ok_def by (metis list.set_map)

lemma find_upd_row:
  "keeps_keys f \<Longrightarrow> find (\<lambda>r. ID r = j) (upd_row i f rs) =
     map_option (\<lambda>r. if j = i then f r else r) (find (\<lambda>r. ID r = j) rs)"
  by (induction rs) (auto simp: upd_row_def keeps_keys_def)

lemma find_key: "keys_ok rs \<Longrightarrow> r \<in> set rs \<Longrightarrow> find (\<lambda>x. ID x = ID r) rs = Some r"
  by (induction rs) (auto simp: keys_ok_def)

lemma keys_ok_filter [simp]: "keys_ok rs \<Longrightarrow> keys_ok (filter P rs)"
  by (auto simp: keys_ok_def distinct_map_filter)

lemma find_SomeD: "find P rs = Some r \<Longrightarrow> r \<in> set rs \<and> P r"
  by (induction rs) (auto split: if_splits)

lemma keeps_keys_updates [simp]:
  "keeps_keys (\<lambda>r. r\<lparr>Connected := c, UpdatedAt := t\<rparr>)" "keeps_keys (\<lambda>r. r\<lparr>Endpoint := s, UpdatedAt := t\<rparr>)"
  "keeps_keys (merge_nonzero t p)"
  by (simp_all add: keeps_keys_def merge_nonzero_def)

section \<open>The store's contract\<close>

locale peer_store =
  fixes valid :: "'g \<Rightarrow> bool"
    and content :: "'g \<Rightarrow> 'db \<Rightarrow> DBPeer list"
    and clock :: "'g \<Rightarrow> 'db \<Rightarrow> instant"
    and by_machine :: "'g \<Rightarrow> string \<Rightarrow> 'db \<Rightarrow> DBPeer option"
    and by_id :: "'g \<Rightarrow> u32 \<Rightarrow> 'db \<Rightarrow> DBPeer option"
    and set_connected :: "'g \<Rightarrow> DBPeer \<Rightarrow> bool \<Rightarrow> 'db \<Rightarrow> bool \<times> 'db"
    and set_endpoint :: "'g \<Rightarrow> u32 \<Rightarrow> string \<Rightarrow> 'db \<Rightarrow> bool \<times> 'db"
    and update :: "'g \<Rightarrow> DBPeer \<Rightarrow> 'db \<Rightarrow> bool \<times> 'db"
    and delete :: "'g \<Rightarrow> DBPeer \<Rightarrow> 'db \<Rightarrow> bool \<times> 'db"
  assumes by_machine: "valid g \<Longrightarrow> by_machine g m db = find (\<lambda>r. MachineID r = m) (content g db)"
    and by_id: "valid g \<Longrightarrow> by_id g i db = find (\<lambda>r. ID r = i) (content g db)"
    and set_connected: "valid g \<Longrightarrow> ID p \<noteq> 0 \<Longrightarrow> fst (set_connected g p c db) \<and>
      content g (snd (set_connected g p c db)) =
        upd_row (ID p) (\<lambda>r. r\<lparr>Connected := c, UpdatedAt := clock g db\<rparr>) (content g db)"
    and set_endpoint: "valid g \<Longrightarrow> i \<noteq> 0 \<Longrightarrow> fst (set_endpoint g i s db) \<and>
      content g (snd (set_endpoint g i s db)) =
        upd_row i (\<lambda>r. r\<lparr>Endpoint := s, UpdatedAt := clock g db\<rparr>) (content g db)"
    and update: "valid g \<Longrightarrow> ID p \<noteq> 0 \<Longrightarrow> fst (update g p db) = (\<not> ip_clash (ID p) (IP p) (content g db)) \<and>
      content g (snd (update g p db)) =
        (if ip_clash (ID p) (IP p) (content g db) then content g db
         else upd_row (ID p) (merge_nonzero (clock g db) p) (content g db))"
    and delete: "valid g \<Longrightarrow> ID p \<noteq> 0 \<Longrightarrow> fst (delete g p db) \<and>
      content g (snd (delete g p db)) = filter (\<lambda>r. ID r \<noteq> ID p) (content g db)"
begin

lemma writes_keep_keys:
  assumes "valid g" and "ID p \<noteq> 0" and "keys_ok (content g db)"
  shows "keys_ok (content g (snd (set_connected g p c db)))"
    "keys_ok (content g (snd (set_endpoint g (ID p) s db)))"
    "keys_ok (content g (snd (update g p db)))"
    "keys_ok (content g (snd (delete g p db)))"
  using assms set_connected [OF assms(1,2)] set_endpoint [OF assms(1,2)] update [OF assms(1,2)]
    delete [OF assms(1,2)]
  by simp_all

lemma by_id_after:
  assumes "valid g" and "ID p \<noteq> 0"
  shows "by_id g i (snd (set_connected g p c db)) =
      map_option (\<lambda>r. if i = ID p then r\<lparr>Connected := c, UpdatedAt := clock g db\<rparr> else r) (by_id g i db)"
    "by_id g i (snd (set_endpoint g (ID p) s db)) =
      map_option (\<lambda>r. if i = ID p then r\<lparr>Endpoint := s, UpdatedAt := clock g db\<rparr> else r) (by_id g i db)"
    "\<not> ip_clash (ID p) (IP p) (content g db) \<Longrightarrow> by_id g i (snd (update g p db)) =
      map_option (\<lambda>r. if i = ID p then merge_nonzero (clock g db) p r else r) (by_id g i db)"
  using assms set_connected [OF assms] set_endpoint [OF assms] update [OF assms]
  by (simp_all add: by_id find_upd_row)

lemma by_id_deleted:
  "valid g \<Longrightarrow> ID p \<noteq> 0 \<Longrightarrow> by_id g (ID p) (snd (delete g p db)) = None"
  using delete [of g p db] by (simp add: by_id find_None_iff)

lemma by_machine_row:
  "valid g \<Longrightarrow> by_machine g m db = Some p \<Longrightarrow> p \<in> set (content g db) \<and> MachineID p = m"
  by (auto simp: by_machine dest: find_SomeD)

lemma by_id_row:
  "valid g \<Longrightarrow> by_id g i db = Some p \<Longrightarrow> p \<in> set (content g db) \<and> ID p = i"
  by (auto simp: by_id dest: find_SomeD)

lemma by_machine_by_id:
  "valid g \<Longrightarrow> keys_ok (content g db) \<Longrightarrow> by_machine g m db = Some p \<Longrightarrow> by_id g (ID p) db = Some p \<and> ID p \<noteq> 0"
  using by_machine_row [of g m db p] find_key [of "content g db" p] by (auto simp: by_id keys_ok_def)

end

interpretation store: peer_store gorm_ok rows stamp GetPeerByMachineID GetPeerbyID SetPeerConnected
  UpdatePeerEndpoint UpdatePeer store_DeletePeer
  by unfold_locales
    (simp_all add: gorm_ok_def gorm_reads_def gorm_writes_def GetPeerByMachineID_def GetPeerbyID_def SetPeerConnected_def
      UpdatePeerEndpoint_def UpdatePeer_def store_DeletePeer_def)

text \<open>Addresses that are unique stay so: a row keeps its own address without a clash.\<close>

definition ips_ok :: "DBPeer list \<Rightarrow> bool" where
  "ips_ok rs \<longleftrightarrow> distinct (map IP rs)"

lemma own_ip_no_clash: "ips_ok rs \<Longrightarrow> p \<in> set rs \<Longrightarrow> ID q = ID p \<Longrightarrow> IP q = IP p \<Longrightarrow> \<not> ip_clash (ID q) (IP q) rs"
  unfolding ips_ok_def ip_clash_def by (metis distinct_map inj_onD)

lemma no_ip_no_clash [simp]: "\<not> ip_clash i [] rs"
  by (simp add: ip_clash_def)

lemma ips_ok_update:
  assumes "ips_ok rs" and "keys_ok rs" and "\<not> ip_clash (ID p) (IP p) rs"
  shows "ips_ok (upd_row (ID p) (merge_nonzero t p) rs)"
proof -
  let ?ip = "\<lambda>r. if ID r = ID p then nonzero_or [] (IP p) (IP r) else IP r"
  have m: "map IP (upd_row (ID p) (merge_nonzero t p) rs) = map ?ip rs"
    by (simp add: upd_row_def merge_nonzero_def)
  have "inj_on ?ip (set rs)"
  proof (rule inj_onI)
    fix x y
    assume xy: "x \<in> set rs" "y \<in> set rs" "?ip x = ?ip y"
    have inj: "inj_on IP (set rs)" "inj_on ID (set rs)" using assms(1,2) by (simp_all add: ips_ok_def keys_ok_def distinct_map)
    have other: "\<not> (u \<in> set rs \<and> v \<in> set rs \<and> ID u = ID p \<and> ID v \<noteq> ID p \<and> nonzero_or [] (IP p) (IP u) = IP v)" for u v
      using assms(3) inj(1) unfolding ip_clash_def nonzero_or_def by (metis image_eqI inj_onD)
    show "x = y"
    proof (cases "ID x = ID p"; cases "ID y = ID p")
      assume "ID x = ID p" "ID y = ID p"
      then show ?thesis using inj_onD [OF inj(2), of x y] xy by simp
    next
      assume "ID x \<noteq> ID p" "ID y \<noteq> ID p"
      then show ?thesis using inj_onD [OF inj(1), of x y] xy by simp
    qed (use xy other [of x y] other [of y x] in auto)
  qed
  then show ?thesis using assms(1) unfolding ips_ok_def m distinct_map by simp
qed

lemma CreatePeer_refused:
  assumes "gorm_ok g" and "ID p = 0" and "id_free (rows g db)" and "IP p \<in> IP ` set (rows g db)"
  shows "fst (CreatePeer g p db) = None" "rows g (snd (CreatePeer g p db)) = rows g db"
  using assms by (simp_all add: gorm_ok_def gorm_creates_def CreatePeer_def)

lemma CreatePeer_row:
  assumes "gorm_ok g" and "ID p = 0" and "id_free (rows g db)" and "IP p \<notin> IP ` set (rows g db)"
  obtains i where "i \<noteq> 0" "i \<notin> ID ` set (rows g db)"
    "fst (CreatePeer g p db) = Some (created i (stamp g db) p)"
    "rows g (snd (CreatePeer g p db)) = rows g db @ [created i (stamp g db) p]"
proof -
  have "if IP p \<in> IP ` set (rows g db)
      then fst (Create g p db) = None \<and> rows g (snd (Create g p db)) = rows g db
      else \<exists>i. i \<noteq> 0 \<and> i \<notin> ID ` set (rows g db) \<and> fst (Create g p db) = Some (created i (stamp g db) p) \<and>
        rows g (snd (Create g p db)) = rows g db @ [created i (stamp g db) p]"
    using assms(1) [unfolded gorm_ok_def gorm_creates_def] assms(2,3) by simp
  with assms(4) that show thesis unfolding CreatePeer_def by (simp only: if_False) blast
qed

lemma store_lists:
  assumes "gorm_ok g"
  shows "store_GetPeers g db = Some (rows g db)"
    "store_GetConnectedPeers g db = Some (filter Connected (rows g db))"
    "Pluck_ip g db = Some (map IP (rows g db))"
  using assms by (simp_all add: gorm_ok_def gorm_reads_def store_GetPeers_def store_GetConnectedPeers_def)

section \<open>A table in memory\<close>

text \<open>A reference implementation of the mapper, a list of rows with a constant clock.\<close>

definition fresh_id :: "DBPeer list \<Rightarrow> u32 option" where
  "fresh_id rs = find (\<lambda>i. i \<noteq> 0 \<and> i \<notin> ID ` set rs) (map of_nat [0..<2 ^ 32])"

definition table_gorm :: "DBPeer list gorm" where
  "table_gorm = \<lparr>rows = (\<lambda>db. db), stamp = (\<lambda>_. 0),
     First_by_machine = (\<lambda>m db. find (\<lambda>r. MachineID r = m) db),
     First_by_id = (\<lambda>i db. find (\<lambda>r. ID r = i) db),
     Find_all = Some, Find_connected = (\<lambda>c db. Some (filter (\<lambda>r. Connected r = c) db)),
     Pluck_ip = (\<lambda>db. Some (map IP db)),
     Update_connected = (\<lambda>p c db. (ID p \<noteq> 0, upd_row (ID p) (\<lambda>r. r\<lparr>Connected := c, UpdatedAt := 0\<rparr>) db)),
     Update_endpoint = (\<lambda>i s db. (i \<noteq> 0, upd_row i (\<lambda>r. r\<lparr>Endpoint := s, UpdatedAt := 0\<rparr>) db)),
     Updates = (\<lambda>p db. if ip_clash (ID p) (IP p) db then (False, db)
       else (ID p \<noteq> 0, upd_row (ID p) (merge_nonzero 0 p) db)),
     Create = (\<lambda>p db. if IP p \<in> IP ` set db then (None, db)
       else case fresh_id db of None \<Rightarrow> (None, db)
       | Some i \<Rightarrow> (Some (created i 0 p), db @ [created i 0 p])),
     Delete_row = (\<lambda>p db. (ID p \<noteq> 0, filter (\<lambda>r. ID r \<noteq> ID p) db))\<rparr>"

lemma fresh_id_Some:
  assumes "id_free rs"
  obtains i where "fresh_id rs = Some i" "i \<noteq> 0" "i \<notin> ID ` set rs"
proof -
  obtain i :: u32 where i: "i \<noteq> 0" "i \<notin> ID ` set rs" using assms by (auto simp: id_free_def)
  have "unat i \<in> set [0..<2 ^ 32]" using unsigned_less [of i, where 'a = nat] by simp
  then have mem: "i \<in> set (map of_nat [0..<2 ^ 32])"
    unfolding set_map by (rule rev_image_eqI) (simp add: word_unat_eq_iff unat_of_nat)
  have "fresh_id rs \<noteq> None" unfolding fresh_id_def find_None_iff using mem i by blast
  then obtain k where k: "fresh_id rs = Some k" by auto
  from k have "k \<noteq> 0 \<and> k \<notin> ID ` set rs" unfolding fresh_id_def by (auto simp: find_Some_iff simp del: upt.simps)
  with k that show ?thesis by blast
qed

lemma table_gorm_ok: "gorm_ok table_gorm"
proof -
  have "gorm_creates table_gorm"
    unfolding gorm_creates_def
  proof (intro allI impI)
    fix p :: DBPeer and db
    assume "ID p = 0 \<and> id_free (rows table_gorm db)"
    then have "id_free db" by (simp add: table_gorm_def)
    from fresh_id_Some [OF this] obtain i where "fresh_id db = Some i" "i \<noteq> 0" "i \<notin> ID ` set db" .
    then show "if IP p \<in> IP ` set (rows table_gorm db)
        then fst (Create table_gorm p db) = None \<and> rows table_gorm (snd (Create table_gorm p db)) = rows table_gorm db
        else \<exists>i. i \<noteq> 0 \<and> i \<notin> ID ` set (rows table_gorm db) \<and>
          fst (Create table_gorm p db) = Some (created i (stamp table_gorm db) p) \<and>
          rows table_gorm (snd (Create table_gorm p db)) = rows table_gorm db @ [created i (stamp table_gorm db) p]"
      by (auto simp: table_gorm_def)
  qed
  then show ?thesis
    by (simp add: gorm_ok_def gorm_reads_def gorm_writes_def) (simp add: table_gorm_def)
qed

end
