(* ===== verification/Ipam.thy ===== *)
theory Ipam
  imports Store NetAddr
begin

text \<open>
  Address allocation (src/controller/db/ipam.go). The IP sets of package netipx are
  a parameter (\<open>netipx\<close>), with their documented meaning as \<open>netipx_ok\<close>. The search
  loop has no bound in the source; it is a partial function whose undefined value
  means that the loop does not end. The theorems show that it always ends, after how many
  rounds, which address it finds, and that the address leaves the prefix when the prefix is full.
\<close>

section \<open>IP sets\<close>

record 'set netipx =
  RangeFrom :: "Prefix \<Rightarrow> Addr"
  RangeTo :: "Prefix \<Rightarrow> Addr"
  IPSet :: "Addr list \<Rightarrow> 'set option"
  set_Contains :: "'set \<Rightarrow> Addr \<Rightarrow> bool"

definition netipx_ok :: "'set netipx \<Rightarrow> bool" where
  "netipx_ok nx \<longleftrightarrow>
     (\<forall>p. valid_Prefix p \<longrightarrow> RangeFrom nx p = mask_addr (pBits p) (pAddr p) \<and>
        RangeTo nx p = last_addr (pBits p) (pAddr p)) \<and>
     (\<forall>xs. list_all IsValid xs \<and> list_all (\<lambda>a. addr_zone a = []) xs \<longrightarrow>
        (\<exists>s. IPSet nx xs = Some s \<and> (\<forall>a. set_Contains nx s a \<longleftrightarrow> a \<in> set xs)))"

definition list_netipx :: "Addr list netipx" where
  "list_netipx = \<lparr>RangeFrom = (\<lambda>p. mask_addr (pBits p) (pAddr p)),
     RangeTo = (\<lambda>p. last_addr (pBits p) (pAddr p)), IPSet = Some, set_Contains = (\<lambda>s a. a \<in> set s)\<rparr>"

lemma list_netipx_ok: "netipx_ok list_netipx"
  by (simp add: netipx_ok_def list_netipx_def)

section \<open>Operations\<close>

definition GetAllocatedIPs :: "ip6_text \<Rightarrow> 'db gorm \<Rightarrow> 'db \<Rightarrow> Addr list option" where
  "GetAllocatedIPs ip6 g db =
     (case Pluck_ip g db of
        None \<Rightarrow> None
      | Some ips \<Rightarrow> Some (List.map_filter (netip_ParseAddr ip6) ips))"

partial_function (option) next_free :: "(Addr \<Rightarrow> bool) \<Rightarrow> Addr \<Rightarrow> Addr option" where
  "next_free taken addr = (if taken addr then next_free taken (Next addr) else Some addr)"

datatype ipam_error = RetrievingAllocated | BuildingIPSet

definition AllocatePeerIP ::
  "ip6_text \<Rightarrow> 'set netipx \<Rightarrow> 'db gorm \<Rightarrow> Prefix \<Rightarrow> 'db \<Rightarrow> (ipam_error + string) option" where
  "AllocatePeerIP ip6 nx g prefix db =
     (case GetAllocatedIPs ip6 g db of
        None \<Rightarrow> Some (Inl RetrievingAllocated)
      | Some allocatedIPs \<Rightarrow>
          (case IPSet nx (RangeFrom nx prefix # RangeTo nx prefix # allocatedIPs) of
             None \<Rightarrow> Some (Inl BuildingIPSet)
           | Some ipSet \<Rightarrow>
               map_option (\<lambda>addr. Inr (addr_String ip6 addr))
                 (next_free (set_Contains nx ipSet) (pAddr prefix))))"

section \<open>The search loop\<close>

lemma addr_num_Next: "Next a \<noteq> NoAddr \<Longrightarrow> addr_num (Next a) = Suc (addr_num a)"
  using unatSuc [where 'a = 32] unatSuc [where 'a = 128]
  by (cases a) (auto simp: add.commute split: if_splits)

lemma Next_Addr4: "Next (Addr4 v) = Addr4 w \<longleftrightarrow> w = v + 1 \<and> w \<noteq> 0"
  by auto

lemma next_free_stop: "\<not> taken a \<Longrightarrow> next_free taken a = Some a"
  by (subst next_free.simps) simp

lemma next_free_step: "taken a \<Longrightarrow> next_free taken a = next_free taken (Next a)"
  by (subst next_free.simps) simp

text \<open>
  The loop ends for every finite set of taken addresses that does not contain the
  zero address: each round leaves one element of the set behind. The result is the first
  successor of the start that is not taken.
\<close>

lemma next_free_scan:
  assumes "finite {x. taken x}" and "\<not> taken NoAddr"
  shows "\<exists>k. next_free taken a = Some ((Next ^^ k) a) \<and> \<not> taken ((Next ^^ k) a) \<and> (\<forall>i < k. taken ((Next ^^ i) a)) \<and>
    k \<le> card {x. taken x \<and> addr_num a \<le> addr_num x}"
proof (induction "card {x. taken x \<and> addr_num a \<le> addr_num x}" arbitrary: a rule: less_induct)
  case less
  let ?S = "\<lambda>a. {x. taken x \<and> addr_num a \<le> addr_num x}"
  have fin: "finite (?S a)" using assms(1) by (rule rev_finite_subset) auto
  show ?case
  proof (cases "taken a")
    case False
    then show ?thesis by (intro exI [of _ 0]) (simp add: next_free_stop)
  next
    case True
    then have a: "a \<in> ?S a" by simp
    have step: "next_free taken a = next_free taken (Next a)" using True by (rule next_free_step)
    show ?thesis
    proof (cases "Next a = NoAddr")
      case top: True
      have "card (?S a) \<noteq> 0" using fin a by (metis card_0_eq empty_iff)
      with True top step assms(2) show ?thesis by (intro exI [of _ 1]) (simp add: next_free_stop)
    next
      case False
      have "?S (Next a) \<subseteq> ?S a" "a \<notin> ?S (Next a)" using True addr_num_Next [OF False] by auto
      with a have "?S (Next a) \<subset> ?S a" by blast
      with fin have lt: "card (?S (Next a)) < card (?S a)" by (rule psubset_card_mono)
      from less [OF lt] obtain k where k: "next_free taken (Next a) = Some ((Next ^^ k) (Next a))"
        "\<not> taken ((Next ^^ k) (Next a))" "\<forall>i < k. taken ((Next ^^ i) (Next a))" "k \<le> card (?S (Next a))" by blast
      have "taken ((Next ^^ i) a)" if "i < Suc k" for i
        using that True k(3) by (cases i) (simp_all add: funpow_swap1)
      with k lt step show ?thesis by (intro exI [of _ "Suc k"]) (simp add: funpow_swap1)
    qed
  qed
qed

lemma next_free_returns:
  assumes "finite {x. taken x}" and "\<not> taken NoAddr"
  shows "\<exists>r. next_free taken a = Some r \<and> \<not> taken r"
  using next_free_scan [OF assms, of a] by blast

text \<open>The result is the first address from the start on that is not taken.\<close>

lemma less_Addr4 [simp]: "Addr4 u < Addr4 w \<longleftrightarrow> u < w" "\<not> Addr4 u < NoAddr"
  by (simp_all add: less_Addr_def addr_key_def less_prod_def' word_less_nat_alt)

lemma less_eq_Addr4 [simp]: "Addr4 u \<le> Addr4 w \<longleftrightarrow> u \<le> w"
  by (simp flip: not_less)

lemma word_Suc_ge: "(v :: 'a::len word) + 1 \<noteq> 0 \<Longrightarrow> v \<le> u \<longleftrightarrow> u = v \<or> v + 1 \<le> u"
  using unatSuc [of v] by (auto simp: word_le_nat_alt word_unat_eq_iff add.commute)

lemma word_top_ge: "(v :: 'a::len word) + 1 = 0 \<Longrightarrow> v \<le> u \<Longrightarrow> u = v"
proof -
  assume "v + 1 = 0" and le: "v \<le> u"
  then have v: "v = - 1" by (simp add: eq_neg_iff_add_eq_0)
  have "u \<le> - 1" by (rule word_order.extremum)
  with le v show "u = v" by (simp add: antisym)
qed

definition first_free :: "(Addr \<Rightarrow> bool) \<Rightarrow> u32 \<Rightarrow> Addr \<Rightarrow> bool" where
  "first_free taken v r \<longleftrightarrow> \<not> taken r \<and> (r = NoAddr \<or> (\<exists>w. r = Addr4 w \<and> v \<le> w)) \<and>
     (\<forall>u \<ge> v. r = NoAddr \<or> Addr4 u < r \<longrightarrow> taken (Addr4 u))"

lemma next_free_first_raw:
  assumes "next_free taken a = Some r"
  shows "(a = NoAddr \<longrightarrow> r = NoAddr \<and> \<not> taken r) \<and> (\<forall>v. a = Addr4 v \<longrightarrow> first_free taken v r)"
  using assms
proof (rule next_free.raw_induct [rotated])
  fix nf taken a r
  assume IH: "\<And>taken a r. nf taken a = Some r \<Longrightarrow>
      (a = NoAddr \<longrightarrow> r = NoAddr \<and> \<not> taken r) \<and> (\<forall>v. a = Addr4 v \<longrightarrow> first_free taken v r)"
    and r: "(if taken a then nf taken (Next a) else Some a) = Some r"
  show "(a = NoAddr \<longrightarrow> r = NoAddr \<and> \<not> taken r) \<and> (\<forall>v. a = Addr4 v \<longrightarrow> first_free taken v r)"
  proof (cases "taken a")
    case False
    with r show ?thesis by (auto simp: first_free_def)
  next
    case True
    with r have n: "nf taken (Next a) = Some r" by simp
    have "first_free taken v r" if a: "a = Addr4 v" for v
    proof (cases "v + 1 = 0")
      case z: True
      with IH [OF n] a have "r = NoAddr" "\<not> taken r" by auto
      with True a word_top_ge [OF z] show ?thesis by (auto simp: first_free_def)
    next
      case False
      with IH [OF n] a have "first_free taken (v + 1) r" by auto
      with True a show ?thesis by (auto simp: first_free_def word_Suc_ge [OF False])
    qed
    with IH [OF n] show ?thesis by auto
  qed
qed

section \<open>Prefixes\<close>

lemma drop_bit_mono: "(u :: 'a::len word) \<le> w \<Longrightarrow> drop_bit n u \<le> drop_bit n w"
  unfolding word_le_nat_alt unat_drop_bit_eq drop_bit_nat_def by (rule div_le_mono)

text \<open>Prefixes are intervals.\<close>

lemma Contains4_between:
  assumes "valid_Prefix p" and "pAddr p = Addr4 v" and "Contains p (Addr4 u)" and "v \<le> w" and "w \<le> u"
  shows "Contains p (Addr4 w)"
proof -
  have b: "pBits p \<le> 32" using assms(1,2) by (simp add: valid_Prefix_def)
  have "drop_bit (32 - pBits p) v = drop_bit (32 - pBits p) u" using assms(3) Contains4 [OF b assms(2)] by simp
  then have "drop_bit (32 - pBits p) w = drop_bit (32 - pBits p) v"
    using drop_bit_mono [OF assms(4)] drop_bit_mono [OF assms(5)] by (metis antisym)
  then show ?thesis using Contains4 [OF b assms(2)] by simp
qed

section \<open>Allocation\<close>

definition parsed_ips :: "ip6_text \<Rightarrow> DBPeer list \<Rightarrow> Addr list" where
  "parsed_ips ip6 rs = List.map_filter (netip_ParseAddr ip6) (map IP rs)"

text \<open>The addresses the loop skips: network, broadcast and those of the stored peers.\<close>

definition taken_ips :: "ip6_text \<Rightarrow> Prefix \<Rightarrow> DBPeer list \<Rightarrow> Addr list" where
  "taken_ips ip6 p rs =
     mask_addr (pBits p) (pAddr p) # last_addr (pBits p) (pAddr p) # parsed_ips ip6 rs"

definition ip4_rows :: "ip6_text \<Rightarrow> DBPeer list \<Rightarrow> bool" where
  "ip4_rows ip6 rs \<longleftrightarrow> list_all (\<lambda>a. BitLen a = 32) (parsed_ips ip6 rs)"

lemma set_map_filter: "set (List.map_filter f xs) = {y. \<exists>x \<in> set xs. f x = Some y}"
  by (induction xs) (auto simp: map_filter_simps split: option.splits)

lemma string4_not_stored:
  assumes "Addr4 w \<notin> set (parsed_ips ip6 rs)"
  shows "string4 w \<notin> IP ` set rs"
proof
  assume "string4 w \<in> IP ` set rs"
  then have "string4 w \<in> set (map IP rs)" by simp
  moreover have "netip_ParseAddr ip6 (string4 w) = Some (Addr4 w)" by (rule ParseAddr_string4)
  ultimately have "Addr4 w \<in> set (parsed_ips ip6 rs)" unfolding parsed_ips_def set_map_filter by blast
  with assms show False ..
qed

lemma BitLen_32: "BitLen a = 32 \<longleftrightarrow> (\<exists>v. a = Addr4 v)"
  by (cases a) auto

text \<open>Rows whose addresses are plain: no zones. Texts that do not parse are skipped.\<close>

definition plain_rows :: "ip6_text \<Rightarrow> DBPeer list \<Rightarrow> bool" where
  "plain_rows ip6 rs \<longleftrightarrow> list_all (\<lambda>a. IsValid a \<and> addr_zone a = []) (parsed_ips ip6 rs)"

lemma ip4_rows_plain: "ip4_rows ip6 rs \<Longrightarrow> plain_rows ip6 rs"
  by (auto simp: ip4_rows_def plain_rows_def list_all_iff BitLen_32 IsValid_def)

lemma plain_ends:
  assumes "valid_Prefix p"
  shows "IsValid (mask_addr (pBits p) (pAddr p))" "addr_zone (mask_addr (pBits p) (pAddr p)) = []"
    "IsValid (last_addr (pBits p) (pAddr p))" "addr_zone (last_addr (pBits p) (pAddr p)) = []"
  using assms by (cases "pAddr p"; simp add: valid_Prefix_def IsValid_def)+

lemma plain_taken:
  assumes "valid_Prefix p" and "plain_rows ip6 rs"
  shows "list_all (\<lambda>a. IsValid a \<and> addr_zone a = []) (taken_ips ip6 p rs)" "NoAddr \<notin> set (taken_ips ip6 p rs)"
  using assms plain_ends [OF assms(1)] by (auto simp: taken_ips_def plain_rows_def list_all_iff IsValid_def)

lemma length_taken_ips: "length (taken_ips ip6 p rs) \<le> length rs + 2"
  by (simp add: taken_ips_def parsed_ips_def map_filter_def comp_def)

lemma AllocatePeerIP_loop:
  assumes "netipx_ok nx" and "gorm_ok g" and "valid_Prefix p" and "plain_rows ip6 (rows g db)"
  shows "AllocatePeerIP ip6 nx g p db =
    map_option (\<lambda>a. Inr (addr_String ip6 a)) (next_free (\<lambda>a. a \<in> set (taken_ips ip6 p (rows g db))) (pAddr p))"
proof -
  let ?xs = "taken_ips ip6 p (rows g db)"
  have al: "GetAllocatedIPs ip6 g db = Some (parsed_ips ip6 (rows g db))"
    using store_lists(3) [OF assms(2)] by (simp add: GetAllocatedIPs_def parsed_ips_def)
  have xs: "RangeFrom nx p # RangeTo nx p # parsed_ips ip6 (rows g db) = ?xs"
    using assms(1,3) by (simp add: netipx_ok_def taken_ips_def)
  have "list_all IsValid ?xs" "list_all (\<lambda>a. addr_zone a = []) ?xs"
    using plain_taken(1) [OF assms(3,4)] by (simp_all add: list_all_iff)
  then obtain s where s: "IPSet nx ?xs = Some s" "\<And>a. set_Contains nx s a \<longleftrightarrow> a \<in> set ?xs"
    using assms(1) unfolding netipx_ok_def by blast
  have "set_Contains nx s = (\<lambda>a. a \<in> set ?xs)" using s(2) by (intro ext) simp
  then show ?thesis using al xs s(1) by (simp add: AllocatePeerIP_def)
qed

lemma AllocatePeerIP_found:
  assumes "netipx_ok nx" and "gorm_ok g" and "valid_Prefix p" and "pAddr p = Addr4 v"
    and "ip4_rows ip6 (rows g db)"
  obtains r where "AllocatePeerIP ip6 nx g p db = Some (Inr (addr_String ip6 r))"
    "first_free (\<lambda>a. a \<in> set (taken_ips ip6 p (rows g db))) v r"
proof -
  let ?t = "\<lambda>a. a \<in> set (taken_ips ip6 p (rows g db))"
  have fin: "finite {x. ?t x}" by simp
  have "\<not> ?t NoAddr" using assms(4,5) by (auto simp: taken_ips_def ip4_rows_def list_all_iff)
  from next_free_returns [OF fin this, of "pAddr p"] obtain r where r: "next_free ?t (pAddr p) = Some r" by blast
  with next_free_first_raw [OF r] AllocatePeerIP_loop [OF assms(1-3) ip4_rows_plain [OF assms(5)]] that assms(4) show ?thesis by auto
qed

text \<open>
  C23 (termination). The search for an address, an endless loop in the source, always ends:
  for every valid prefix, IPv4 or IPv6, full or not, and every table whose addresses have no
  zones, \<open>AllocatePeerIP\<close> returns without an error, after at most two more rounds than there
  are stored peers. It returns the first of the prefix's own address and its successors that
  is neither the network nor the broadcast address nor stored for a peer; behind the last
  address of the family that is the zero address, whose text is "invalid IP".
\<close>

theorem AllocatePeerIP_terminates:
  assumes "netipx_ok nx" and "gorm_ok g" and "valid_Prefix p" and "plain_rows ip6 (rows g db)"
  shows "\<exists>k \<le> length (rows g db) + 2.
     AllocatePeerIP ip6 nx g p db = Some (Inr (addr_String ip6 ((Next ^^ k) (pAddr p)))) \<and>
     (Next ^^ k) (pAddr p) \<notin> set (taken_ips ip6 p (rows g db)) \<and>
     (\<forall>i < k. (Next ^^ i) (pAddr p) \<in> set (taken_ips ip6 p (rows g db)))"
proof -
  let ?t = "\<lambda>a. a \<in> set (taken_ips ip6 p (rows g db))"
  have fin: "finite {x. ?t x}" by simp
  from next_free_scan [OF fin plain_taken(2) [OF assms(3,4)], of "pAddr p"] obtain k where
    k: "next_free ?t (pAddr p) = Some ((Next ^^ k) (pAddr p))" "\<not> ?t ((Next ^^ k) (pAddr p))" "\<forall>i < k. ?t ((Next ^^ i) (pAddr p))"
      "k \<le> card {x. ?t x \<and> addr_num (pAddr p) \<le> addr_num x}" by blast
  have "card {x. ?t x \<and> addr_num (pAddr p) \<le> addr_num x} \<le> card (set (taken_ips ip6 p (rows g db)))"
    by (intro card_mono) auto
  also have "\<dots> \<le> length (rows g db) + 2" using card_length length_taken_ips by (rule le_trans)
  finally show ?thesis using k AllocatePeerIP_loop [OF assms] by (intro exI [of _ k]) simp
qed

text \<open>
  Whether the allocated address belongs to the controller's prefix:
  it does exactly when the prefix still has a free address at or above its own
  address. When the prefix is full the function reports no error and returns an
  address outside the prefix.
\<close>

theorem AllocatePeerIP_in_prefix:
  assumes "netipx_ok nx" and "gorm_ok g" and "valid_Prefix p" and "pAddr p = Addr4 v"
    and "ip4_rows ip6 (rows g db)"
  shows "\<exists>r. AllocatePeerIP ip6 nx g p db = Some (Inr (addr_String ip6 r)) \<and>
     Contains p r = (\<exists>u. v \<le> u \<and> Contains p (Addr4 u) \<and> Addr4 u \<notin> set (taken_ips ip6 p (rows g db)))"
proof (rule AllocatePeerIP_found [OF assms])
  fix r
  assume r: "AllocatePeerIP ip6 nx g p db = Some (Inr (addr_String ip6 r))"
    "first_free (\<lambda>a. a \<in> set (taken_ips ip6 p (rows g db))) v r"
  have "Contains p r" if u: "v \<le> u" "Contains p (Addr4 u)" "Addr4 u \<notin> set (taken_ips ip6 p (rows g db))" for u
  proof -
    have "r \<noteq> NoAddr" "\<not> Addr4 u < r" using r(2) u by (auto simp: first_free_def)
    with r(2) obtain w where "r = Addr4 w" "v \<le> w" "w \<le> u" by (auto simp: first_free_def not_less)
    with Contains4_between [OF assms(3,4) u(2)] show ?thesis by simp
  qed
  moreover have "\<exists>u. v \<le> u \<and> Contains p (Addr4 u) \<and> Addr4 u \<notin> set (taken_ips ip6 p (rows g db))"
    if "Contains p r"
  proof -
    have "r \<noteq> NoAddr" using Contains_family [OF that] by (auto simp: IsValid_def)
    with r(2) that show ?thesis by (auto simp: first_free_def)
  qed
  ultimately show ?thesis using r(1) by blast
qed

definition no_ip6 :: ip6_text where
  "no_ip6 = \<lparr>parse6 = (\<lambda>_. None), string6 = (\<lambda>_ _. ''::'')\<rparr>"

definition home_prefix :: "nat \<Rightarrow> Prefix" where
  "home_prefix n = \<lparr>pAddr = Addr4 0x64460000, pBits = n\<rparr>"

definition home_peer :: "u32 \<Rightarrow> DBPeer" where
  "home_peer i = zero_DBPeer\<lparr>ID := i, IP := string4 (0x64460000 + i)\<rparr>"

lemma parsed_home_peer [simp]:
  "parsed_ips ip6 [] = []"
  "parsed_ips ip6 (home_peer i # rs) = Addr4 (0x64460000 + i) # parsed_ips ip6 rs"
  by (simp_all add: parsed_ips_def home_peer_def map_filter_simps)

text \<open>The last four addresses of IPv4, both hosts registered: the loop leaves the address space.\<close>

definition top_prefix :: Prefix where
  "top_prefix = \<lparr>pAddr = Addr4 0xFFFFFFFC, pBits = 30\<rparr>"

definition top_peers :: "DBPeer list" where
  "top_peers = [zero_DBPeer\<lparr>ID := 1, IP := string4 0xFFFFFFFD\<rparr>, zero_DBPeer\<lparr>ID := 2, IP := string4 0xFFFFFFFE\<rparr>]"

lemma parsed_top_peers: "parsed_ips ip6 top_peers = [Addr4 0xFFFFFFFD, Addr4 0xFFFFFFFE]"
  by (simp add: parsed_ips_def top_peers_def map_filter_simps)

theorem AllocatePeerIP_terminates_witness:
  "AllocatePeerIP no_ip6 list_netipx table_gorm top_prefix top_peers = Some (Inr ''invalid IP'')"
proof -
  have p: "valid_Prefix top_prefix" by (simp add: valid_Prefix_def top_prefix_def IsValid_def)
  have r: "plain_rows no_ip6 (rows table_gorm top_peers)"
    by (simp add: plain_rows_def table_gorm_def parsed_top_peers IsValid_def)
  have m: "push_bit 2 (drop_bit 2 0xFFFFFFFC) = (0xFFFFFFFC :: u32)" "0xFFFFFFFC OR mask 2 = (0xFFFFFFFF :: u32)" by code_simp+
  have t: "set (taken_ips no_ip6 top_prefix (rows table_gorm top_peers)) =
      {Addr4 0xFFFFFFFC, Addr4 0xFFFFFFFF, Addr4 0xFFFFFFFD, Addr4 0xFFFFFFFE}"
    using m by (simp add: taken_ips_def table_gorm_def parsed_top_peers top_prefix_def)
  obtain k where k: "AllocatePeerIP no_ip6 list_netipx table_gorm top_prefix top_peers =
      Some (Inr (addr_String no_ip6 ((Next ^^ k) (pAddr top_prefix))))"
    "(Next ^^ k) (pAddr top_prefix) \<notin> {Addr4 0xFFFFFFFC, Addr4 0xFFFFFFFF, Addr4 0xFFFFFFFD, Addr4 0xFFFFFFFE}"
    "\<forall>i < k. (Next ^^ i) (pAddr top_prefix) \<in> {Addr4 0xFFFFFFFC, Addr4 0xFFFFFFFF, Addr4 0xFFFFFFFD, Addr4 0xFFFFFFFE}"
    using AllocatePeerIP_terminates [OF list_netipx_ok table_gorm_ok p r] unfolding t by blast
  have f: "(Next ^^ 0) x = x" "(Next ^^ 1) x = Next x" "(Next ^^ 2) x = Next (Next x)" "(Next ^^ 3) x = Next (Next (Next x))"
    "(Next ^^ 4) x = Next (Next (Next (Next x)))" for x by (simp_all add: eval_nat_numeral)
  have n: "(Next ^^ 0) (pAddr top_prefix) = Addr4 0xFFFFFFFC" "(Next ^^ 1) (pAddr top_prefix) = Addr4 0xFFFFFFFD"
    "(Next ^^ 2) (pAddr top_prefix) = Addr4 0xFFFFFFFE" "(Next ^^ 3) (pAddr top_prefix) = Addr4 0xFFFFFFFF"
    "(Next ^^ 4) (pAddr top_prefix) = NoAddr"
    unfolding f by (simp_all add: top_prefix_def)
  have "k = 4"
  proof (rule ccontr)
    assume "k \<noteq> 4"
    then consider "k = 0" | "k = 1" | "k = 2" | "k = 3" | "4 < k" by linarith
    then show False using k(2) k(3) [rule_format, of 4] n by cases simp_all
  qed
  with k(1) n(5) show ?thesis by (simp add: addr_String_def)
qed

theorem AllocatePeerIP_in_prefix_witness:
  "\<exists>r. AllocatePeerIP no_ip6 list_netipx table_gorm (home_prefix 30) [home_peer 1, home_peer 2] =
     Some (Inr (addr_String no_ip6 r)) \<and> \<not> Contains (home_prefix 30) r"
proof -
  have p: "valid_Prefix (home_prefix 30)" "pAddr (home_prefix 30) = Addr4 0x64460000"
    by (simp_all add: valid_Prefix_def home_prefix_def IsValid_def)
  have r: "ip4_rows no_ip6 (rows table_gorm [home_peer 1, home_peer 2])"
    by (simp add: ip4_rows_def table_gorm_def)
  have m: "push_bit 2 (drop_bit 2 0x64460000) = (0x64460000 :: u32)" "0x64460000 OR mask 2 = (0x64460003 :: u32)"
    "drop_bit 2 0x64460000 = (0x19118000 :: u32)" by code_simp+
  have "Addr4 u \<in> set (taken_ips no_ip6 (home_prefix 30) (rows table_gorm [home_peer 1, home_peer 2]))"
    if "Contains (home_prefix 30) (Addr4 u)" for u
  proof -
    have "drop_bit 2 u = 0x19118000" using that Contains4 [OF _ p(2), of u] m by (simp add: home_prefix_def)
    then have "unat (drop_bit 2 u) = 0x19118000" by simp
    then have "unat u div 4 = 0x19118000" by (simp add: unat_drop_bit_eq drop_bit_nat_def)
    then have "unat u = 0x64460000 \<or> unat u = 0x64460001 \<or> unat u = 0x64460002 \<or> unat u = 0x64460003" by arith
    then have "u = 0x64460000 \<or> u = 0x64460001 \<or> u = 0x64460002 \<or> u = 0x64460003" by (auto simp: word_unat_eq_iff)
    then show ?thesis using m by (auto simp: taken_ips_def table_gorm_def home_prefix_def)
  qed
  with AllocatePeerIP_in_prefix [OF list_netipx_ok table_gorm_ok p r] show ?thesis by auto
qed

end
