(* ===== verification/Updates.thy ===== *)
theory Updates
  imports Store Auth Ipam "HOL-Library.AList"
begin

text \<open>
  The update channels of the controller (src/controller/peer_updates.go) and the
  controller's state. A channel of \<open>make(chan ...)\<close> without a size is an object on a
  heap; \<open>peerChannels\<close> maps peer ids to addresses of channels. A send hands the
  update to the stream that waits at the other end (\<open>ready\<close>), blocks when nobody
  waits, and panics on a closed channel. The theory shows that the channels in the map
  are open and distinct, so that no event ever sends on a closed channel or closes a
  channel twice.
\<close>

section \<open>State\<close>

record update_chan =
  cclosed :: bool
  ready :: bool
  got :: "pb_UpdateResponse list"

record 'db Controller =
  cdb :: 'db
  prefix :: Prefix
  peerChannels :: "(u32 \<times> nat) list"
  chans :: "update_chan list"
  delayed :: "u32 list"
  validator :: TokenValidator

text \<open>What the controller calls: the mapper, IP sets, address text, the provider, printed times.\<close>

record ('db, 'set) services =
  gdb :: "'db gorm"
  nxlib :: "'set netipx"
  ip6lib :: ip6_text
  provider :: idp
  timefmt :: "instant \<Rightarrow> string"

definition NewController :: "'db \<Rightarrow> Prefix \<Rightarrow> TokenValidator \<Rightarrow> 'db Controller" where
  "NewController db p tv =
     \<lparr>cdb = db, prefix = p, peerChannels = [], chans = [], delayed = [], validator = tv\<rparr>"

section \<open>Channels\<close>

definition chan_put :: "pb_UpdateResponse \<Rightarrow> nat \<Rightarrow> update_chan list \<Rightarrow> update_chan list outcome" where
  "chan_put u a cs =
     (if a < length cs then
        (if cclosed (cs ! a) then Panic ''send on closed channel''
         else if ready (cs ! a) then Ret (cs[a := (cs ! a)\<lparr>ready := False, got := got (cs ! a) @ [u]\<rparr>])
         else Block)
      else Block)"

definition chan_close :: "nat \<Rightarrow> update_chan list \<Rightarrow> update_chan list outcome" where
  "chan_close a cs =
     (if a < length cs then
        (if cclosed (cs ! a) then Panic ''close of closed channel''
         else Ret (cs[a := (cs ! a)\<lparr>cclosed := True\<rparr>]))
      else Panic ''close of nil channel'')"

definition new_chan :: update_chan where
  "new_chan = \<lparr>cclosed = False, ready = False, got = []\<rparr>"

section \<open>Operations\<close>

text \<open>\<open>Store\<close> replaces the entry of the id; the channel it held stays open.\<close>

definition GetPeerUpdateChannel :: "u32 \<Rightarrow> 'db Controller \<Rightarrow> nat \<times> 'db Controller" where
  "GetPeerUpdateChannel i c =
     (length (chans c),
      c\<lparr>chans := chans c @ [new_chan],
        peerChannels := AList.update i (length (chans c)) (peerChannels c)\<rparr>)"

definition DeletePeerUpdateChannel :: "u32 \<Rightarrow> 'db Controller \<Rightarrow> 'db Controller outcome" where
  "DeletePeerUpdateChannel i c =
     (case map_of (peerChannels c) i of
        None \<Rightarrow> Ret c
      | Some a \<Rightarrow>
          obind (chan_close a (chans c)) (\<lambda>cs.
          Ret (c\<lparr>chans := cs, peerChannels := AList.delete i (peerChannels c)\<rparr>)))"

fun close_all :: "(u32 \<times> nat) list \<Rightarrow> 'db Controller \<Rightarrow> 'db Controller outcome" where
  "close_all [] c = Ret c"
| "close_all ((i, a) # es) c =
     obind (chan_close a (chans c)) (\<lambda>cs.
     close_all es (c\<lparr>chans := cs, peerChannels := AList.delete i (peerChannels c)\<rparr>))"

definition CloseAllPeerUpdateChannels :: "'db Controller \<Rightarrow> 'db Controller outcome" where
  "CloseAllPeerUpdateChannels c = close_all (peerChannels c) c"

definition GetConnectedPeers :: "('db, 'set) services \<Rightarrow> u32 \<Rightarrow> 'db Controller \<Rightarrow> pb_PeerList option" where
  "GetConnectedPeers sv i c =
     (case store_GetConnectedPeers (gdb sv) (cdb c) of
        None \<Rightarrow> None
      | Some peers \<Rightarrow>
          let peerList = map Proto (filter (\<lambda>p. ID p \<noteq> i) peers)
          in Some \<lparr>pl_Peers = peerList, pl_Count = of_nat (length peerList)\<rparr>)"

fun send_others :: "pb_UpdateResponse \<Rightarrow> u32 \<Rightarrow> (u32 \<times> nat) list \<Rightarrow> update_chan list \<Rightarrow> update_chan list outcome" where
  "send_others u i [] cs = Ret cs"
| "send_others u i ((k, a) # es) cs =
     (if k \<noteq> i then obind (chan_put u a cs) (send_others u i es) else send_others u i es cs)"

definition peer_update :: "UpdateType \<Rightarrow> DBPeer \<Rightarrow> pb_UpdateResponse" where
  "peer_update ty p = \<lparr>ur_UpdateType = ty, ur_PeerList = Some \<lparr>pl_Peers = [Proto p], pl_Count = 1\<rparr>,
     ur_PunchEndpoint = []\<rparr>"

definition PeerConnectedEvent ::
  "('db, 'set) services \<Rightarrow> u32 \<Rightarrow> 'db Controller \<Rightarrow> 'db Controller outcome" where
  "PeerConnectedEvent sv i c =
     (case GetPeerbyID (gdb sv) i (cdb c) of
        None \<Rightarrow> Ret c
      | Some p \<Rightarrow>
          obind (send_others (peer_update CONNECT p) i (peerChannels c) (chans c)) (\<lambda>cs.
          Ret (c\<lparr>chans := cs\<rparr>)))"

definition PeerDisconnectedEvent ::
  "('db, 'set) services \<Rightarrow> u32 \<Rightarrow> 'db Controller \<Rightarrow> 'db Controller outcome" where
  "PeerDisconnectedEvent sv i c =
     (case GetPeerbyID (gdb sv) i (cdb c) of
        None \<Rightarrow> Ret c
      | Some p \<Rightarrow>
          obind (send_others (peer_update DISCONNECT p) i (peerChannels c) (chans c)) (\<lambda>cs.
          Ret (c\<lparr>chans := cs\<rparr>)))"

definition send_to :: "pb_UpdateResponse \<Rightarrow> u32 \<Rightarrow> 'db Controller \<Rightarrow> 'db Controller outcome" where
  "send_to u i c =
     (case map_of (peerChannels c) i of
        None \<Rightarrow> Ret c
      | Some a \<Rightarrow> obind (chan_put u a (chans c)) (\<lambda>cs. Ret (c\<lparr>chans := cs\<rparr>)))"

definition PeerForcedLogoutEvent :: "u32 \<Rightarrow> 'db Controller \<Rightarrow> 'db Controller outcome" where
  "PeerForcedLogoutEvent i c =
     send_to \<lparr>ur_UpdateType = LOGOUT, ur_PeerList = None, ur_PunchEndpoint = []\<rparr> i c"

definition PeerPunchRequest ::
  "('db, 'set) services \<Rightarrow> u32 \<Rightarrow> string \<Rightarrow> 'db Controller \<Rightarrow> 'db Controller outcome" where
  "PeerPunchRequest sv i endpoint c =
     (case GetPeerbyID (gdb sv) i (cdb c) of
        None \<Rightarrow> Ret c
      | Some _ \<Rightarrow>
          send_to \<lparr>ur_UpdateType = PUNCH, ur_PeerList = None, ur_PunchEndpoint = endpoint\<rparr> i c)"

section \<open>Registered channels are open and distinct\<close>

definition chans_ok :: "'db Controller \<Rightarrow> bool" where
  "chans_ok c \<longleftrightarrow>
     distinct (map fst (peerChannels c)) \<and> distinct (map snd (peerChannels c)) \<and>
     list_all (\<lambda>(i, a). a < length (chans c) \<and> \<not> cclosed (chans c ! a)) (peerChannels c)"

text \<open>What the sends change: contents only, never which channels are closed.\<close>

definition same_chans :: "update_chan list \<Rightarrow> update_chan list \<Rightarrow> bool" where
  "same_chans cs ds \<longleftrightarrow> length ds = length cs \<and>
     (\<forall>a < length cs. cclosed (ds ! a) = cclosed (cs ! a))"

lemma same_chans_refl [simp]: "same_chans cs cs"
  by (simp add: same_chans_def)

lemma same_chans_trans: "same_chans cs ds \<Longrightarrow> same_chans ds es \<Longrightarrow> same_chans cs es"
  by (simp add: same_chans_def)

lemma chan_put_same: "chan_put u a cs = Ret ds \<Longrightarrow> same_chans cs ds"
  by (auto simp: chan_put_def same_chans_def nth_list_update split: if_splits)

lemma send_others_same: "send_others u i es cs = Ret ds \<Longrightarrow> same_chans cs ds"
  by (induction u i es cs rule: send_others.induct)
    (auto simp: obind_eq_Ret split: if_splits dest: chan_put_same intro: same_chans_trans)

lemma chans_ok_same: "chans_ok c \<Longrightarrow> same_chans (chans c) cs \<Longrightarrow> chans_ok (c\<lparr>chans := cs\<rparr>)"
  by (auto simp: chans_ok_def same_chans_def list_all_iff)

lemma chan_put_registered: "a < length cs \<Longrightarrow> \<not> cclosed (cs ! a) \<Longrightarrow> \<not> is_panic (chan_put u a cs)"
  by (simp add: chan_put_def)

lemma send_others_registered:
  "list_all (\<lambda>(i, a). a < length cs \<and> \<not> cclosed (cs ! a)) es \<Longrightarrow> \<not> is_panic (send_others u i es cs)"
proof (induction u i es cs rule: send_others.induct)
  case (2 u i k a es cs)
  show ?case
  proof (cases "chan_put u a cs")
    case (Ret ds)
    then have "same_chans cs ds" by (rule chan_put_same)
    then have "list_all (\<lambda>(i, a). a < length ds \<and> \<not> cclosed (ds ! a)) es"
      using 2(3) by (auto simp: list_all_iff same_chans_def)
    with 2 Ret show ?thesis by auto
  next
    case (Panic m)
    with 2(3) chan_put_registered [of a cs u] show ?thesis by auto
  qed (use 2 in auto)
qed simp

lemma map_of_registered:
  "chans_ok c \<Longrightarrow> map_of (peerChannels c) i = Some a \<Longrightarrow> a < length (chans c) \<and> \<not> cclosed (chans c ! a)"
  by (auto simp: chans_ok_def list_all_iff dest!: map_of_SomeD)

lemma AList_update_set: "(k, a) \<in> set (AList.update i m ys) \<Longrightarrow> (k, a) \<in> set ys \<or> (k, a) = (i, m)"
  by (induction ys) (auto split: if_splits)

lemma AList_update_fresh:
  assumes "distinct (map snd ys)" and "m \<notin> snd ` set ys"
  shows "distinct (map snd (AList.update i m ys))"
  using assms
proof (induction ys)
  case (Cons y ys)
  have "snd ` set (AList.update i m ys) \<subseteq> insert m (snd ` set ys)"
    by (auto dest!: AList_update_set intro: rev_image_eqI)
  then have "snd y \<notin> snd ` set (AList.update i m ys)" using Cons.prems by auto
  with Cons show ?case by (cases y) auto
qed simp

lemma GetPeerUpdateChannel_ok:
  assumes "chans_ok c"
  shows "chans_ok (snd (GetPeerUpdateChannel i c))"
proof -
  let ?n = "length (chans c)"
  have "distinct (map snd (peerChannels c))" "?n \<notin> snd ` set (peerChannels c)"
    using assms by (auto simp: chans_ok_def list_all_iff)
  from AList_update_fresh [OF this, of i] show ?thesis
    using assms
    by (auto simp: chans_ok_def GetPeerUpdateChannel_def list_all_iff nth_append new_chan_def distinct_update
        dest!: AList_update_set)
qed

lemma close_entry_ok:
  assumes "chans_ok c" and "(i, a) \<in> set (peerChannels c)"
  shows "chan_close a (chans c) = Ret ((chans c)[a := (chans c ! a)\<lparr>cclosed := True\<rparr>])"
    and "chans_ok (c\<lparr>chans := (chans c)[a := (chans c ! a)\<lparr>cclosed := True\<rparr>],
      peerChannels := AList.delete i (peerChannels c)\<rparr>)"
proof -
  have a: "a < length (chans c)" "\<not> cclosed (chans c ! a)"
    and d: "distinct (map fst (peerChannels c))" "distinct (map snd (peerChannels c))"
    using assms by (auto simp: chans_ok_def list_all_iff)
  show "chan_close a (chans c) = Ret ((chans c)[a := (chans c ! a)\<lparr>cclosed := True\<rparr>])"
    using a by (simp add: chan_close_def)
  have "b \<noteq> a" if "(k, b) \<in> set (peerChannels c)" "k \<noteq> i" for k b
    using that assms(2) d(2) by (metis distinct_map inj_onD prod.inject snd_conv)
  then show "chans_ok (c\<lparr>chans := (chans c)[a := (chans c ! a)\<lparr>cclosed := True\<rparr>],
      peerChannels := AList.delete i (peerChannels c)\<rparr>)"
    using assms(1) d by (force simp: chans_ok_def list_all_iff AList.delete_eq distinct_map_filter)
qed

lemma DeletePeerUpdateChannel_ok:
  assumes "chans_ok c"
  obtains c' where "DeletePeerUpdateChannel i c = Ret c'" "chans_ok c'" "map_of (peerChannels c') i = None"
proof (cases "map_of (peerChannels c) i")
  case None
  then show ?thesis using assms by (intro that [of c]) (simp_all add: DeletePeerUpdateChannel_def)
next
  case (Some a)
  note ce = close_entry_ok [OF assms map_of_SomeD [OF Some]]
  show ?thesis
  proof (rule that)
    show "DeletePeerUpdateChannel i c = Ret (c\<lparr>chans := (chans c)[a := (chans c ! a)\<lparr>cclosed := True\<rparr>],
        peerChannels := AList.delete i (peerChannels c)\<rparr>)"
      using Some ce(1) by (simp add: DeletePeerUpdateChannel_def)
  qed (use ce(2) in \<open>simp_all add: AList.delete_conv'\<close>)
qed

lemma close_all_ok:
  "chans_ok c \<Longrightarrow> peerChannels c = es \<Longrightarrow> \<exists>c'. close_all es c = Ret c' \<and> chans_ok c' \<and> peerChannels c' = []"
proof (induction es arbitrary: c)
  case (Cons x es)
  obtain i a where x: "x = (i, a)" by (cases x)
  have "i \<notin> fst ` set es" using Cons.prems x by (auto simp: chans_ok_def)
  then have "AList.delete i (peerChannels c) = es" using Cons.prems(2) x by (simp add: delete_id)
  with close_entry_ok [of c i a] Cons.IH Cons.prems show ?case by (simp add: x)
qed simp

section \<open>Events\<close>

datatype upd_event =
    EvRegister u32 | EvDelete u32 | EvCloseAll | EvConnected u32 | EvDisconnected u32
  | EvForcedLogout u32 | EvPunchRequest u32 string | EvReceive nat

text \<open>\<open>EvReceive a\<close>: the stream that owns channel \<open>a\<close> arrives at its receive.\<close>

fun upd_step :: "('db, 'set) services \<Rightarrow> upd_event \<Rightarrow> 'db Controller \<Rightarrow> 'db Controller outcome" where
  "upd_step sv (EvRegister i) c = Ret (snd (GetPeerUpdateChannel i c))"
| "upd_step sv (EvDelete i) c = DeletePeerUpdateChannel i c"
| "upd_step sv EvCloseAll c = CloseAllPeerUpdateChannels c"
| "upd_step sv (EvConnected i) c = PeerConnectedEvent sv i c"
| "upd_step sv (EvDisconnected i) c = PeerDisconnectedEvent sv i c"
| "upd_step sv (EvForcedLogout i) c = PeerForcedLogoutEvent i c"
| "upd_step sv (EvPunchRequest i s) c = PeerPunchRequest sv i s c"
| "upd_step sv (EvReceive a) c =
     Ret (if a < length (chans c) then c\<lparr>chans := (chans c)[a := (chans c ! a)\<lparr>ready := True\<rparr>]\<rparr> else c)"

definition chans_safe :: "'db Controller outcome \<Rightarrow> bool" where
  "chans_safe r \<longleftrightarrow> (case r of Ret c \<Rightarrow> chans_ok c | Block \<Rightarrow> True | Panic _ \<Rightarrow> False)"

lemma chans_safe_simps [simp]:
  "chans_safe (Ret c) = chans_ok c" "chans_safe Block" "\<not> chans_safe (Panic m)"
  by (simp_all add: chans_safe_def)

lemma send_to_safe:
  assumes "chans_ok c"
  shows "chans_safe (send_to u i c)"
proof (cases "map_of (peerChannels c) i")
  case (Some a)
  with map_of_registered [OF assms Some] chans_ok_same [OF assms chan_put_same, of u a] show ?thesis
    by (auto simp: send_to_def chan_put_def)
qed (use assms in \<open>simp add: send_to_def\<close>)

lemma event_to_others_safe:
  assumes "chans_ok c"
  shows "chans_safe (obind (send_others u i (peerChannels c) (chans c)) (\<lambda>cs. Ret (c\<lparr>chans := cs\<rparr>)))"
proof (cases "send_others u i (peerChannels c) (chans c)")
  case (Ret ds)
  then show ?thesis using chans_ok_same [OF assms send_others_same [OF Ret]] by simp
next
  case (Panic m)
  then show ?thesis
    using send_others_registered [of "chans c" "peerChannels c" u i] assms by (simp add: chans_ok_def)
qed simp

lemma upd_step_safe:
  assumes "chans_ok c"
  shows "chans_safe (upd_step sv e c)"
proof (cases e)
  case (EvDelete i)
  then show ?thesis using DeletePeerUpdateChannel_ok [OF assms, of i] by (metis chans_safe_simps(1) upd_step.simps(2))
next
  case EvCloseAll
  then show ?thesis using close_all_ok [OF assms refl] by (auto simp: CloseAllPeerUpdateChannels_def)
next
  case (EvReceive a)
  then show ?thesis
    using assms by (auto simp: chans_ok_def list_all_iff nth_list_update)
qed (use assms in \<open>auto simp: GetPeerUpdateChannel_ok send_to_safe event_to_others_safe PeerConnectedEvent_def
      PeerDisconnectedEvent_def PeerForcedLogoutEvent_def PeerPunchRequest_def split: option.splits\<close>)

interpretation chan_inv: preserves "upd_step sv" chans_ok for sv
  by unfold_locales (metis chans_safe_simps(1) upd_step_safe)

section \<open>Delivery\<close>

lemma send_others_delivers:
  assumes "list_all (\<lambda>(k, a). k \<noteq> i \<longrightarrow> a < length cs \<and> \<not> cclosed (cs ! a) \<and> ready (cs ! a)) es"
    and "distinct (map snd es)"
  shows "\<exists>ds. send_others u i es cs = Ret ds \<and> length ds = length cs \<and>
    (\<forall>b < length cs. ds ! b =
       (if \<exists>k. (k, b) \<in> set es \<and> k \<noteq> i then (cs ! b)\<lparr>ready := False, got := got (cs ! b) @ [u]\<rparr> else cs ! b))"
  using assms
proof (induction es arbitrary: cs)
  case (Cons x es)
  obtain k a where x: "x = (k, a)" by (cases x)
  show ?case
  proof (cases "k = i")
    case True
    with Cons.IH [of cs] Cons.prems show ?thesis by (auto simp: x)
  next
    case False
    let ?cs = "cs[a := (cs ! a)\<lparr>ready := False, got := got (cs ! a) @ [u]\<rparr>]"
    have a: "a < length cs" "\<not> cclosed (cs ! a)" "ready (cs ! a)" using Cons.prems(1) False by (auto simp: x)
    have nb: "b \<noteq> a" if "(l, b) \<in> set es" for l b using Cons.prems(2) that by (force simp: x)
    have "list_all (\<lambda>(k, a). k \<noteq> i \<longrightarrow> a < length ?cs \<and> \<not> cclosed (?cs ! a) \<and> ready (?cs ! a)) es"
      using Cons.prems(1) nb by (force simp: list_all_iff x)
    from Cons.IH [OF this] Cons.prems(2) obtain ds where ds: "send_others u i es ?cs = Ret ds" "length ds = length ?cs"
      "\<And>b. b < length ?cs \<Longrightarrow> ds ! b = (if \<exists>k. (k, b) \<in> set es \<and> k \<noteq> i then (?cs ! b)\<lparr>ready := False, got := got (?cs ! b) @ [u]\<rparr> else ?cs ! b)"
      by (auto simp: x)
    have "send_others u i (x # es) cs = Ret ds" using a False ds(1) by (simp add: x chan_put_def)
    moreover have "ds ! b = (if \<exists>k. (k, b) \<in> set (x # es) \<and> k \<noteq> i then (cs ! b)\<lparr>ready := False, got := got (cs ! b) @ [u]\<rparr> else cs ! b)"
      if "b < length cs" for b
    proof (cases "b = a")
      case True
      with nb have "\<not> (\<exists>k. (k, b) \<in> set es \<and> k \<noteq> i)" by blast
      with True ds(3) [of b] that a False show ?thesis by (auto simp: x)
    next
      case nba: False
      with ds(3) [of b] that show ?thesis by (auto simp: x)
    qed
    ultimately show ?thesis using ds(2) by auto
  qed
qed simp

section \<open>Properties\<close>

text \<open>
  Run one at a time and without interruption, the operations on
  update channels never send on a closed channel and never close a channel twice: in every
  state reachable from a new controller the registered channels are open and
  pairwise different, and the next operation returns or waits for a receiver but does
  not panic. Theory Streams shows what changes when operations are interrupted while
  they wait.
\<close>

lemma update_channels_stay_open:
  assumes "run_events (upd_step sv) es (NewController db p tv) = Ret c"
  shows "chans_ok c \<and> \<not> is_panic (upd_step sv e c)"
proof -
  have "chans_ok (NewController db p tv)" by (simp add: chans_ok_def NewController_def)
  from chan_inv.run_inv [OF this assms] have ok: "chans_ok c" .
  with upd_step_safe [OF ok, of sv e] show ?thesis by (cases "upd_step sv e c") auto
qed

definition toy_services :: "(DBPeer list, Addr list) services" where
  "toy_services = \<lparr>gdb = table_gorm, nxlib = list_netipx, ip6lib = no_ip6, provider = toy_idp, timefmt = (\<lambda>_. [])\<rparr>"

lemma update_channels_stay_open_example:
  "\<exists>c. run_events (upd_step toy_services) [EvRegister 1, EvRegister 1, EvDelete 1]
       (NewController [home_peer 1] (home_prefix 24) toy_validator) = Ret c \<and>
     \<not> is_panic (upd_step toy_services (EvDelete 1) c)"
proof -
  have "\<exists>c. run_events (upd_step toy_services) [EvRegister 1, EvRegister 1, EvDelete 1]
       (NewController [home_peer 1] (home_prefix 24) toy_validator) = Ret c"
    by (simp add: GetPeerUpdateChannel_def NewController_def DeletePeerUpdateChannel_def chan_close_def new_chan_def)
  then obtain c where c: "run_events (upd_step toy_services) [EvRegister 1, EvRegister 1, EvDelete 1]
       (NewController [home_peer 1] (home_prefix 24) toy_validator) = Ret c" by blast
  from update_channels_stay_open [OF c, of "EvDelete 1"] c show ?thesis by blast
qed

text \<open>
  When every other registered stream waits for updates,
  announcing a stored peer reaches every registered stream but the peer's own, each
  exactly once and with the peer's record (the stream then leaves its receive to
  handle it), and changes nothing else.
\<close>

theorem connect_event_reaches_the_others:
  assumes "gorm_ok (gdb sv)" and "chans_ok c" and "p \<in> set (rows (gdb sv) (cdb c))"
    and "keys_ok (rows (gdb sv) (cdb c))"
    and "list_all (\<lambda>(k, a). k = ID p \<or> ready (chans c ! a)) (peerChannels c)"
  shows "\<exists>cs. PeerConnectedEvent sv (ID p) c = Ret (c\<lparr>chans := cs\<rparr>) \<and> length cs = length (chans c) \<and>
     (\<forall>b < length cs. cs ! b =
        (if \<exists>k. (k, b) \<in> set (peerChannels c) \<and> k \<noteq> ID p
         then (chans c ! b)\<lparr>ready := False, got := got (chans c ! b) @ [peer_update CONNECT p]\<rparr> else chans c ! b))"
proof -
  have g: "GetPeerbyID (gdb sv) (ID p) (cdb c) = Some p"
    using store.by_id [OF assms(1)] find_key [OF assms(4,3)] by simp
  have "list_all (\<lambda>(k, a). k \<noteq> ID p \<longrightarrow> a < length (chans c) \<and> \<not> cclosed (chans c ! a) \<and> ready (chans c ! a))
      (peerChannels c)" "distinct (map snd (peerChannels c))"
    using assms(2,5) by (auto simp: chans_ok_def list_all_iff)
  from send_others_delivers [OF this, of "peer_update CONNECT p"] obtain ds where
    ds: "send_others (peer_update CONNECT p) (ID p) (peerChannels c) (chans c) = Ret ds"
    "length ds = length (chans c)" "\<forall>b < length (chans c). ds ! b =
       (if \<exists>k. (k, b) \<in> set (peerChannels c) \<and> k \<noteq> ID p
        then (chans c ! b)\<lparr>ready := False, got := got (chans c ! b) @ [peer_update CONNECT p]\<rparr> else chans c ! b)" by blast
  have "PeerConnectedEvent sv (ID p) c = Ret (c\<lparr>chans := ds\<rparr>)" using g ds(1) by (simp add: PeerConnectedEvent_def)
  with ds(2,3) show ?thesis by (intro exI [of _ ds] conjI) simp_all
qed

theorem connect_event_reaches_the_others_witness:
  "\<exists>cs. PeerConnectedEvent toy_services 1 ((NewController [home_peer 1] (home_prefix 24) toy_validator)\<lparr>
       peerChannels := [(2, 0)], chans := [new_chan\<lparr>ready := True\<rparr>]\<rparr>) = Ret cs \<and>
     got (chans cs ! 0) = [peer_update CONNECT (home_peer 1)]"
proof -
  let ?c = "(NewController [home_peer 1] (home_prefix 24) toy_validator)\<lparr>
       peerChannels := [(2, 0)], chans := [new_chan\<lparr>ready := True\<rparr>]\<rparr>"
  have i: "ID (home_peer 1) = 1" by (simp add: home_peer_def)
  have h: "gorm_ok (gdb toy_services)" "chans_ok ?c" "home_peer 1 \<in> set (rows (gdb toy_services) (cdb ?c))"
    "keys_ok (rows (gdb toy_services) (cdb ?c))"
    "list_all (\<lambda>(k, a). k = ID (home_peer 1) \<or> ready (chans ?c ! a)) (peerChannels ?c)"
    by (simp_all add: toy_services_def table_gorm_ok chans_ok_def NewController_def new_chan_def keys_ok_def i)
      (simp_all add: table_gorm_def i)
  from connect_event_reaches_the_others [OF h] obtain cs where
    "PeerConnectedEvent toy_services 1 ?c = Ret (?c\<lparr>chans := cs\<rparr>)" "length cs = 1"
    "cs ! 0 = (new_chan\<lparr>ready := True\<rparr>)\<lparr>ready := False, got := [peer_update CONNECT (home_peer 1)]\<rparr>"
    by (auto simp: i new_chan_def)
  then show ?thesis by (intro exI [of _ "?c\<lparr>chans := cs\<rparr>"]) simp
qed

end
