(* ===== verification/ControllerOps.thy ===== *)
theory ControllerOps
  imports Updates
begin

text \<open>
  The controller's operations on peers (src/controller/controller.go): login,
  logout, deletion and registration. A request reads the clock once (\<open>now\<close>). The
  goroutine that \<open>LogoutPeer\<close> starts removes the update channel ten seconds later;
  it is an entry of \<open>delayed\<close> until then. A search for an address that would not end
  and a send nobody receives are \<open>Block\<close>.
\<close>

section \<open>Operations\<close>

datatype ctl_error =
    DisabledCannotLogIn | UpdateFailed | PeerDoesntExist | DeleteFailed
  | AllocationFailed ipam_error | CreateFailed

definition ProcessPeerLogin ::
  "('db, 'set) services \<Rightarrow> instant \<Rightarrow> DBPeer \<Rightarrow> pb_LoginPeerRequest \<Rightarrow> 'db Controller \<Rightarrow>
     (ctl_error + DBPeer) \<times> 'db Controller" where
  "ProcessPeerLogin sv now peer req c =
     (if IsDisabled peer then (Inl DisabledCannotLogIn, c)
      else let peer = peer\<lparr>LastLogin := now, NoisePublicKey := lr_PublicKey req,
                 HostName := lr_Hostname req, Endpoint := lr_Endpoint req,
                 Connected := False, LoggedIn := True\<rparr>;
               (ok, db) = UpdatePeer (gdb sv) peer (cdb c);
               c = c\<lparr>cdb := db\<rparr>
           in if \<not> ok then (Inl UpdateFailed, c) else (Inr peer, c))"

definition LogoutPeer ::
  "('db, 'set) services \<Rightarrow> DBPeer \<Rightarrow> 'db Controller \<Rightarrow> (ctl_error option \<times> 'db Controller) outcome" where
  "LogoutPeer sv peer c =
     obind (PeerForcedLogoutEvent (ID peer) c) (\<lambda>c.
     let c = c\<lparr>delayed := delayed c @ [ID peer]\<rparr>;
         (ok, db) = UpdatePeer (gdb sv) (zero_DBPeer\<lparr>ID := ID peer, LoggedIn := False, Connected := False\<rparr>) (cdb c);
         c = c\<lparr>cdb := db\<rparr>
     in Ret (if \<not> ok then (Some UpdateFailed, c) else (None, c)))"

text \<open>The delayed part of \<open>LogoutPeer\<close>.\<close>

definition delayed_cleanup :: "u32 \<Rightarrow> 'db Controller \<Rightarrow> 'db Controller outcome" where
  "delayed_cleanup i c = DeletePeerUpdateChannel i (c\<lparr>delayed := remove1 i (delayed c)\<rparr>)"

definition ctl_DeletePeer ::
  "('db, 'set) services \<Rightarrow> u32 \<Rightarrow> 'db Controller \<Rightarrow> (ctl_error option \<times> 'db Controller) outcome" where
  "ctl_DeletePeer sv peerID c =
     (case GetPeerbyID (gdb sv) peerID (cdb c) of
        None \<Rightarrow> Ret (Some PeerDoesntExist, c)
      | Some peer \<Rightarrow>
          obind (if Connected peer then LogoutPeer sv peer c else Ret (None, c)) (\<lambda>(e, c).
          case e of
            Some e \<Rightarrow> Ret (Some e, c)
          | None \<Rightarrow>
              let (ok, db) = store_DeletePeer (gdb sv) peer (cdb c); c = c\<lparr>cdb := db\<rparr>
              in Ret (if \<not> ok then (Some DeleteFailed, c) else (None, c))))"

definition RegisterPeer ::
  "('db, 'set) services \<Rightarrow> instant \<Rightarrow> pb_LoginPeerRequest \<Rightarrow> string \<Rightarrow> 'db Controller \<Rightarrow>
     ((ctl_error + DBPeer) \<times> 'db Controller) outcome" where
  "RegisterPeer sv now req userID c =
     (case AllocatePeerIP (ip6lib sv) (nxlib sv) (gdb sv) (prefix c) (cdb c) of
        None \<Rightarrow> Block
      | Some (Inl e) \<Rightarrow> Ret (Inl (AllocationFailed e), c)
      | Some (Inr ip) \<Rightarrow>
          let newPeer = zero_DBPeer\<lparr>MachineID := lr_MachineId req, NoisePublicKey := lr_PublicKey req,
                HostName := lr_Hostname req, PrefixStr := prefix_String (ip6lib sv) (prefix c), IP := ip,
                Endpoint := lr_Endpoint req, Connected := False, LoggedIn := True,
                LastAuth := now, LastLogin := now, User := userID\<rparr>;
              (r, db) = CreatePeer (gdb sv) newPeer (cdb c);
              c = c\<lparr>cdb := db\<rparr>
          in Ret (case r of None \<Rightarrow> (Inl CreateFailed, c) | Some p \<Rightarrow> (Inr p, c)))"

section \<open>Facts about the operations\<close>

lemma UpdatePeer_rows:
  assumes "gorm_ok g" and "ID p \<noteq> 0" and "\<not> ip_clash (ID p) (IP p) (rows g db)"
  shows "fst (UpdatePeer g p db)"
    "rows g (snd (UpdatePeer g p db)) = upd_row (ID p) (merge_nonzero (stamp g db) p) (rows g db)"
  using store.update [OF assms(1,2), of db] assms(3) by simp_all

lemma merge_zero: "merge_nonzero t (zero_DBPeer\<lparr>ID := i, LoggedIn := False, Connected := False\<rparr>) r = r\<lparr>UpdatedAt := t\<rparr>"
  by (simp add: merge_nonzero_def zero_DBPeer_def nonzero_or_def)

lemma PeerForcedLogoutEvent_db: "PeerForcedLogoutEvent i c = Ret c' \<Longrightarrow> cdb c' = cdb c \<and> peerChannels c' = peerChannels c \<and> delayed c' = delayed c"
  by (auto simp: PeerForcedLogoutEvent_def send_to_def obind_eq_Ret split: option.splits)

lemma LogoutPeer_Ret:
  assumes "gorm_ok (gdb sv)" and "ID p \<noteq> 0" and "LogoutPeer sv p c = Ret (e, c')"
  shows "e = None \<and> peerChannels c' = peerChannels c \<and> ID p \<in> set (delayed c') \<and>
    rows (gdb sv) (cdb c') = upd_row (ID p) (\<lambda>r. r\<lparr>UpdatedAt := stamp (gdb sv) (cdb c)\<rparr>) (rows (gdb sv) (cdb c))"
proof -
  let ?z = "zero_DBPeer\<lparr>ID := ID p, LoggedIn := False, Connected := False\<rparr>"
  from assms(3) obtain c1 where c1: "PeerForcedLogoutEvent (ID p) c = Ret c1"
    and r: "(e, c') = (if \<not> fst (UpdatePeer (gdb sv) ?z (cdb c1))
       then (Some UpdateFailed, c1\<lparr>delayed := delayed c1 @ [ID p], cdb := snd (UpdatePeer (gdb sv) ?z (cdb c1))\<rparr>)
       else (None, c1\<lparr>delayed := delayed c1 @ [ID p], cdb := snd (UpdatePeer (gdb sv) ?z (cdb c1))\<rparr>))"
    by (auto simp: LogoutPeer_def obind_eq_Ret Let_def case_prod_beta split: if_splits)
  have z: "ID ?z \<noteq> 0" "ID ?z = ID p" "\<not> ip_clash (ID ?z) (IP ?z) (rows (gdb sv) (cdb c1))"
    using assms(2) by (simp_all add: zero_DBPeer_def)
  have m: "merge_nonzero t ?z = (\<lambda>r. r\<lparr>UpdatedAt := t\<rparr>)" for t using merge_zero by (intro ext) simp
  show ?thesis
    using r PeerForcedLogoutEvent_db [OF c1] UpdatePeer_rows [OF assms(1) z(1,3)] z(2) m by simp
qed

section \<open>Properties\<close>

text \<open>
  C35 (error). Logging a peer out is not stored: \<open>LogoutPeer\<close> writes a record whose
  only non-zero field is the key, and the mapper skips zero fields, so after a
  successful logout the stored record still has the same \<open>LoggedIn\<close> and \<open>Connected\<close>
  flags and differs at most in its update time.
\<close>

theorem LogoutPeer_not_stored:
  assumes "gorm_ok (gdb sv)" and "keys_ok (rows (gdb sv) (cdb c))" and "p \<in> set (rows (gdb sv) (cdb c))"
    and "LogoutPeer sv p c = Ret (e, c')"
  shows "e = None \<and> GetPeerbyID (gdb sv) (ID p) (cdb c') = Some (p\<lparr>UpdatedAt := stamp (gdb sv) (cdb c)\<rparr>)"
proof -
  have "ID p \<noteq> 0" using assms(2,3) by (auto simp: keys_ok_def)
  from LogoutPeer_Ret [OF assms(1) this assms(4)] show ?thesis
    using store.by_id [OF assms(1)] find_key [OF assms(2,3)] by (simp add: find_upd_row keeps_keys_def)
qed

theorem LogoutPeer_not_stored_witness:
  "\<exists>c'. LogoutPeer toy_services (home_peer 1\<lparr>LoggedIn := True\<rparr>)
       (NewController [home_peer 1\<lparr>LoggedIn := True\<rparr>] (home_prefix 24) toy_validator) = Ret (None, c') \<and>
     map_option LoggedIn (GetPeerbyID (gdb toy_services) 1 (cdb c')) = Some True"
proof -
  let ?p = "home_peer 1\<lparr>LoggedIn := True\<rparr>"
  let ?c = "NewController [?p] (home_prefix 24) toy_validator"
  have i: "ID ?p = 1" by (simp add: home_peer_def)
  have h: "gorm_ok (gdb toy_services)" "keys_ok (rows (gdb toy_services) (cdb ?c))"
    "?p \<in> set (rows (gdb toy_services) (cdb ?c))"
    by (simp_all add: toy_services_def table_gorm_ok keys_ok_def NewController_def) (simp_all add: table_gorm_def i)
  have "is_ret (LogoutPeer toy_services ?p ?c)"
    by (simp add: LogoutPeer_def PeerForcedLogoutEvent_def send_to_def NewController_def Let_def case_prod_beta)
  then obtain e c' where l: "LogoutPeer toy_services ?p ?c = Ret (e, c')" by (auto simp: is_ret_iff)
  from LogoutPeer_not_stored [OF h l] l i show ?thesis by auto
qed

text \<open>
  A successful login of a stored, enabled peer writes the key,
  host name and endpoint of the request (an empty one leaves the stored value), the
  login time and the logged-in flag into exactly that peer's record; all other fields
  and all other records keep their values. In particular the connected flag is not
  cleared, although the code assigns it.
\<close>

lemma ProcessPeerLogin_stores:
  assumes "gorm_ok (gdb sv)" and "keys_ok (rows (gdb sv) (cdb c))" and "p \<in> set (rows (gdb sv) (cdb c))"
    and "\<not> Disabled p" and "now \<noteq> zeroTime" and "ips_ok (rows (gdb sv) (cdb c))"
  shows "\<exists>q c'. ProcessPeerLogin sv now p req c = (Inr q, c') \<and>
     GetPeerbyID (gdb sv) j (cdb c') =
       (if j = ID p then Some (p\<lparr>NoisePublicKey := nonzero_or [] (lr_PublicKey req) (NoisePublicKey p),
          HostName := nonzero_or [] (lr_Hostname req) (HostName p),
          Endpoint := nonzero_or [] (lr_Endpoint req) (Endpoint p),
          LoggedIn := True, LastLogin := now, UpdatedAt := stamp (gdb sv) (cdb c)\<rparr>)
        else GetPeerbyID (gdb sv) j (cdb c))"
proof -
  let ?q = "p\<lparr>LastLogin := now, NoisePublicKey := lr_PublicKey req, HostName := lr_Hostname req,
    Endpoint := lr_Endpoint req, Connected := False, LoggedIn := True\<rparr>"
  have i: "ID ?q \<noteq> 0" using assms(2,3) by (auto simp: keys_ok_def)
  have u: "\<not> ip_clash (ID ?q) (IP ?q) (rows (gdb sv) (cdb c))" by (rule own_ip_no_clash [OF assms(6,3)]) simp_all
  have g: "GetPeerbyID (gdb sv) (ID p) (cdb c) = Some p"
    using store.by_id [OF assms(1)] find_key [OF assms(2,3)] by simp
  have "merge_nonzero t ?q p = p\<lparr>NoisePublicKey := nonzero_or [] (lr_PublicKey req) (NoisePublicKey p),
      HostName := nonzero_or [] (lr_Hostname req) (HostName p),
      Endpoint := nonzero_or [] (lr_Endpoint req) (Endpoint p), LoggedIn := True, LastLogin := now, UpdatedAt := t\<rparr>" for t
    using assms(5) by (simp add: merge_nonzero_def nonzero_or_def)
  then show ?thesis
    using store.by_id_after(3) [OF assms(1) i u, of j] UpdatePeer_rows(1) [OF assms(1) i u] g assms(4)
    by (simp add: ProcessPeerLogin_def IsDisabled_def Let_def case_prod_beta option.map_ident)
qed

lemma ProcessPeerLogin_stores_example:
  "\<exists>q c'. ProcessPeerLogin toy_services 7 (home_peer 1) \<lparr>lr_MachineId = [], lr_PublicKey = ''k'', lr_Hostname = [],
       lr_Endpoint = [], lr_AccessToken = []\<rparr> (NewController [home_peer 1] (home_prefix 24) toy_validator) = (Inr q, c') \<and>
     map_option NoisePublicKey (GetPeerbyID (gdb toy_services) 1 (cdb c')) = Some ''k''"
proof -
  let ?c = "NewController [home_peer 1] (home_prefix 24) toy_validator"
  have i: "ID (home_peer 1) = 1" "\<not> Disabled (home_peer 1)" by (simp_all add: home_peer_def zero_DBPeer_def)
  have h: "gorm_ok (gdb toy_services)" "keys_ok (rows (gdb toy_services) (cdb ?c))"
    "home_peer 1 \<in> set (rows (gdb toy_services) (cdb ?c))"
    by (simp_all add: toy_services_def table_gorm_ok keys_ok_def NewController_def) (simp_all add: table_gorm_def i)
  have u: "ips_ok (rows (gdb toy_services) (cdb ?c))" by (simp add: ips_ok_def toy_services_def table_gorm_def NewController_def)
  from ProcessPeerLogin_stores [OF h i(2) _ u, of 7 _ 1] i(1) show ?thesis
    by (fastforce simp: zeroTime_def nonzero_or_def Hour_def)
qed

lemma RegisterPeer_creates:
  assumes "gorm_ok (gdb sv)" and "id_free (rows (gdb sv) (cdb c))"
    and "AllocatePeerIP (ip6lib sv) (nxlib sv) (gdb sv) (prefix c) (cdb c) = Some (Inr ip)"
    and "ip \<notin> IP ` set (rows (gdb sv) (cdb c))"
  obtains p c' where "RegisterPeer sv now req user c = Ret (Inr p, c')"
    "rows (gdb sv) (cdb c') = rows (gdb sv) (cdb c) @ [p]" "ID p \<noteq> 0" "ID p \<notin> ID ` set (rows (gdb sv) (cdb c))"
    "IP p = ip" "MachineID p = lr_MachineId req" "User p = user" "LoggedIn p" "\<not> Connected p" "LastAuth p = now"
    "PrefixStr p = prefix_String (ip6lib sv) (prefix c)" "prefix c' = prefix c"
proof -
  define np where "np = zero_DBPeer\<lparr>MachineID := lr_MachineId req, NoisePublicKey := lr_PublicKey req,
    HostName := lr_Hostname req, PrefixStr := prefix_String (ip6lib sv) (prefix c), IP := ip,
    Endpoint := lr_Endpoint req, Connected := False, LoggedIn := True, LastAuth := now, LastLogin := now, User := user\<rparr>"
  have z: "ID np = 0" "IP np \<notin> IP ` set (rows (gdb sv) (cdb c))" using assms(4) by (simp_all add: np_def zero_DBPeer_def)
  obtain i where i: "i \<noteq> 0" "i \<notin> ID ` set (rows (gdb sv) (cdb c))"
    "fst (CreatePeer (gdb sv) np (cdb c)) = Some (created i (stamp (gdb sv) (cdb c)) np)"
    "rows (gdb sv) (snd (CreatePeer (gdb sv) np (cdb c))) = rows (gdb sv) (cdb c) @ [created i (stamp (gdb sv) (cdb c)) np]"
    using CreatePeer_row [OF assms(1) z(1) assms(2) z(2)] by blast
  have reg: "RegisterPeer sv now req user c =
      Ret (Inr (created i (stamp (gdb sv) (cdb c)) np), c\<lparr>cdb := snd (CreatePeer (gdb sv) np (cdb c))\<rparr>)"
    using assms(3) i(3) by (simp add: RegisterPeer_def Let_def case_prod_beta np_def)
  show thesis
    by (rule that [OF reg]) (use i in \<open>simp_all add: created_def np_def\<close>)
qed

lemma RegisterPeer_free:
  assumes "netipx_ok (nxlib sv)" and "gorm_ok (gdb sv)" and "valid_Prefix (prefix c)" and "pAddr (prefix c) = Addr4 v"
    and "ip4_rows (ip6lib sv) (rows (gdb sv) (cdb c))" and "id_free (rows (gdb sv) (cdb c))"
    and "v \<le> u" and "Contains (prefix c) (Addr4 u)"
    and "Addr4 u \<notin> set (taken_ips (ip6lib sv) (prefix c) (rows (gdb sv) (cdb c)))"
  shows "\<exists>p c' w. RegisterPeer sv now req user c = Ret (Inr p, c') \<and>
     rows (gdb sv) (cdb c') = rows (gdb sv) (cdb c) @ [p] \<and>
     ID p \<noteq> 0 \<and> ID p \<notin> ID ` set (rows (gdb sv) (cdb c)) \<and>
     IP p = string4 w \<and> Contains (prefix c) (Addr4 w) \<and> IP p \<notin> IP ` set (rows (gdb sv) (cdb c)) \<and>
     MachineID p = lr_MachineId req \<and> User p = user \<and> LoggedIn p \<and> \<not> Connected p \<and> LastAuth p = now \<and>
     PrefixStr p = prefix_String (ip6lib sv) (prefix c)"
proof (rule AllocatePeerIP_found [OF assms(1-5)])
  let ?rs = "rows (gdb sv) (cdb c)"
  fix r
  assume r: "AllocatePeerIP (ip6lib sv) (nxlib sv) (gdb sv) (prefix c) (cdb c) = Some (Inr (addr_String (ip6lib sv) r))"
    "first_free (\<lambda>a. a \<in> set (taken_ips (ip6lib sv) (prefix c) ?rs)) v r"
  have "r \<noteq> NoAddr" "\<not> Addr4 u < r" using r(2) assms(7,9) by (auto simp: first_free_def)
  with r(2) obtain w where w: "r = Addr4 w" "v \<le> w" "w \<le> u" "Addr4 w \<notin> set (taken_ips (ip6lib sv) (prefix c) ?rs)"
    by (auto simp: first_free_def not_less)
  have inp: "Contains (prefix c) (Addr4 w)" by (rule Contains4_between [OF assms(3,4,8) w(2,3)])
  have fresh: "string4 w \<notin> IP ` set ?rs"
    using w(4) by (intro string4_not_stored [of w "ip6lib sv"]) (simp add: taken_ips_def)
  have ip: "addr_String (ip6lib sv) r = string4 w" by (simp add: w(1) addr_String_def)
  show ?thesis
    by (rule RegisterPeer_creates [OF assms(2,6) r(1) [unfolded ip] fresh, of now req user]) (metis inp fresh)
qed

text \<open>A controller with one peer and the prefix 100.70.0.0/24.\<close>

definition small_controller :: "DBPeer list Controller" where
  "small_controller = NewController [home_peer 1] (home_prefix 24) toy_validator"

lemma small_controller_facts:
  "netipx_ok (nxlib toy_services)" "gorm_ok (gdb toy_services)"
  "valid_Prefix (prefix small_controller)" "pAddr (prefix small_controller) = Addr4 0x64460000"
  "ip4_rows (ip6lib toy_services) (rows (gdb toy_services) (cdb small_controller))"
  "id_free (rows (gdb toy_services) (cdb small_controller))"
  "(0x64460000 :: u32) \<le> 0x64460003" "Contains (prefix small_controller) (Addr4 0x64460003)"
  "Addr4 0x64460003 \<notin> set (taken_ips (ip6lib toy_services) (prefix small_controller) (rows (gdb toy_services) (cdb small_controller)))"
  "rows (gdb toy_services) (cdb small_controller) = [home_peer 1]"
proof -
  have m: "mask (32 - 24) = (0xff :: u32)" "push_bit 8 (drop_bit 8 0x64460000) = (0x64460000 :: u32)"
    "drop_bit 8 0x64460000 = drop_bit 8 (0x64460003 :: u32)" by code_simp+
  show r: "rows (gdb toy_services) (cdb small_controller) = [home_peer 1]"
    by (simp add: toy_services_def table_gorm_def NewController_def small_controller_def)
  have i: "ip6lib toy_services = no_ip6" by (simp add: toy_services_def)
  show p: "valid_Prefix (prefix small_controller)" "pAddr (prefix small_controller) = Addr4 0x64460000"
    by (simp_all add: small_controller_def NewController_def valid_Prefix_def home_prefix_def IsValid_def)
  show "Contains (prefix small_controller) (Addr4 0x64460003)"
    using Contains4 [OF _ p(2), of "0x64460003"] m(3) by (simp add: small_controller_def NewController_def home_prefix_def)
  show "Addr4 0x64460003 \<notin> set (taken_ips (ip6lib toy_services) (prefix small_controller) (rows (gdb toy_services) (cdb small_controller)))"
    unfolding r i using m by (simp add: taken_ips_def small_controller_def NewController_def home_prefix_def)
  show "netipx_ok (nxlib toy_services)" "gorm_ok (gdb toy_services)"
    by (simp_all add: toy_services_def list_netipx_ok table_gorm_ok)
  show "id_free (rows (gdb toy_services) (cdb small_controller))"
    unfolding r id_free_def by (intro exI [of _ 2]) (simp add: home_peer_def)
  show "ip4_rows (ip6lib toy_services) (rows (gdb toy_services) (cdb small_controller))"
    unfolding r i by (simp add: ip4_rows_def)
qed simp

text \<open>
  C25 (functional). Registering a peer while the prefix has a free address always
  succeeds. The new record gets a fresh key, the user and the data of the request, is
  logged in and authenticated at that time, and its address is in the controller's
  prefix and different from the address of every stored peer; nothing else changes,
  so addresses that were pairwise different stay so.
\<close>

theorem RegisterPeer_fresh_address:
  assumes "netipx_ok (nxlib sv)" and "gorm_ok (gdb sv)" and "valid_Prefix (prefix c)" and "pAddr (prefix c) = Addr4 v"
    and "ip4_rows (ip6lib sv) (rows (gdb sv) (cdb c))" and "id_free (rows (gdb sv) (cdb c))"
    and "v \<le> u" and "Contains (prefix c) (Addr4 u)"
    and "Addr4 u \<notin> set (taken_ips (ip6lib sv) (prefix c) (rows (gdb sv) (cdb c)))"
  shows "\<exists>p c' w. RegisterPeer sv now req user c = Ret (Inr p, c') \<and>
     rows (gdb sv) (cdb c') = rows (gdb sv) (cdb c) @ [p] \<and>
     ID p \<noteq> 0 \<and> ID p \<notin> ID ` set (rows (gdb sv) (cdb c)) \<and>
     IP p = string4 w \<and> Contains (prefix c) (Addr4 w) \<and> IP p \<notin> IP ` set (rows (gdb sv) (cdb c)) \<and>
     MachineID p = lr_MachineId req \<and> User p = user \<and> LoggedIn p \<and> \<not> Connected p \<and> LastAuth p = now"
  using RegisterPeer_free [OF assms, of now req user] by blast

theorem RegisterPeer_fresh_address_witness:
  "\<exists>p c' w. RegisterPeer toy_services 7 \<lparr>lr_MachineId = ''m'', lr_PublicKey = ''k'', lr_Hostname = [],
       lr_Endpoint = [], lr_AccessToken = []\<rparr> ''u'' small_controller = Ret (Inr p, c') \<and>
     IP p = string4 w \<and> IP p \<noteq> IP (home_peer 1)"
  using RegisterPeer_fresh_address [OF small_controller_facts(1-9), unfolded small_controller_facts(10)] by fastforce

end
