(* ===== verification/Grpc.thy ===== *)
theory Grpc
  imports ControllerOps
begin

text \<open>
  The controller's gRPC service (src/controller/grpc_v1.go): one definition per
  method, with its checks in the order of the code. \<open>UpdateStream\<close> is split where
  other requests can run: opening (the checks, registration, announcement), the initial
  peer list, one iteration of its loop, and the deferred clean-up; theory Streams
  interleaves these parts. Methods that send on an
  update channel may block.
\<close>

section \<open>Requests\<close>

record pb_UpdateEndpointRequest =
  ue_MachineId :: string
  ue_Endpoint :: string

record pb_PunchRequest =
  pr_MachineId :: string
  pr_DstPeerId :: u32
  pr_Endpoint :: string

section \<open>Methods\<close>

definition grpc_GetPKCEAuthInfo :: "'db Controller \<Rightarrow> pb_PKCEAuthInfo" where
  "grpc_GetPKCEAuthInfo c = GetPKCEAuthInfo (validator c)"

definition validateAccessToken ::
  "('db, 'set) services \<Rightarrow> string \<Rightarrow> 'db Controller \<Rightarrow> (status + string) \<times> 'db Controller" where
  "validateAccessToken sv token c =
     (case ValidateAccessToken (provider sv) token (validator c) of
        (Inl _, t) \<Rightarrow> (Inl (Unauthenticated, ''access token''), c\<lparr>validator := t\<rparr>)
      | (Inr user, t) \<Rightarrow> (Inr user, c\<lparr>validator := t\<rparr>))"

definition grpc_UpdateEndpoint ::
  "('db, 'set) services \<Rightarrow> instant \<Rightarrow> pb_UpdateEndpointRequest \<Rightarrow> 'db Controller \<Rightarrow>
     status option \<times> 'db Controller" where
  "grpc_UpdateEndpoint sv now req c =
     (if \<not> validateMachineID (ue_MachineId req) then (Some (InvalidArgument, ''invalid machine ID''), c)
      else case GetPeerByMachineID (gdb sv) (ue_MachineId req) (cdb c) of
             None \<Rightarrow> (Some (NotFound, ''peer not found''), c)
           | Some peer \<Rightarrow>
               if IsDisabled peer then (Some (Internal, ''peer is currently disabled''), c)
               else if \<not> IsLoggedIn peer then (Some (Internal, ''peer requires login first''), c)
               else if IsAuthExpired now peer then (Some (PermissionDenied, ''peer auth expired, login again''), c)
               else if ue_Endpoint req = [] then (Some (InvalidArgument, ''empty endpoint''), c)
               else let (ok, db) = UpdatePeerEndpoint (gdb sv) (ID peer) (ue_Endpoint req) (cdb c);
                        c = c\<lparr>cdb := db\<rparr>
                    in if \<not> ok then (Some (Internal, ''failed to update endpoint''), c) else (None, c))"

definition grpc_Punch ::
  "('db, 'set) services \<Rightarrow> instant \<Rightarrow> pb_PunchRequest \<Rightarrow> 'db Controller \<Rightarrow>
     (status option \<times> 'db Controller) outcome" where
  "grpc_Punch sv now req c =
     (if \<not> validateMachineID (pr_MachineId req) then Ret (Some (InvalidArgument, ''invalid machine ID''), c)
      else case GetPeerByMachineID (gdb sv) (pr_MachineId req) (cdb c) of
             None \<Rightarrow> Ret (Some (NotFound, ''peer not found''), c)
           | Some peer \<Rightarrow>
               if IsDisabled peer then Ret (Some (Internal, ''peer is currently disabled''), c)
               else if \<not> IsLoggedIn peer then Ret (Some (Internal, ''peer requires login first''), c)
               else if IsAuthExpired now peer then Ret (Some (PermissionDenied, ''peer auth expired, login again''), c)
               else if pr_Endpoint req = [] then Ret (Some (InvalidArgument, ''empty endpoint''), c)
               else obind (PeerPunchRequest sv (pr_DstPeerId req) (pr_Endpoint req) c) (\<lambda>c. Ret (None, c)))"

definition login_existing ::
  "('db, 'set) services \<Rightarrow> instant \<Rightarrow> pb_LoginPeerRequest \<Rightarrow> DBPeer \<Rightarrow> 'db Controller \<Rightarrow>
     (status + pb_PeerConfig) \<times> 'db Controller" where
  "login_existing sv now req peer c =
     (case ProcessPeerLogin sv now peer req c of
        (Inl _, c) \<Rightarrow> (Inl (Internal, ''login failed''), c)
      | (Inr p, c) \<Rightarrow> (Inr (ProtoConfig p), c))"

definition grpc_LoginPeer ::
  "('db, 'set) services \<Rightarrow> instant \<Rightarrow> pb_LoginPeerRequest \<Rightarrow> 'db Controller \<Rightarrow>
     ((status + pb_PeerConfig) \<times> 'db Controller) outcome" where
  "grpc_LoginPeer sv now req c =
     (if \<not> validateMachineID (lr_MachineId req) then Ret (Inl (InvalidArgument, ''invalid machine ID''), c)
      else case GetPeerByMachineID (gdb sv) (lr_MachineId req) (cdb c) of
             Some peer \<Rightarrow>
               if Disabled peer then Ret (Inl (PermissionDenied, ''peer is disabled''), c)
               else if IsAuthExpired now peer then
                 (case validateAccessToken sv (lr_AccessToken req) c of
                    (Inl e, c) \<Rightarrow>
                      if IsLoggedIn peer then obind (LogoutPeer sv peer c) (\<lambda>(_, c). Ret (Inl e, c))
                      else Ret (Inl e, c)
                  | (Inr user, c) \<Rightarrow>
                      if User peer \<noteq> user
                      then Ret (Inl (PermissionDenied, ''cannot login a peer that belongs to another user''), c)
                      else Ret (login_existing sv now req (UpdateAuth now peer) c))
               else Ret (login_existing sv now req peer c)
           | None \<Rightarrow>
               (case validateAccessToken sv (lr_AccessToken req) c of
                  (Inl e, c) \<Rightarrow> Ret (Inl e, c)
                | (Inr userId, c) \<Rightarrow>
                    obind (RegisterPeer sv now req userId c) (\<lambda>(r, c).
                    Ret (case r of
                           Inl _ \<Rightarrow> (Inl (Internal, ''error registering peer''), c)
                         | Inr p \<Rightarrow> (Inr (ProtoConfig p), c)))))"

section \<open>Update streams\<close>

definition UpdateStream_admit ::
  "('db, 'set) services \<Rightarrow> instant \<Rightarrow> string \<Rightarrow> 'db Controller \<Rightarrow> (status + DBPeer) \<times> 'db Controller" where
  "UpdateStream_admit sv now machineId c =
     (case GetPeerByMachineID (gdb sv) machineId (cdb c) of
        None \<Rightarrow> (Inl (NotFound, ''peer with machine id is not registered''), c)
      | Some peer \<Rightarrow>
          if IsAuthExpired now peer then (Inl (Unauthenticated, ''peer auth is expired, needs new login''), c)
          else if IsDisabled peer then (Inl (Internal, ''peer is currently disabled''), c)
          else if \<not> IsLoggedIn peer then (Inl (Internal, ''peer requires login first''), c)
          else let (ok, db) = SetPeerConnected (gdb sv) peer True (cdb c); c = c\<lparr>cdb := db\<rparr>
               in if \<not> ok then (Inl (Internal, ''error setting peer connected status''), c) else (Inr peer, c))"

definition UpdateStream_open ::
  "('db, 'set) services \<Rightarrow> instant \<Rightarrow> string \<Rightarrow> 'db Controller \<Rightarrow>
     ((status + u32 \<times> nat) \<times> 'db Controller) outcome" where
  "UpdateStream_open sv now machineId c =
     (case UpdateStream_admit sv now machineId c of
        (Inl e, c) \<Rightarrow> Ret (Inl e, c)
      | (Inr peer, c) \<Rightarrow>
          let (pc, c) = GetPeerUpdateChannel (ID peer) c
          in obind (PeerConnectedEvent sv (ID peer) c) (\<lambda>c. Ret (Inr (ID peer, pc), c)))"

text \<open>The deferred clean-up; the database error of \<open>SetPeerConnected\<close> is dropped.\<close>

definition UpdateStream_close ::
  "('db, 'set) services \<Rightarrow> DBPeer \<Rightarrow> 'db Controller \<Rightarrow> 'db Controller outcome" where
  "UpdateStream_close sv peer c =
     obind (DeletePeerUpdateChannel (ID peer) c) (\<lambda>c.
     PeerDisconnectedEvent sv (ID peer) (c\<lparr>cdb := snd (SetPeerConnected (gdb sv) peer False (cdb c))\<rparr>))"

text \<open>The message sent first, or the error that ends the stream.\<close>

definition UpdateStream_init ::
  "('db, 'set) services \<Rightarrow> u32 \<Rightarrow> 'db Controller \<Rightarrow> status + pb_UpdateResponse" where
  "UpdateStream_init sv i c =
     (case GetConnectedPeers sv i c of
        None \<Rightarrow> Inl (Internal, ''error'')
      | Some l \<Rightarrow> Inr \<lparr>ur_UpdateType = INIT, ur_PeerList = Some l, ur_PunchEndpoint = []\<rparr>)"

datatype stream_end = ClientGone | StreamError status

datatype loop_step = Continue pb_UpdateResponse | Ended stream_end | Wait

text \<open>
  One iteration of the loop: the client is gone, the channel is closed, or an
  update was handed over, which is sent to the client (an error of that send is
  logged and dropped). When several hold, \<open>select\<close> takes one of them; \<open>prefer_ctx\<close>
  is that choice. When none holds, the stream waits and can be sent to.
\<close>

definition UpdateStream_poll :: "bool \<Rightarrow> bool \<Rightarrow> nat \<Rightarrow> 'db Controller \<Rightarrow> loop_step \<times> 'db Controller" where
  "UpdateStream_poll ctx_done prefer_ctx pc c =
     (let ch = chans c ! pc;
          set_ready = (\<lambda>r. c\<lparr>chans := (chans c)[pc := ch\<lparr>ready := r\<rparr>]\<rparr>)
      in if ctx_done \<and> (prefer_ctx \<or> (got ch = [] \<and> \<not> cclosed ch)) then (Ended ClientGone, set_ready False)
         else case got ch of
                u # us \<Rightarrow> (Continue u, c\<lparr>chans := (chans c)[pc := ch\<lparr>got := us\<rparr>]\<rparr>)
              | [] \<Rightarrow> if cclosed ch then (Ended (StreamError (Aborted, ''server closed update stream'')), set_ready False)
                       else (Wait, set_ready True))"

section \<open>Gateway methods\<close>

definition grpc_GetPeers ::
  "('db, 'set) services \<Rightarrow> metadata \<Rightarrow> 'db Controller \<Rightarrow> (status + pb_PeerDetails list) \<times> 'db Controller" where
  "grpc_GetPeers sv md c =
     (case extractTokenMetadata md of
        Inl e \<Rightarrow> (Inl e, c)
      | Inr token \<Rightarrow>
          (case validateAccessToken sv token c of
             (Inl e, c) \<Rightarrow> (Inl e, c)
           | (Inr _, c) \<Rightarrow>
               (case store_GetPeers (gdb sv) (cdb c) of
                  None \<Rightarrow> (Inl (Internal, ''error getting peers from database''), c)
                | Some peers \<Rightarrow> (Inr (map (ProtoDetails (timefmt sv)) peers), c))))"

definition delete_status :: "ctl_error option \<Rightarrow> status option" where
  "delete_status e =
     (case e of
        None \<Rightarrow> None
      | Some PeerDoesntExist \<Rightarrow> Some (NotFound, ''peer not found'')
      | Some _ \<Rightarrow> Some (Internal, ''error deleting peer''))"

definition grpc_DeletePeer ::
  "('db, 'set) services \<Rightarrow> metadata \<Rightarrow> u32 \<Rightarrow> 'db Controller \<Rightarrow> (status option \<times> 'db Controller) outcome" where
  "grpc_DeletePeer sv md peerId c =
     (case extractTokenMetadata md of
        Inl e \<Rightarrow> Ret (Some e, c)
      | Inr token \<Rightarrow>
          (case validateAccessToken sv token c of
             (Inl e, c) \<Rightarrow> Ret (Some e, c)
           | (Inr _, c) \<Rightarrow>
               obind (ctl_DeletePeer sv peerId c) (\<lambda>(e, c).
               Ret (delete_status e, c))))"

section \<open>Guarded methods\<close>

text \<open>The peer a request acts for: stored, enabled, logged in and recently authenticated.\<close>

definition authorised ::
  "('db, 'set) services \<Rightarrow> instant \<Rightarrow> string \<Rightarrow> 'db Controller \<Rightarrow> DBPeer option" where
  "authorised sv now m c =
     (if \<not> validateMachineID m then None
      else case GetPeerByMachineID (gdb sv) m (cdb c) of
             None \<Rightarrow> None
           | Some p \<Rightarrow> if \<not> Disabled p \<and> LoggedIn p \<and> \<not> IsAuthExpired now p then Some p else None)"

text \<open>
  The contract of the methods that act for a peer: without an authorised peer, or
  with an empty endpoint, the request is refused and the controller's state kept.
\<close>

locale guarded_rpc =
  fixes rpc :: "'s \<Rightarrow> instant \<Rightarrow> string \<Rightarrow> string \<Rightarrow> 'c \<Rightarrow> (status option \<times> 'c) outcome"
    and auth :: "'s \<Rightarrow> instant \<Rightarrow> string \<Rightarrow> 'c \<Rightarrow> DBPeer option"
  assumes refused: "auth sv now m c = None \<Longrightarrow> \<exists>e. rpc sv now m ep c = Ret (Some e, c)"
    and no_endpoint: "auth sv now m c = Some p \<Longrightarrow> rpc sv now m [] c = Ret (Some (InvalidArgument, ''empty endpoint''), c)"
begin

lemma success_authorised:
  "rpc sv now m ep c = Ret (None, c') \<Longrightarrow> \<exists>p. auth sv now m c = Some p \<and> ep \<noteq> []"
  using refused [of sv now m c ep] no_endpoint [of sv now m c] by (cases "auth sv now m c"; cases ep) auto

lemma change_authorised:
  "rpc sv now m ep c = Ret (e, c') \<Longrightarrow> c' \<noteq> c \<Longrightarrow> \<exists>p. auth sv now m c = Some p \<and> ep \<noteq> []"
  using refused [of sv now m c ep] no_endpoint [of sv now m c] by (cases "auth sv now m c"; cases ep) auto

lemma blocks_authorised:
  "rpc sv now m ep c = Block \<Longrightarrow> \<exists>p. auth sv now m c = Some p \<and> ep \<noteq> []"
  using refused [of sv now m c ep] no_endpoint [of sv now m c] by (cases "auth sv now m c"; cases ep) auto

end

definition rpc_UpdateEndpoint ::
  "('db, 'set) services \<Rightarrow> instant \<Rightarrow> string \<Rightarrow> string \<Rightarrow> 'db Controller \<Rightarrow> (status option \<times> 'db Controller) outcome" where
  "rpc_UpdateEndpoint sv now m ep c = Ret (grpc_UpdateEndpoint sv now \<lparr>ue_MachineId = m, ue_Endpoint = ep\<rparr> c)"

definition rpc_Punch ::
  "u32 \<Rightarrow> ('db, 'set) services \<Rightarrow> instant \<Rightarrow> string \<Rightarrow> string \<Rightarrow> 'db Controller \<Rightarrow> (status option \<times> 'db Controller) outcome" where
  "rpc_Punch dst sv now m ep c =
     grpc_Punch sv now \<lparr>pr_MachineId = m, pr_DstPeerId = dst, pr_Endpoint = ep\<rparr> c"

interpretation endpoint_rpc: guarded_rpc rpc_UpdateEndpoint authorised
  by unfold_locales
    (auto simp: rpc_UpdateEndpoint_def grpc_UpdateEndpoint_def authorised_def IsDisabled_def IsLoggedIn_def
      split: option.splits if_splits)

interpretation punch_rpc: guarded_rpc "rpc_Punch dst" authorised for dst
  by unfold_locales
    (auto simp: rpc_Punch_def grpc_Punch_def authorised_def IsDisabled_def IsLoggedIn_def
      split: option.splits if_splits)

section \<open>Properties\<close>

text \<open>
  C30 (safety). \<open>UpdateEndpoint\<close> and \<open>Punch\<close> succeed, change the controller or
  wait on an update channel only for a machine id of at least 64 word characters that
  belongs to a stored peer which is enabled, logged in and authenticated within the
  last thirty days, and only with an endpoint.
\<close>

theorem rpcs_act_for_authorised_peers:
  assumes "rpc_UpdateEndpoint sv now m ep c = Ret (e, c') \<and> (e = None \<or> c' \<noteq> c) \<or>
    rpc_Punch dst sv now m ep c = Ret (e, c') \<and> (e = None \<or> c' \<noteq> c) \<or>
    rpc_Punch dst sv now m ep c = Block"
  shows "ep \<noteq> [] \<and> 64 \<le> length m \<and> list_all word_char m \<and>
    (\<exists>p. GetPeerByMachineID (gdb sv) m (cdb c) = Some p \<and> \<not> Disabled p \<and> LoggedIn p \<and>
       now < LastAuth p + 2592000 * 10 ^ 9)"
proof -
  have "\<exists>p. authorised sv now m c = Some p \<and> ep \<noteq> []"
    using assms endpoint_rpc.success_authorised endpoint_rpc.change_authorised punch_rpc.success_authorised
      punch_rpc.change_authorised punch_rpc.blocks_authorised by metis
  then obtain p where p: "authorised sv now m c = Some p" "ep \<noteq> []" by blast
  then show ?thesis
    by (auto simp: authorised_def validateMachineID_def MachineIDLen_def IsAuthExpired_iff Hour_def
        split: if_splits option.splits)
qed

definition home_machine :: string where "home_machine = replicate 64 (CHR ''a'')"

definition member :: DBPeer where
  "member = home_peer 1\<lparr>MachineID := home_machine, LoggedIn := True, LastAuth := 0\<rparr>"

definition home_controller :: "DBPeer list Controller" where
  "home_controller = NewController [member] (home_prefix 24) toy_validator"

lemma member_lookup:
  "GetPeerByMachineID (gdb toy_services) home_machine (cdb home_controller) = Some member"
  "ID member = 1" "validateMachineID home_machine"
  by (simp_all add: GetPeerByMachineID_def toy_services_def table_gorm_def home_controller_def NewController_def
      member_def home_peer_def)
    (simp add: validateMachineID_def home_machine_def MachineIDLen_def word_char_def list_all_iff)

lemma home_controller_ok:
  "gorm_ok (gdb toy_services)" "rows (gdb toy_services) (cdb home_controller) = [member]"
  "keys_ok (rows (gdb toy_services) (cdb home_controller))"
  by (simp_all add: toy_services_def table_gorm_ok)
    (simp_all add: table_gorm_def home_controller_def NewController_def keys_ok_def member_lookup)

theorem rpcs_act_for_authorised_peers_witness:
  "\<exists>c'. rpc_UpdateEndpoint toy_services 5 home_machine ''1.2.3.4:5'' home_controller = Ret (None, c') \<and>
     64 \<le> length home_machine"
proof -
  have "fst (UpdatePeerEndpoint (gdb toy_services) 1 ''1.2.3.4:5'' (cdb home_controller))"
    by (simp add: UpdatePeerEndpoint_def toy_services_def table_gorm_def)
  moreover have "\<not> IsAuthExpired 5 member" "IsLoggedIn member" "\<not> IsDisabled member"
    by (simp_all add: IsAuthExpired_iff IsLoggedIn_def IsDisabled_def member_def home_peer_def zero_DBPeer_def Hour_def)
  ultimately have "fst (grpc_UpdateEndpoint toy_services 5 \<lparr>ue_MachineId = home_machine, ue_Endpoint = ''1.2.3.4:5''\<rparr> home_controller) = None"
    by (simp add: grpc_UpdateEndpoint_def member_lookup Let_def case_prod_beta)
  then obtain c' where u: "rpc_UpdateEndpoint toy_services 5 home_machine ''1.2.3.4:5'' home_controller = Ret (None, c')"
    by (cases "grpc_UpdateEndpoint toy_services 5 \<lparr>ue_MachineId = home_machine, ue_Endpoint = ''1.2.3.4:5''\<rparr> home_controller")
      (auto simp: rpc_UpdateEndpoint_def)
  with rpcs_act_for_authorised_peers [of toy_services 5 home_machine "''1.2.3.4:5''" home_controller None c' 0] show ?thesis
    by blast
qed

text \<open>
  C31 (safety). A login succeeds only for a well-formed machine id, and either for
  a stored, enabled peer whose authentication has not expired - then no access token is
  looked at -, or for such a peer of the user whom a valid access token names, or,
  when no peer is stored for the machine id, with a valid access token.
\<close>

theorem LoginPeer_requires:
  assumes "grpc_LoginPeer sv now req c = Ret (Inr cfg, c')"
  shows "validateMachineID (lr_MachineId req) \<and>
    (case GetPeerByMachineID (gdb sv) (lr_MachineId req) (cdb c) of
       None \<Rightarrow> (\<exists>user. fst (ValidateAccessToken (provider sv) (lr_AccessToken req) (validator c)) = Inr user)
     | Some p \<Rightarrow> \<not> Disabled p \<and> pc_PeerId cfg = ID p \<and> pc_TunnelIp cfg = IP p \<and>
         (if IsAuthExpired now p
          then fst (ValidateAccessToken (provider sv) (lr_AccessToken req) (validator c)) = Inr (User p)
          else True))"
  using assms
  by (auto simp: grpc_LoginPeer_def validateAccessToken_def login_existing_def ProcessPeerLogin_def ProtoConfig_def
      obind_eq_Ret UpdateAuth_def Let_def case_prod_beta split: if_splits option.splits sum.splits prod.splits)

theorem LoginPeer_requires_witness:
  "\<exists>cfg c'. grpc_LoginPeer toy_services 5 \<lparr>lr_MachineId = home_machine, lr_PublicKey = ''k'', lr_Hostname = [],
     lr_Endpoint = [], lr_AccessToken = []\<rparr> home_controller = Ret (Inr cfg, c') \<and> pc_PeerId cfg = 1"
proof -
  let ?req = "\<lparr>lr_MachineId = home_machine, lr_PublicKey = ''k'', lr_Hostname = [], lr_Endpoint = [], lr_AccessToken = []\<rparr>"
  have "\<not> IsAuthExpired 5 member" "\<not> Disabled member"
    by (simp_all add: IsAuthExpired_iff member_def home_peer_def zero_DBPeer_def Hour_def)
  then have "\<exists>cfg c'. grpc_LoginPeer toy_services 5 ?req home_controller = Ret (Inr cfg, c')"
    using UpdatePeer_rows(1) [OF home_controller_ok(1), of "member\<lparr>LastLogin := 5, NoisePublicKey := ''k'', HostName := [],
        Endpoint := [], Connected := False, LoggedIn := True\<rparr>" "cdb home_controller"]
    by (simp add: home_controller_ok(2) ip_clash_def grpc_LoginPeer_def member_lookup login_existing_def ProcessPeerLogin_def IsDisabled_def Let_def case_prod_beta)
  then obtain cfg c' where l: "grpc_LoginPeer toy_services 5 ?req home_controller = Ret (Inr cfg, c')" by blast
  from LoginPeer_requires [OF l] l show ?thesis by (auto simp: member_lookup)
qed

lemma validateAccessToken_frame:
  "cdb (snd (validateAccessToken sv t c)) = cdb c" "peerChannels (snd (validateAccessToken sv t c)) = peerChannels c"
  "chans (snd (validateAccessToken sv t c)) = chans c"
  by (simp_all add: validateAccessToken_def split: prod.splits sum.splits)

lemma ctl_DeletePeer_rows:
  assumes "gorm_ok (gdb sv)" and "keys_ok (rows (gdb sv) (cdb c))" and "ctl_DeletePeer sv i c = Ret (e, c')"
  shows "(e = None \<and> GetPeerbyID (gdb sv) i (cdb c) \<noteq> None \<and>
      map ID (rows (gdb sv) (cdb c')) = filter (\<lambda>k. k \<noteq> i) (map ID (rows (gdb sv) (cdb c)))) \<or>
    (e = Some PeerDoesntExist \<and> GetPeerbyID (gdb sv) i (cdb c) = None \<and> c' = c)"
proof (cases "GetPeerbyID (gdb sv) i (cdb c)")
  case None
  with assms(3) show ?thesis by (simp add: ctl_DeletePeer_def)
next
  case (Some p)
  then have p: "p \<in> set (rows (gdb sv) (cdb c))" "ID p = i" using store.by_id_row [OF assms(1)] by blast+
  then have nz: "ID p \<noteq> 0" using assms(2) by (auto simp: keys_ok_def)
  from assms(3) Some obtain e1 c1 where l: "(if Connected p then LogoutPeer sv p c else Ret (None, c)) = Ret (e1, c1)"
    and r: "(case e1 of Some e \<Rightarrow> Ret (Some e, c1) | None \<Rightarrow>
      let (ok, db) = store_DeletePeer (gdb sv) p (cdb c1); c = c1\<lparr>cdb := db\<rparr>
      in Ret (if \<not> ok then (Some DeleteFailed, c) else (None, c))) = Ret (e, c')"
    by (auto simp: ctl_DeletePeer_def obind_eq_Ret)
  have "e1 = None \<and> map ID (rows (gdb sv) (cdb c1)) = map ID (rows (gdb sv) (cdb c))"
    using l LogoutPeer_Ret [OF assms(1) nz, of c e1 c1] by (auto simp: keeps_keys_def split: if_splits)
  then have c1: "e1 = None" "map ID (rows (gdb sv) (cdb c1)) = map ID (rows (gdb sv) (cdb c))" by auto
  have e: "e = None" "c' = c1\<lparr>cdb := snd (store_DeletePeer (gdb sv) p (cdb c1))\<rparr>"
    using r c1(1) store.delete [OF assms(1) nz, of "cdb c1"] by (auto simp: Let_def case_prod_beta)
  have "map ID (rows (gdb sv) (cdb c')) = map ID (filter (\<lambda>r. ID r \<noteq> i) (rows (gdb sv) (cdb c1)))"
    using store.delete [OF assms(1) nz, of "cdb c1"] p(2) by (simp add: e(2))
  also have "\<dots> = filter (\<lambda>k. k \<noteq> i) (map ID (rows (gdb sv) (cdb c1)))" by (simp add: filter_map comp_def)
  finally show ?thesis using e(1) Some unfolding c1(2) by simp
qed

text \<open>
  C32 (functional). \<open>DeletePeer\<close> needs a valid access token, of any user: when it
  succeeds, exactly the record with the requested key is gone from the table, and it
  reports \<open>NotFound\<close> exactly for keys that are not stored; without a valid token the
  table is not touched.
\<close>

theorem DeletePeer_removes_exactly:
  assumes "gorm_ok (gdb sv)" and "keys_ok (rows (gdb sv) (cdb c))"
    and "grpc_DeletePeer sv md i c = Ret (e, c')"
  shows "if (\<exists>t user. extractTokenMetadata md = Inr t \<and> fst (ValidateAccessToken (provider sv) t (validator c)) = Inr user)
    then (if GetPeerbyID (gdb sv) i (cdb c) = None
          then e = Some (NotFound, ''peer not found'') \<and> cdb c' = cdb c
          else e = None \<and> map ID (rows (gdb sv) (cdb c')) = filter (\<lambda>k. k \<noteq> i) (map ID (rows (gdb sv) (cdb c))))
    else e \<noteq> None \<and> cdb c' = cdb c"
proof (cases "extractTokenMetadata md")
  case (Inl e1)
  with assms(3) show ?thesis by (auto simp: grpc_DeletePeer_def)
next
  case (Inr t)
  define v where "v = validateAccessToken sv t c"
  have fr: "cdb (snd v) = cdb c" unfolding v_def by (rule validateAccessToken_frame)
  have acc: "(\<exists>user. fst v = Inr user) \<longleftrightarrow> (\<exists>user. fst (ValidateAccessToken (provider sv) t (validator c)) = Inr user)"
    by (auto simp: v_def validateAccessToken_def split: prod.splits sum.splits)
  show ?thesis
  proof (cases "fst v")
    case (Inl e1)
    then have "e \<noteq> None \<and> c' = snd v" using assms(3) Inr by (auto simp: grpc_DeletePeer_def v_def case_prod_beta)
    then show ?thesis using acc Inl fr Inr by auto
  next
    case user: (Inr user)
    then obtain e2 where d: "ctl_DeletePeer sv i (snd v) = Ret (e2, c')"
      and e: "e = delete_status e2"
      using assms(3) Inr user by (auto simp: grpc_DeletePeer_def v_def case_prod_beta obind_eq_Ret)
    from ctl_DeletePeer_rows [OF assms(1) _ d] assms(2) fr e acc user Inr show ?thesis
      by (auto simp: delete_status_def)
  qed
qed

theorem DeletePeer_removes_exactly_witness:
  "\<exists>e c'. grpc_DeletePeer toy_services (Some (\<lambda>_. [bearer @ ''a@b''])) 1 home_controller = Ret (e, c') \<and>
     rows (gdb toy_services) (cdb c') = []"
proof -
  let ?md = "Some (\<lambda>_. [bearer @ ''a@b''])"
  have "\<not> has_sub bearer ''a@b''" by (simp add: bearer_def)
  then have x: "extractTokenMetadata ?md = Inr ''a@b''"
    using split_str_front [of bearer "''a@b''"] split_str_absent [of bearer "''a@b''"]
    by (simp add: extractTokenMetadata_def bearer_def)
  have u: "fst (ValidateAccessToken (provider toy_services) ''a@b'' (validator home_controller)) = Inr ''a@b''"
    by (simp add: ValidateAccessToken_def toy_services_def toy_idp_def validateAudience_def GetUser_def GetUserInfo_def
        home_controller_def NewController_def toy_validator_def)
  have nc: "\<not> Connected member" by (simp add: member_def home_peer_def zero_DBPeer_def)
  have g: "GetPeerbyID (gdb toy_services) 1 (cdb home_controller) = Some member"
    using store.by_id [OF home_controller_ok(1)] home_controller_ok(2) member_lookup(2) by simp
  have "\<exists>e c'. grpc_DeletePeer toy_services ?md 1 home_controller = Ret (e, c')"
    using x g nc validateAccessToken_frame(1) [of toy_services "''a@b''" home_controller]
    by (auto simp: grpc_DeletePeer_def ctl_DeletePeer_def Let_def case_prod_beta split: sum.splits)
  then obtain e c' where d: "grpc_DeletePeer toy_services ?md 1 home_controller = Ret (e, c')" by blast
  from DeletePeer_removes_exactly [OF home_controller_ok(1,3) d] x u g
  have "map ID (rows (gdb toy_services) (cdb c')) = []"
    by (auto simp: home_controller_ok(2) member_lookup(2))
  with d show ?thesis by auto
qed

text \<open>
  A client that opens a second update stream before the first one has
  been cleaned up loses its updates: the clean-up of the first stream closes the
  channel of the second one and removes the registration, while the first stream's own
  channel stays open for ever. The second stream then ends with \<open>Aborted\<close>.
\<close>

lemma stale_stream_closes_new_one:
  assumes "chans_ok c" and "GetPeerUpdateChannel i c = (a, c1)" and "GetPeerUpdateChannel i c1 = (b, c2)"
    and "DeletePeerUpdateChannel i c2 = Ret c3"
  shows "a \<noteq> b \<and> \<not> cclosed (chans c3 ! a) \<and> cclosed (chans c3 ! b) \<and> map_of (peerChannels c3) i = None \<and>
    fst (UpdateStream_poll False pref b c3) = Ended (StreamError (Aborted, ''server closed update stream''))"
proof -
  have ab: "a = length (chans c)" "b = Suc a" "chans c2 = chans c @ [new_chan, new_chan]"
    "map_of (peerChannels c2) i = Some b"
    using assms(2,3) by (auto simp: GetPeerUpdateChannel_def AList.update_conv')
  have "chans c3 = (chans c2)[b := (chans c2 ! b)\<lparr>cclosed := True\<rparr>]" "map_of (peerChannels c3) i = None"
    using assms(4) ab(1,2,4) ab(3)
    by (auto simp: DeletePeerUpdateChannel_def chan_close_def nth_append new_chan_def AList.delete_conv')
  then show ?thesis
    using ab by (simp add: nth_append new_chan_def UpdateStream_poll_def Let_def)
qed

lemma stale_stream_closes_new_one_example:
  "\<exists>c3. DeletePeerUpdateChannel 1 (snd (GetPeerUpdateChannel 1 (snd (GetPeerUpdateChannel 1 home_controller)))) = Ret c3 \<and>
     cclosed (chans c3 ! 1) \<and> \<not> cclosed (chans c3 ! 0)"
proof -
  have ok: "chans_ok home_controller" by (simp add: chans_ok_def home_controller_def NewController_def)
  let ?c1 = "snd (GetPeerUpdateChannel 1 home_controller)" and ?c2 = "snd (GetPeerUpdateChannel 1 (snd (GetPeerUpdateChannel 1 home_controller)))"
  have g: "GetPeerUpdateChannel 1 home_controller = (0, ?c1)" "GetPeerUpdateChannel 1 ?c1 = (1, ?c2)"
    by (simp_all add: GetPeerUpdateChannel_def home_controller_def NewController_def)
  obtain c3 where d: "DeletePeerUpdateChannel 1 ?c2 = Ret c3"
    using DeletePeerUpdateChannel_ok [OF GetPeerUpdateChannel_ok [OF GetPeerUpdateChannel_ok [OF ok]]] by metis
  from stale_stream_closes_new_one [OF ok g d] d show ?thesis by blast
qed

end
