(* ===== verification/Streams.thy ===== *)
theory Streams
  imports Grpc
begin

text \<open>
  Several requests of the controller at once (src/controller/grpc_v1.go,
  src/controller/peer_updates.go). Every update stream is a goroutine that loops over
  the registered channels, waits for receivers, and is received from by other
  goroutines; forced logouts, punch requests and delayed clean-ups run beside them. A
  state is the controller with the control points of its goroutines, and one step is
  what a goroutine does between two points where others can run. A channel without a
  buffer hands an update over in one joint step of its sender and its receiver.

  The theory shows which panics the interleaving can cause, which streams the
  registered channels belong to, that two clients that connect at the same time can
  block each other for ever, and that a client that leaves while another one
  announces itself can end the process.
\<close>

section \<open>Goroutines\<close>

text \<open>
  The points of \<open>UpdateStream\<close>: \<open>Registering\<close> after its checks, \<open>Announcing\<close> before
  an event to the others, \<open>Ranging\<close> inside \<open>Range\<close> with the ids it has still to visit,
  \<open>Sending\<close> in the send to one channel, \<open>Greeting\<close> before the initial list,
  \<open>Receiving\<close> at its \<open>select\<close>, \<open>Passing\<close> with an update for the client, \<open>Closing\<close>,
  \<open>Unsetting\<close> and the second \<open>Announcing\<close> in the deferred function, \<open>Finished\<close>. The
  flag of an event says whether the peer arrives.
\<close>

datatype phase =
    Registering
  | Announcing bool
  | Ranging bool pb_UpdateResponse "u32 list"
  | Sending bool pb_UpdateResponse nat "u32 list"
  | Greeting
  | Receiving
  | Passing pb_UpdateResponse
  | Closing
  | Unsetting
  | Finished

text \<open>
  \<open>Stream p a ph\<close> serves peer \<open>p\<close> and receives from channel \<open>a\<close>; \<open>Notifier u b d\<close>
  waits to send \<open>u\<close> on channel \<open>b\<close>, and after it a logout leaves the delayed clean-up
  of \<open>d\<close> behind; \<open>Cleaner i\<close> is that clean-up.
\<close>

datatype goroutine =
    Stream DBPeer nat phase
  | Notifier pb_UpdateResponse nat "u32 option"
  | Cleaner u32
  | Ended_routine

record 'db system =
  ctl :: "'db Controller"
  routines :: "goroutine list"

definition at :: "'db system \<Rightarrow> nat \<Rightarrow> goroutine \<Rightarrow> bool" where
  "at s n r \<longleftrightarrow> n < length (routines s) \<and> routines s ! n = r"

definition spawn :: "goroutine \<Rightarrow> 'db system \<Rightarrow> 'db system" where
  "spawn r s = s\<lparr>routines := routines s @ [r]\<rparr>"

definition goes :: "nat \<Rightarrow> goroutine \<Rightarrow> 'db system \<Rightarrow> 'db system" where
  "goes n r s = s\<lparr>routines := (routines s)[n := r]\<rparr>"

definition announced :: "bool \<Rightarrow> phase" where
  "announced arrives = (if arrives then Greeting else Finished)"

definition announcement :: "('db, 'set) services \<Rightarrow> bool \<Rightarrow> u32 \<Rightarrow> 'db Controller \<Rightarrow> phase" where
  "announcement sv arrives i c =
     (case GetPeerbyID (gdb sv) i (cdb c) of
        None \<Rightarrow> announced arrives
      | Some p \<Rightarrow> Ranging arrives (peer_update (if arrives then CONNECT else DISCONNECT) p)
          (map fst (peerChannels c)))"

definition after_notify :: "u32 option \<Rightarrow> goroutine" where
  "after_notify d = (case d of None \<Rightarrow> Ended_routine | Some i \<Rightarrow> Cleaner i)"

text \<open>
  \<open>Range\<close> visits the ids that were registered when it began, in any order, and reads
  the channel of an id when it visits it. \<open>others_write\<close> is what requests without a
  part in this theory do to the database.
\<close>

inductive stream_step :: "('db, 'set) services \<Rightarrow> 'db system \<Rightarrow> 'db system outcome \<Rightarrow> bool" for sv where
  admit: "UpdateStream_admit sv now m (ctl s) = (Inr p, c) \<Longrightarrow>
    stream_step sv s (Ret (spawn (Stream p 0 Registering) (s\<lparr>ctl := c\<rparr>)))"
| refuse: "UpdateStream_admit sv now m (ctl s) = (Inl e, c) \<Longrightarrow> stream_step sv s (Ret (s\<lparr>ctl := c\<rparr>))"
| register: "at s n (Stream p a Registering) \<Longrightarrow> GetPeerUpdateChannel (ID p) (ctl s) = (b, c) \<Longrightarrow>
    stream_step sv s (Ret (goes n (Stream p b (Announcing True)) (s\<lparr>ctl := c\<rparr>)))"
| announce: "at s n (Stream p a (Announcing v)) \<Longrightarrow>
    stream_step sv s (Ret (goes n (Stream p a (announcement sv v (ID p) (ctl s))) s))"
| visit_skip: "at s n (Stream p a (Ranging v u ks)) \<Longrightarrow> k \<in> set ks \<Longrightarrow>
    k = ID p \<or> map_of (peerChannels (ctl s)) k = None \<Longrightarrow>
    stream_step sv s (Ret (goes n (Stream p a (Ranging v u (remove1 k ks))) s))"
| visit: "at s n (Stream p a (Ranging v u ks)) \<Longrightarrow> k \<in> set ks \<Longrightarrow> k \<noteq> ID p \<Longrightarrow>
    map_of (peerChannels (ctl s)) k = Some b \<Longrightarrow>
    stream_step sv s (Ret (goes n (Stream p a (Sending v u b (remove1 k ks))) s))"
| range_end: "at s n (Stream p a (Ranging v u [])) \<Longrightarrow>
    stream_step sv s (Ret (goes n (Stream p a (announced v)) s))"
| hand_over: "at s n (Stream p a (Sending v u b ks)) \<Longrightarrow> at s m (Stream q b Receiving) \<Longrightarrow>
    \<not> cclosed (chans (ctl s) ! b) \<Longrightarrow>
    stream_step sv s (Ret (goes n (Stream p a (Ranging v u ks)) (goes m (Stream q b (Passing u)) s)))"
| send_closed: "at s n (Stream p a (Sending v u b ks)) \<Longrightarrow> b < length (chans (ctl s)) \<Longrightarrow>
    cclosed (chans (ctl s) ! b) \<Longrightarrow> stream_step sv s (Panic ''send on closed channel'')"
| greet: "at s n (Stream p a Greeting) \<Longrightarrow> UpdateStream_init sv (ID p) (ctl s) = Inr u \<Longrightarrow>
    stream_step sv s (Ret (goes n (Stream p a Receiving) s))"
| greet_fails: "at s n (Stream p a Greeting) \<Longrightarrow> stream_step sv s (Ret (goes n (Stream p a Closing) s))"
| pass_on: "at s n (Stream p a (Passing u)) \<Longrightarrow> stream_step sv s (Ret (goes n (Stream p a Receiving) s))"
| client_gone: "at s n (Stream p a Receiving) \<Longrightarrow> stream_step sv s (Ret (goes n (Stream p a Closing) s))"
| server_closed: "at s n (Stream p a Receiving) \<Longrightarrow> cclosed (chans (ctl s) ! a) \<Longrightarrow>
    stream_step sv s (Ret (goes n (Stream p a Closing) s))"
| close_own: "at s n (Stream p a Closing) \<Longrightarrow> DeletePeerUpdateChannel (ID p) (ctl s) = Ret c \<Longrightarrow>
    stream_step sv s (Ret (goes n (Stream p a Unsetting) (s\<lparr>ctl := c\<rparr>)))"
| close_panic: "at s n (Stream p a Closing) \<Longrightarrow> DeletePeerUpdateChannel (ID p) (ctl s) = Panic e \<Longrightarrow>
    stream_step sv s (Panic e)"
| unset: "at s n (Stream p a Unsetting) \<Longrightarrow>
    stream_step sv s (Ret (goes n (Stream p a (Announcing False))
      (s\<lparr>ctl := (ctl s)\<lparr>cdb := snd (SetPeerConnected (gdb sv) p False (cdb (ctl s)))\<rparr>\<rparr>)))"
| notify: "map_of (peerChannels (ctl s)) i = Some b \<Longrightarrow>
    stream_step sv s (Ret (spawn (Notifier u b d) s))"
| notify_nobody: "map_of (peerChannels (ctl s)) i = None \<Longrightarrow>
    stream_step sv s (Ret (spawn (after_notify d) s))"
| notified: "at s n (Notifier u b d) \<Longrightarrow> at s m (Stream q b Receiving) \<Longrightarrow> \<not> cclosed (chans (ctl s) ! b) \<Longrightarrow>
    stream_step sv s (Ret (goes n (after_notify d) (goes m (Stream q b (Passing u)) s)))"
| notify_closed: "at s n (Notifier u b d) \<Longrightarrow> b < length (chans (ctl s)) \<Longrightarrow> cclosed (chans (ctl s) ! b) \<Longrightarrow>
    stream_step sv s (Panic ''send on closed channel'')"
| clean: "at s n (Cleaner i) \<Longrightarrow> DeletePeerUpdateChannel i (ctl s) = Ret c \<Longrightarrow>
    stream_step sv s (Ret (goes n Ended_routine (s\<lparr>ctl := c\<rparr>)))"
| clean_panic: "at s n (Cleaner i) \<Longrightarrow> DeletePeerUpdateChannel i (ctl s) = Panic e \<Longrightarrow>
    stream_step sv s (Panic e)"
| others_write: "stream_step sv s (Ret (s\<lparr>ctl := (ctl s)\<lparr>cdb := db\<rparr>\<rparr>))"

inductive stream_run :: "('db, 'set) services \<Rightarrow> 'db system \<Rightarrow> 'db system \<Rightarrow> bool" for sv s where
  here: "stream_run sv s s"
| more: "stream_run sv s t \<Longrightarrow> stream_step sv t (Ret t') \<Longrightarrow> stream_run sv s t'"

inductive_cases step_panic: "stream_step sv s (Panic e)"

lemma stream_run_trans:
  assumes "stream_run sv s t" and "stream_run sv t r"
  shows "stream_run sv s r"
  using assms(2) by (induction rule: stream_run.induct) (auto intro: assms(1) more)

lemma stream_run_one: "stream_step sv s (Ret t) \<Longrightarrow> stream_run sv s t"
  by (rule more [OF here])

section \<open>Moving goroutines\<close>

lemma routines_simps [simp]:
  "ctl (spawn r s) = ctl s" "ctl (goes n r s) = ctl s"
  "routines (spawn r s) = routines s @ [r]" "routines (goes n r s) = (routines s)[n := r]"
  by (simp_all add: spawn_def goes_def)

lemma at_goes [simp]: "at (goes n r s) m x \<longleftrightarrow> (if m = n then n < length (routines s) \<and> x = r else at s m x)"
  by (auto simp: at_def goes_def)

lemma at_ctl [simp]: "at (s\<lparr>ctl := c\<rparr>) n x \<longleftrightarrow> at s n x"
  by (simp add: at_def)

lemma at_spawn: "at (spawn r s) n x \<longleftrightarrow> at s n x \<or> n = length (routines s) \<and> x = r"
  by (auto simp: at_def spawn_def nth_append)

lemma at_length: "at s n x \<Longrightarrow> n < length (routines s)"
  by (simp add: at_def)

lemma at_same: "at s n x \<Longrightarrow> at s n y \<Longrightarrow> x = y"
  by (simp add: at_def)

lemma same_routines: "routines s = routines t \<Longrightarrow> at s = at t"
  by (simp add: at_def fun_eq_iff)

section \<open>Which streams the registered channels belong to\<close>

text \<open>From its registration to its deletion the channel of a stream may be in the map.\<close>

fun has_channel :: "phase \<Rightarrow> bool" where
  "has_channel (Announcing v) = v"
| "has_channel (Ranging v _ _) = v"
| "has_channel (Sending v _ _ _) = v"
| "has_channel ph = (ph \<notin> {Registering, Unsetting, Finished})"

definition streams_ok :: "'db system \<Rightarrow> bool" where
  "streams_ok s \<longleftrightarrow> chans_ok (ctl s) \<and>
     (\<forall>n p a ph. at s n (Stream p a ph) \<longrightarrow> ph \<noteq> Registering \<longrightarrow> a < length (chans (ctl s))) \<and>
     (\<forall>n m p q a ph ph'. at s n (Stream p a ph) \<longrightarrow> at s m (Stream q a ph') \<longrightarrow>
        ph \<noteq> Registering \<longrightarrow> ph' \<noteq> Registering \<longrightarrow> n = m) \<and>
     (\<forall>i a. map_of (peerChannels (ctl s)) i = Some a \<longrightarrow>
        (\<exists>n p ph. at s n (Stream p a ph) \<and> ID p = i \<and> has_channel ph))"

lemma has_channel_started [simp]: "has_channel ph \<Longrightarrow> ph \<noteq> Registering"
  by auto

lemma has_channel_announced [simp]: "has_channel (announced v) = v" "announced v \<noteq> Registering"
  by (auto simp: announced_def)

lemma has_channel_announcement [simp]:
  "has_channel (announcement sv v i c) = v" "announcement sv v i c \<noteq> Registering"
  by (auto simp: announcement_def split: option.splits)

lemma streams_okD:
  assumes "streams_ok s"
  shows "chans_ok (ctl s)"
    and "at s n (Stream p a ph) \<Longrightarrow> ph \<noteq> Registering \<Longrightarrow> a < length (chans (ctl s))"
    and "at s n (Stream p a ph) \<Longrightarrow> at s m (Stream q a ph') \<Longrightarrow> ph \<noteq> Registering \<Longrightarrow> ph' \<noteq> Registering \<Longrightarrow> n = m"
    and "map_of (peerChannels (ctl s)) i = Some a \<Longrightarrow> \<exists>n p ph. at s n (Stream p a ph) \<and> ID p = i \<and> has_channel ph"
  using assms unfolding streams_ok_def by blast+

lemma streams_ok_goes:
  assumes "streams_ok s" and "at s n (Stream p a ph)" and "ph \<noteq> Registering" and "ph' \<noteq> Registering"
    and "has_channel ph \<Longrightarrow> has_channel ph' \<or> map_of (peerChannels (ctl s)) (ID p) \<noteq> Some a"
  shows "streams_ok (goes n (Stream p a ph') s)"
  unfolding streams_ok_def
proof (intro conjI allI impI)
  fix i b
  assume "map_of (peerChannels (ctl (goes n (Stream p a ph') s))) i = Some b"
  then have m: "map_of (peerChannels (ctl s)) i = Some b" by simp
  then obtain k q ph2 where k: "at s k (Stream q b ph2)" "ID q = i" "has_channel ph2"
    using streams_okD(4) [OF assms(1)] by blast
  show "\<exists>k q ph2. at (goes n (Stream p a ph') s) k (Stream q b ph2) \<and> ID q = i \<and> has_channel ph2"
  proof (cases "k = n")
    case True
    with k assms(2) have "Stream q b ph2 = Stream p a ph" by (metis at_same)
    with assms(5) m k have "has_channel ph'" "b = a" "ID p = i" by auto
    then show ?thesis using at_length [OF assms(2)] by (intro exI [of _ n] exI [of _ p] exI [of _ ph']) simp
  next
    case False
    with k show ?thesis by (intro exI [of _ k] exI [of _ q] exI [of _ ph2]) simp
  qed
next
  show "chans_ok (ctl (goes n (Stream p a ph') s))" using streams_okD(1) [OF assms(1)] by simp
next
  fix k q b ph2
  assume "at (goes n (Stream p a ph') s) k (Stream q b ph2)" "ph2 \<noteq> Registering"
  then show "b < length (chans (ctl (goes n (Stream p a ph') s)))"
    using streams_okD(2) [OF assms(1)] assms(2,3) by (auto split: if_splits)
next
  fix k m q r b ph2 ph3
  assume "at (goes n (Stream p a ph') s) k (Stream q b ph2)" "at (goes n (Stream p a ph') s) m (Stream r b ph3)"
    "ph2 \<noteq> Registering" "ph3 \<noteq> Registering"
  then show "k = m"
    using streams_okD(3) [OF assms(1)] assms(2,3) by (auto split: if_splits)
qed

lemma streams_ok_other:
  assumes "streams_ok s" and "\<And>q b ph. at s n (Stream q b ph) \<Longrightarrow> \<not> has_channel ph"
    and "\<And>q b ph. r = Stream q b ph \<Longrightarrow> ph = Registering"
  shows "streams_ok (goes n r s)"
  unfolding streams_ok_def
proof (intro conjI allI impI)
  fix i b
  assume "map_of (peerChannels (ctl (goes n r s))) i = Some b"
  then have "map_of (peerChannels (ctl s)) i = Some b" by simp
  then obtain k q ph2 where k: "at s k (Stream q b ph2)" "ID q = i" "has_channel ph2"
    using streams_okD(4) [OF assms(1)] by blast
  moreover have "k \<noteq> n" using k assms(2) by blast
  ultimately show "\<exists>k q ph2. at (goes n r s) k (Stream q b ph2) \<and> ID q = i \<and> has_channel ph2"
    by (intro exI [of _ k] exI [of _ q] exI [of _ ph2]) simp
next
  fix k m q r' b ph2 ph3
  assume "at (goes n r s) k (Stream q b ph2)" "at (goes n r s) m (Stream r' b ph3)"
    "ph2 \<noteq> Registering" "ph3 \<noteq> Registering"
  then show "k = m"
    using streams_okD(3) [OF assms(1)] assms(3) by (auto split: if_splits)
qed (use streams_okD(1,2) [OF assms(1)] assms(3) in \<open>auto split: if_splits\<close>)

lemma streams_ok_spawn:
  assumes "streams_ok s" and "\<And>q b ph. r = Stream q b ph \<Longrightarrow> ph = Registering"
  shows "streams_ok (spawn r s)"
  unfolding streams_ok_def
proof (intro conjI allI impI)
  fix i b
  assume "map_of (peerChannels (ctl (spawn r s))) i = Some b"
  then have "map_of (peerChannels (ctl s)) i = Some b" by simp
  from streams_okD(4) [OF assms(1) this]
  show "\<exists>k q ph2. at (spawn r s) k (Stream q b ph2) \<and> ID q = i \<and> has_channel ph2"
    by (auto simp: at_spawn)
next
  fix k m q r' b ph2 ph3
  assume "at (spawn r s) k (Stream q b ph2)" "at (spawn r s) m (Stream r' b ph3)"
    "ph2 \<noteq> Registering" "ph3 \<noteq> Registering"
  then show "k = m"
    using streams_okD(3) [OF assms(1)] assms(2) by (auto simp: at_spawn)
qed (use streams_okD(1,2) [OF assms(1)] assms(2) in \<open>auto simp: at_spawn\<close>)

lemma streams_ok_cdb:
  assumes "streams_ok s" and "peerChannels c = peerChannels (ctl s)" and "chans c = chans (ctl s)"
  shows "streams_ok (s\<lparr>ctl := c\<rparr>)"
  using assms by (simp add: streams_ok_def chans_ok_def)

lemma DeletePeerUpdateChannel_shape:
  assumes "chans_ok c" and "DeletePeerUpdateChannel i c = Ret c'"
  shows "chans_ok c' \<and> length (chans c') = length (chans c) \<and>
    map_of (peerChannels c') = (map_of (peerChannels c))(i := None)"
proof -
  from DeletePeerUpdateChannel_ok [OF assms(1), of i] assms(2) have "chans_ok c'" by auto
  moreover have "length (chans c') = length (chans c) \<and> map_of (peerChannels c') = (map_of (peerChannels c))(i := None)"
    using assms(2)
    by (auto simp: DeletePeerUpdateChannel_def chan_close_def AList.delete_conv' obind_eq_Ret fun_eq_iff
        split: option.splits if_splits)
  ultimately show ?thesis by blast
qed

lemma streams_ok_delete:
  assumes "streams_ok s" and "DeletePeerUpdateChannel i (ctl s) = Ret c"
  shows "streams_ok (s\<lparr>ctl := c\<rparr>)" and "map_of (peerChannels c) i = None"
proof -
  note d = DeletePeerUpdateChannel_shape [OF streams_okD(1) [OF assms(1)] assms(2)]
  then show "map_of (peerChannels c) i = None" by simp
  show "streams_ok (s\<lparr>ctl := c\<rparr>)"
    unfolding streams_ok_def
  proof (intro conjI allI impI)
    fix j b
    assume "map_of (peerChannels (ctl (s\<lparr>ctl := c\<rparr>))) j = Some b"
    then have "map_of (peerChannels (ctl s)) j = Some b" using d by (auto split: if_splits)
    from streams_okD(4) [OF assms(1) this]
    show "\<exists>n p ph. at (s\<lparr>ctl := c\<rparr>) n (Stream p b ph) \<and> ID p = j \<and> has_channel ph" by simp
  next
    fix k m q r' b ph2 ph3
    assume "at (s\<lparr>ctl := c\<rparr>) k (Stream q b ph2)" "at (s\<lparr>ctl := c\<rparr>) m (Stream r' b ph3)"
      "ph2 \<noteq> Registering" "ph3 \<noteq> Registering"
    then show "k = m" using streams_okD(3) [OF assms(1)] by auto
  qed (use d streams_okD(2) [OF assms(1)] in \<open>simp_all\<close>)
qed

lemma streams_ok_register:
  assumes "streams_ok s" and "at s n (Stream p a Registering)" and "GetPeerUpdateChannel (ID p) (ctl s) = (b, c)"
  shows "streams_ok (goes n (Stream p b (Announcing True)) (s\<lparr>ctl := c\<rparr>))"
proof -
  have b: "b = length (chans (ctl s))" "length (chans c) = Suc b"
    "map_of (peerChannels c) = (map_of (peerChannels (ctl s)))(ID p \<mapsto> b)"
    using assms(3) by (auto simp: GetPeerUpdateChannel_def AList.update_conv')
  have ok: "chans_ok c"
    using GetPeerUpdateChannel_ok [OF streams_okD(1) [OF assms(1)], of "ID p"] assms(3) by simp
  note own = streams_okD(2-3) [OF assms(1)]
  let ?s = "goes n (Stream p b (Announcing True)) (s\<lparr>ctl := c\<rparr>)"
  show ?thesis
    unfolding streams_ok_def
  proof (intro conjI allI impI)
    fix j d
    assume "map_of (peerChannels (ctl ?s)) j = Some d"
    then have m: "((map_of (peerChannels (ctl s)))(ID p \<mapsto> b)) j = Some d" by (simp add: b(3))
    show "\<exists>k q ph. at ?s k (Stream q d ph) \<and> ID q = j \<and> has_channel ph"
    proof (cases "j = ID p")
      case True
      with at_length [OF assms(2)] m show ?thesis
        by (intro exI [of _ n] exI [of _ p] exI [of _ "Announcing True"]) simp
    next
      case False
      with m have "map_of (peerChannels (ctl s)) j = Some d" by simp
      then obtain k q ph where k: "at s k (Stream q d ph)" "ID q = j" "has_channel ph"
        using streams_okD(4) [OF assms(1)] by blast
      have "k \<noteq> n" using k assms(2) at_same [of s n "Stream q d ph" "Stream p a Registering"] by auto
      with k show ?thesis by (intro exI [of _ k] exI [of _ q] exI [of _ ph]) simp
    qed
  next
    fix k q d ph
    assume "at ?s k (Stream q d ph)" "ph \<noteq> Registering"
    then show "d < length (chans (ctl ?s))" using own(1) b(1,2) by (auto split: if_splits intro: less_SucI)
  next
    fix k m q r d ph ph'
    assume "at ?s k (Stream q d ph)" "at ?s m (Stream r d ph')" "ph \<noteq> Registering" "ph' \<noteq> Registering"
    then show "k = m"
      by (cases "k = n"; cases "m = n") (use own b(1) in \<open>auto dest: less_irrefl_nat\<close>)
  qed (simp add: ok)
qed

lemma admit_frame:
  "peerChannels (snd (UpdateStream_admit sv now m c)) = peerChannels c"
  "chans (snd (UpdateStream_admit sv now m c)) = chans c"
  by (simp_all add: UpdateStream_admit_def Let_def split: option.splits prod.splits)

lemma after_notify_no_stream [simp]: "after_notify d \<noteq> Stream q b ph"
  by (simp add: after_notify_def split: option.splits)

lemma stream_step_ok:
  assumes "stream_step sv s r" and "streams_ok s" and "r = Ret s'"
  shows "streams_ok s'"
  using assms
proof (cases rule: stream_step.cases)
  case (admit now m p c)
  with admit_frame [of sv now m "ctl s"] assms show ?thesis
    by (auto intro!: streams_ok_spawn streams_ok_cdb)
next
  case (refuse now m e c)
  with admit_frame [of sv now m "ctl s"] assms show ?thesis by (auto intro!: streams_ok_cdb)
next
  case (register n p a b c)
  with streams_ok_register assms show ?thesis by auto
next
  case (hand_over n p a v u b ks m q)
  have "streams_ok (goes m (Stream q b (Passing u)) s)"
    using assms(2) hand_over by (intro streams_ok_goes) auto
  moreover have "m \<noteq> n" using hand_over at_same by fastforce
  ultimately show ?thesis using assms(3) hand_over by (auto intro!: streams_ok_goes)
next
  case (close_own n p a c)
  note d = streams_ok_delete [OF assms(2) close_own(3)]
  have "streams_ok (goes n (Stream p a Unsetting) (s\<lparr>ctl := c\<rparr>))"
    using d close_own by (intro streams_ok_goes [where ph = Closing]) auto
  with assms(3) close_own show ?thesis by simp
next
  case (unset n p a)
  with assms show ?thesis by (auto intro!: streams_ok_goes [where ph = Unsetting] streams_ok_cdb)
next
  case (notified n u b d m q)
  have "streams_ok (goes m (Stream q b (Passing u)) s)"
    using assms(2) notified by (intro streams_ok_goes) auto
  moreover have "m \<noteq> n" using notified at_same by fastforce
  ultimately show ?thesis using assms(3) notified by (auto intro!: streams_ok_other dest: at_same)
next
  case (clean n i c)
  with streams_ok_delete [OF assms(2)] assms(3) show ?thesis
    by (auto intro!: streams_ok_other dest: at_same)
next
  case (notify i b d)
  with assms show ?thesis by (auto intro!: streams_ok_spawn)
next
  case (notify_nobody i d)
  with assms show ?thesis by (auto intro!: streams_ok_spawn)
next
  case (others_write db)
  with assms show ?thesis by (auto intro!: streams_ok_cdb)
qed (auto intro!: streams_ok_goes)

lemma stream_run_ok: "stream_run sv s t \<Longrightarrow> streams_ok s \<Longrightarrow> streams_ok t"
  by (induction rule: stream_run.induct) (auto dest: stream_step_ok)

lemma stream_step_panic:
  assumes "streams_ok s" and "stream_step sv s (Panic e)"
  shows "e = ''send on closed channel''"
proof -
  have "DeletePeerUpdateChannel i (ctl s) \<noteq> Panic e" for i
    by (rule DeletePeerUpdateChannel_ok [OF streams_okD(1) [OF assms(1)], of i]) simp
  with assms(2) show ?thesis by (auto elim: step_panic)
qed

section \<open>Waiting senders\<close>

text \<open>A send waits as long as the owner of the channel is not at its \<open>select\<close>.\<close>

lemma sender_waits:
  assumes "stream_step sv s r" and "r = Ret s'" and "streams_ok s"
    and "at s n (Stream p a (Sending v u b ks))" and "at s m (Stream q b ph)"
    and "ph \<noteq> Registering" and "ph \<noteq> Receiving"
  shows "at s' n (Stream p a (Sending v u b ks))"
  using assms(1)
proof (cases rule: stream_step.cases)
  case (hand_over n' p' a' v' u' b' ks' m' q')
  have "n' \<noteq> n"
  proof
    assume "n' = n"
    with hand_over assms(4) have "b' = b" by (auto dest: at_same)
    with hand_over assms(5,6) streams_okD(3) [OF assms(3)] have "m' = m" by blast
    with hand_over assms(5,7) \<open>b' = b\<close> show False by (auto dest: at_same)
  qed
  moreover have "m' \<noteq> n" using hand_over assms(4) by (auto dest: at_same)
  ultimately show ?thesis using hand_over assms(2,4) by simp
qed (use assms(2,4) in \<open>auto simp: at_spawn dest: at_same\<close>)

lemma crossed_senders_wait:
  assumes "stream_run sv s t" and "streams_ok s"
    and "at s n (Stream p a (Sending v u b ks))" and "at s m (Stream q b (Sending w u' a ls))"
  shows "at t n (Stream p a (Sending v u b ks)) \<and> at t m (Stream q b (Sending w u' a ls))"
  using assms(1)
proof (induction rule: stream_run.induct)
  case (more t t')
  have "streams_ok t" using stream_run_ok [OF more.hyps(1) assms(2)] .
  with more sender_waits [OF more.hyps(2) refl] show ?case by blast
qed (use assms(3,4) in simp)

section \<open>Two clients at the same time\<close>

text \<open>The first one has registered its channel, the second one has passed its checks.\<close>

lemma one_registers:
  assumes "UpdateStream_admit sv now m c = (Inr p, c1)" and "UpdateStream_admit sv now' m' c1 = (Inr q, c2)"
    and "peerChannels c = []"
  defines "l \<equiv> length (chans c)"
  shows "\<exists>c3. stream_run sv \<lparr>ctl = c, routines = []\<rparr>
      \<lparr>ctl = c3, routines = [Stream p l (Announcing True), Stream q 0 Registering]\<rparr> \<and>
      cdb c3 = cdb c2 \<and> peerChannels c3 = [(ID p, l)] \<and> chans c3 = chans c @ [new_chan]"
proof -
  have fr: "peerChannels c2 = []" "chans c2 = chans c"
    using admit_frame [of sv now m c] admit_frame [of sv now' m' c1] assms(1-3) by simp_all
  define c3 where "c3 = snd (GetPeerUpdateChannel (ID p) c2)"
  have g3: "GetPeerUpdateChannel (ID p) c2 = (l, c3)" using fr by (simp add: GetPeerUpdateChannel_def c3_def l_def)
  let ?s1 = "\<lparr>ctl = c1, routines = [Stream p 0 Registering]\<rparr>"
  let ?s2 = "\<lparr>ctl = c2, routines = [Stream p 0 Registering, Stream q 0 Registering]\<rparr>"
  let ?s3 = "\<lparr>ctl = c3, routines = [Stream p l (Announcing True), Stream q 0 Registering]\<rparr>"
  have st1: "stream_step sv \<lparr>ctl = c, routines = []\<rparr> (Ret ?s1)"
    using stream_step.admit [of sv now m "\<lparr>ctl = c, routines = []\<rparr>"] assms(1) by (simp add: spawn_def)
  have st2: "stream_step sv ?s1 (Ret ?s2)"
    using stream_step.admit [of sv now' m' ?s1] assms(2) by (simp add: spawn_def)
  have st3: "stream_step sv ?s2 (Ret ?s3)"
    using stream_step.register [of ?s2 0 p 0 l c3] g3 by (simp add: at_def goes_def)
  have "stream_run sv \<lparr>ctl = c, routines = []\<rparr> ?s3" by (rule more [OF more [OF more [OF here st1] st2] st3])
  moreover have "cdb c3 = cdb c2" "peerChannels c3 = [(ID p, l)]" "chans c3 = chans c @ [new_chan]"
    using fr by (simp_all add: c3_def GetPeerUpdateChannel_def l_def)
  ultimately show ?thesis by blast
qed

text \<open>The second one registers, wherever the first one is.\<close>

lemma second_registers:
  assumes "peerChannels c = [(ID p, l)]" and "length (chans c) = Suc l" and "ID p \<noteq> ID q"
  shows "\<exists>c4. stream_step sv \<lparr>ctl = c, routines = [r, Stream q 0 Registering]\<rparr>
      (Ret \<lparr>ctl = c4, routines = [r, Stream q (Suc l) (Announcing True)]\<rparr>) \<and>
      cdb c4 = cdb c \<and> peerChannels c4 = [(ID p, l), (ID q, Suc l)] \<and> chans c4 = chans c @ [new_chan]"
proof -
  let ?s = "\<lparr>ctl = c, routines = [r, Stream q 0 Registering]\<rparr>"
  define c4 where "c4 = snd (GetPeerUpdateChannel (ID q) c)"
  have g: "GetPeerUpdateChannel (ID q) c = (Suc l, c4)"
    using assms(2) by (simp add: GetPeerUpdateChannel_def c4_def)
  have "stream_step sv ?s (Ret \<lparr>ctl = c4, routines = [r, Stream q (Suc l) (Announcing True)]\<rparr>)"
    using stream_step.register [of ?s 1 q 0 "Suc l" c4] g by (simp add: at_def goes_def)
  moreover have "cdb c4 = cdb c" "peerChannels c4 = [(ID p, l), (ID q, Suc l)]" "chans c4 = chans c @ [new_chan]"
    using assms by (simp_all add: c4_def GetPeerUpdateChannel_def)
  ultimately show ?thesis by blast
qed

lemma start_ok: "chans_ok c \<Longrightarrow> peerChannels c = [] \<Longrightarrow> streams_ok \<lparr>ctl = c, routines = []\<rparr>"
  by (simp add: streams_ok_def at_def)

text \<open>A stream begins its announcement and reaches its send to one registered stranger.\<close>

lemma announce_send:
  assumes "at s n (Stream p a (Announcing True))" and "GetPeerbyID (gdb sv) (ID p) (cdb (ctl s)) = Some r"
    and "map_of (peerChannels (ctl s)) k = Some b" and "k \<noteq> ID p"
  shows "stream_run sv s (goes n (Stream p a (Sending True (peer_update CONNECT r) b
    (remove1 k (map fst (peerChannels (ctl s)))))) s)"
proof -
  let ?t = "goes n (Stream p a (Ranging True (peer_update CONNECT r) (map fst (peerChannels (ctl s))))) s"
  have "stream_step sv s (Ret ?t)"
    using stream_step.announce [OF assms(1), of sv] assms(2) by (simp add: announcement_def)
  moreover have "stream_step sv ?t (Ret (goes n (Stream p a (Sending True (peer_update CONNECT r) b
      (remove1 k (map fst (peerChannels (ctl s)))))) ?t))"
    using at_length [OF assms(1)] assms(3,4)
    by (intro stream_step.visit) (auto dest: map_of_SomeD intro: rev_image_eqI)
  ultimately show ?thesis using more [OF more [OF here]] by (simp add: goes_def)
qed

text \<open>A stream that finds only itself registered and loses its client.\<close>

lemma alone_leaves:
  assumes "at s n (Stream p a (Announcing True))" and "map fst (peerChannels (ctl s)) = [ID p]"
  shows "stream_run sv s (goes n (Stream p a Closing) s)"
proof -
  have n: "n < length (routines s)" by (rule at_length [OF assms(1)])
  have greeting: "stream_run sv s (goes n (Stream p a Greeting) s)"
  proof (cases "GetPeerbyID (gdb sv) (ID p) (cdb (ctl s))")
    case None
    with stream_step.announce [OF assms(1), of sv] have "stream_step sv s (Ret (goes n (Stream p a Greeting) s))"
      by (simp add: announcement_def announced_def)
    then show ?thesis by (rule stream_run_one)
  next
    case (Some r)
    let ?r = "\<lambda>ks. goes n (Stream p a (Ranging True (peer_update CONNECT r) ks)) s"
    have st1: "stream_step sv s (Ret (?r [ID p]))"
      using stream_step.announce [OF assms(1), of sv] Some assms(2) by (simp add: announcement_def)
    have "stream_step sv (?r [ID p]) (Ret (goes n (Stream p a (Ranging True (peer_update CONNECT r)
        (remove1 (ID p) [ID p]))) (?r [ID p])))"
      using n by (intro stream_step.visit_skip) auto
    then have st2: "stream_step sv (?r [ID p]) (Ret (?r []))" by (simp add: goes_def)
    have "stream_step sv (?r []) (Ret (goes n (Stream p a (announced True)) (?r [])))"
      using n by (intro stream_step.range_end) auto
    then have st3: "stream_step sv (?r []) (Ret (goes n (Stream p a Greeting) s))"
      by (simp add: goes_def announced_def)
    show ?thesis by (rule more [OF more [OF more [OF here st1] st2] st3])
  qed
  have "stream_step sv (goes n (Stream p a Greeting) s)
      (Ret (goes n (Stream p a Closing) (goes n (Stream p a Greeting) s)))"
    using n by (intro stream_step.greet_fails) auto
  then show ?thesis using more [OF greeting] by (simp add: goes_def)
qed

definition other_machine :: string where "other_machine = replicate 64 (CHR ''b'')"

definition other_member :: DBPeer where
  "other_member = home_peer 2\<lparr>MachineID := other_machine, LoggedIn := True, LastAuth := 0\<rparr>"

definition pair_controller :: "DBPeer list Controller" where
  "pair_controller = NewController [member, other_member] (home_prefix 24) toy_validator"

lemma pair_admitted:
  obtains c1 c2 r1 r2 where
    "UpdateStream_admit toy_services 5 home_machine pair_controller = (Inr member, c1)"
    "UpdateStream_admit toy_services 5 other_machine c1 = (Inr other_member, c2)"
    "GetPeerbyID (gdb toy_services) (ID member) (cdb c2) = Some r1"
    "GetPeerbyID (gdb toy_services) (ID other_member) (cdb c2) = Some r2"
proof -
  have ids: "ID member = 1" "ID other_member = 2" "MachineID member = home_machine"
    "MachineID other_member = other_machine" "home_machine \<noteq> other_machine"
    by (simp_all add: member_def other_member_def home_peer_def home_machine_def other_machine_def)
  have fit: "\<not> IsAuthExpired 5 p" "\<not> IsDisabled p" "IsLoggedIn p" if "p = member \<or> p = other_member" for p
    using that by (auto simp: IsAuthExpired_iff IsDisabled_def IsLoggedIn_def member_def other_member_def home_peer_def
        zero_DBPeer_def Hour_def)
  define c1 where "c1 = snd (UpdateStream_admit toy_services 5 home_machine pair_controller)"
  define c2 where "c2 = snd (UpdateStream_admit toy_services 5 other_machine c1)"
  have a1: "UpdateStream_admit toy_services 5 home_machine pair_controller = (Inr member, c1)"
    and d1: "cdb c1 = [member\<lparr>Connected := True, UpdatedAt := 0\<rparr>, other_member]"
    using ids fit by (simp_all add: c1_def UpdateStream_admit_def GetPeerByMachineID_def SetPeerConnected_def toy_services_def
        table_gorm_def pair_controller_def NewController_def upd_row_def)
  have a2: "UpdateStream_admit toy_services 5 other_machine c1 = (Inr other_member, c2)"
    and d2: "cdb c2 = [member\<lparr>Connected := True, UpdatedAt := 0\<rparr>, other_member\<lparr>Connected := True, UpdatedAt := 0\<rparr>]"
    using ids fit d1 by (simp_all add: c2_def UpdateStream_admit_def GetPeerByMachineID_def SetPeerConnected_def toy_services_def
        table_gorm_def upd_row_def)
  show ?thesis by (rule that [OF a1 a2]) (simp_all add: d2 GetPeerbyID_def toy_services_def table_gorm_def ids)
qed

lemma pair_fresh: "chans_ok pair_controller" "peerChannels pair_controller = []" "ID member \<noteq> ID other_member"
  by (simp_all add: chans_ok_def pair_controller_def NewController_def member_def other_member_def home_peer_def)

section \<open>Properties\<close>

text \<open>
  C26 (invariant). However the goroutines of the update streams, the
  notifications, the delayed clean-ups and other requests interleave: every registered
  channel is open and belongs to a stream of its peer that has not begun to delete
  it, no two streams share a channel, and the only panic that can follow is a send
  on a channel that was closed while the sender waited - never a second close of a
  channel.
\<close>

theorem interleaved_streams_invariant:
  assumes "stream_run sv \<lparr>ctl = NewController db p tv, routines = []\<rparr> s"
  shows "(\<forall>i a. map_of (peerChannels (ctl s)) i = Some a \<longrightarrow>
       a < length (chans (ctl s)) \<and> \<not> cclosed (chans (ctl s) ! a) \<and>
       (\<exists>n q ph. at s n (Stream q a ph) \<and> ID q = i \<and> has_channel ph)) \<and>
     (\<forall>n m q r a ph ph'. at s n (Stream q a ph) \<longrightarrow> at s m (Stream r a ph') \<longrightarrow>
       ph \<noteq> Registering \<longrightarrow> ph' \<noteq> Registering \<longrightarrow> n = m) \<and>
     (\<forall>e. stream_step sv s (Panic e) \<longrightarrow> e = ''send on closed channel'')"
proof -
  have "streams_ok \<lparr>ctl = NewController db p tv, routines = []\<rparr>"
    by (rule start_ok) (simp_all add: chans_ok_def NewController_def)
  from stream_run_ok [OF assms this] have ok: "streams_ok s" .
  show ?thesis
    using streams_okD(3,4) [OF ok] map_of_registered [OF streams_okD(1) [OF ok]] stream_step_panic [OF ok] by blast
qed

theorem interleaved_streams_invariant_witness:
  "\<exists>s. stream_run toy_services \<lparr>ctl = pair_controller, routines = []\<rparr> s \<and>
     peerChannels (ctl s) = [(1, 0)] \<and> \<not> cclosed (chans (ctl s) ! 0) \<and>
     (\<forall>e. stream_step toy_services s (Panic e) \<longrightarrow> e = ''send on closed channel'')"
proof -
  obtain c1 c2 where a: "UpdateStream_admit toy_services 5 home_machine pair_controller = (Inr member, c1)"
    "UpdateStream_admit toy_services 5 other_machine c1 = (Inr other_member, c2)" using pair_admitted by blast
  from one_registers [OF a] obtain c3 where r: "stream_run toy_services \<lparr>ctl = pair_controller, routines = []\<rparr>
      \<lparr>ctl = c3, routines = [Stream member 0 (Announcing True), Stream other_member 0 Registering]\<rparr>"
    "peerChannels c3 = [(1, 0)]" by (auto simp: pair_controller_def NewController_def member_lookup)
  from interleaved_streams_invariant [OF r(1) [unfolded pair_controller_def]] r show ?thesis
    by (intro exI [of _ "\<lparr>ctl = c3, routines = [Stream member 0 (Announcing True), Stream other_member 0 Registering]\<rparr>"])
      simp
qed

text \<open>
  C27 (error). Two clients whose streams open at the same time can stop each
  other for ever: from the state in which both are registered and each announces
  itself to the other, nothing that any goroutine does later moves either of them:
  for as long as the controller runs neither client receives its initial list or any
  update.
\<close>

theorem simultaneous_streams_deadlock:
  assumes "UpdateStream_admit sv now m c = (Inr p, c1)" and "UpdateStream_admit sv now' m' c1 = (Inr q, c2)"
    and "chans_ok c" and "peerChannels c = []" and "ID p \<noteq> ID q"
    and "GetPeerbyID (gdb sv) (ID p) (cdb c2) = Some rp" and "GetPeerbyID (gdb sv) (ID q) (cdb c2) = Some rq"
  shows "\<exists>s a b. stream_run sv \<lparr>ctl = c, routines = []\<rparr> s \<and>
     (\<forall>t. stream_run sv s t \<longrightarrow>
        at t 0 (Stream p a (Sending True (peer_update CONNECT rp) b [ID p])) \<and>
        at t 1 (Stream q b (Sending True (peer_update CONNECT rq) a [ID q])))"
proof -
  define l where "l = length (chans c)"
  obtain c3 where c3: "stream_run sv \<lparr>ctl = c, routines = []\<rparr>
      \<lparr>ctl = c3, routines = [Stream p l (Announcing True), Stream q 0 Registering]\<rparr>"
    "cdb c3 = cdb c2" "peerChannels c3 = [(ID p, l)]" "chans c3 = chans c @ [new_chan]"
    using one_registers [OF assms(1,2,4)] unfolding l_def by blast
  obtain c4 where c4: "stream_step sv \<lparr>ctl = c3, routines = [Stream p l (Announcing True), Stream q 0 Registering]\<rparr>
      (Ret \<lparr>ctl = c4, routines = [Stream p l (Announcing True), Stream q (Suc l) (Announcing True)]\<rparr>)"
    "cdb c4 = cdb c3" "peerChannels c4 = [(ID p, l), (ID q, Suc l)]"
    using second_registers [of c3 p l q] c3(3,4) assms(5) by (auto simp: l_def)
  let ?s4 = "\<lparr>ctl = c4, routines = [Stream p l (Announcing True), Stream q (Suc l) (Announcing True)]\<rparr>"
  let ?P = "Stream p l (Sending True (peer_update CONNECT rp) (Suc l) [ID p])"
  let ?Q = "Stream q (Suc l) (Sending True (peer_update CONNECT rq) l [ID q])"
  have "stream_run sv ?s4 (goes 0 ?P ?s4)"
    using announce_send [of ?s4 0 p l sv rp "ID q" "Suc l"] assms(5,6) c3(2) c4(2,3) by (simp add: at_def)
  moreover have "stream_run sv (goes 0 ?P ?s4) (goes 1 ?Q (goes 0 ?P ?s4))"
    using announce_send [of "goes 0 ?P ?s4" 1 q "Suc l" sv rq "ID p" l] assms(5,7) c3(2) c4(2,3) by (simp add: at_def)
  ultimately have run: "stream_run sv \<lparr>ctl = c, routines = []\<rparr> (goes 1 ?Q (goes 0 ?P ?s4))"
    using more [OF c3(1) c4(1)] by (blast intro: stream_run_trans)
  have ok: "streams_ok (goes 1 ?Q (goes 0 ?P ?s4))" by (rule stream_run_ok [OF run start_ok [OF assms(3,4)]])
  have "at t 0 ?P \<and> at t 1 ?Q" if "stream_run sv (goes 1 ?Q (goes 0 ?P ?s4)) t" for t
    by (rule crossed_senders_wait [OF that ok]) (simp_all add: at_def goes_def)
  with run show ?thesis by blast
qed

theorem simultaneous_streams_deadlock_witness:
  "\<exists>s. stream_run toy_services \<lparr>ctl = pair_controller, routines = []\<rparr> s \<and>
     (\<forall>t. stream_run toy_services s t \<longrightarrow>
        (\<exists>a b u ks. at t 0 (Stream member a (Sending True u b ks))) \<and>
        (\<exists>a b u ks. at t 1 (Stream other_member b (Sending True u a ks))))"
  by (rule pair_admitted) (use simultaneous_streams_deadlock [OF _ _ pair_fresh] in meson)

text \<open>
  C28 (error). A client that leaves while another one connects can end the
  controller: the newcomer's announcement waits on the channel of the leaving
  stream, whose clean-up closes it, and the waiting send panics.
\<close>

theorem leaving_stream_crashes_controller:
  assumes "UpdateStream_admit sv now m c = (Inr p, c1)" and "UpdateStream_admit sv now' m' c1 = (Inr q, c2)"
    and "chans_ok c" and "peerChannels c = []" and "ID p \<noteq> ID q"
    and "GetPeerbyID (gdb sv) (ID q) (cdb c2) = Some rq"
  shows "\<exists>s. stream_run sv \<lparr>ctl = c, routines = []\<rparr> s \<and> stream_step sv s (Panic ''send on closed channel'')"
proof -
  define l where "l = length (chans c)"
  obtain c3 where c3: "stream_run sv \<lparr>ctl = c, routines = []\<rparr>
      \<lparr>ctl = c3, routines = [Stream p l (Announcing True), Stream q 0 Registering]\<rparr>"
    "cdb c3 = cdb c2" "peerChannels c3 = [(ID p, l)]" "chans c3 = chans c @ [new_chan]"
    using one_registers [OF assms(1,2,4)] unfolding l_def by blast
  let ?s3 = "\<lparr>ctl = c3, routines = [Stream p l Closing, Stream q 0 Registering]\<rparr>"
  have r3: "stream_run sv \<lparr>ctl = c, routines = []\<rparr> ?s3"
    using stream_run_trans [OF c3(1) alone_leaves [of _ 0 p l sv]] c3(3) by (simp add: at_def goes_def)
  obtain c4 where c4: "stream_step sv ?s3
      (Ret \<lparr>ctl = c4, routines = [Stream p l Closing, Stream q (Suc l) (Announcing True)]\<rparr>)"
    "cdb c4 = cdb c3" "peerChannels c4 = [(ID p, l), (ID q, Suc l)]" "chans c4 = chans c3 @ [new_chan]"
    using second_registers [of c3 p l q] c3(3,4) assms(5) by (auto simp: l_def)
  let ?s4 = "\<lparr>ctl = c4, routines = [Stream p l Closing, Stream q (Suc l) (Announcing True)]\<rparr>"
  let ?Q = "Stream q (Suc l) (Sending True (peer_update CONNECT rq) l [ID q])"
  let ?s5 = "\<lparr>ctl = c4, routines = [Stream p l Closing, ?Q]\<rparr>"
  have "stream_run sv ?s4 ?s5"
    using announce_send [of ?s4 1 q "Suc l" sv rq "ID p" l] assms(5,6) c3(2) c4(2,3) by (simp add: at_def goes_def)
  then have r5: "stream_run sv \<lparr>ctl = c, routines = []\<rparr> ?s5" using more [OF r3 c4(1)] by (blast intro: stream_run_trans)
  have nth: "chans c4 ! l = new_chan" "l < length (chans c4)" by (simp_all add: c4(4) c3(4) l_def nth_append)
  define c5 where "c5 = c4\<lparr>chans := (chans c4)[l := new_chan\<lparr>cclosed := True\<rparr>], peerChannels := [(ID q, Suc l)]\<rparr>"
  have "DeletePeerUpdateChannel (ID p) c4 = Ret c5"
    using nth assms(5) by (simp add: DeletePeerUpdateChannel_def c4(3) chan_close_def new_chan_def c5_def)
  then have "stream_step sv ?s5 (Ret \<lparr>ctl = c5, routines = [Stream p l Unsetting, ?Q]\<rparr>)"
    using stream_step.close_own [of ?s5 0 p l c5 sv] by (simp add: at_def goes_def)
  with r5 have "stream_run sv \<lparr>ctl = c, routines = []\<rparr> \<lparr>ctl = c5, routines = [Stream p l Unsetting, ?Q]\<rparr>" by (rule more)
  moreover have "stream_step sv \<lparr>ctl = c5, routines = [Stream p l Unsetting, ?Q]\<rparr> (Panic ''send on closed channel'')"
    using nth(2) by (intro stream_step.send_closed [of _ 1 q "Suc l" True _ l]) (simp_all add: at_def c5_def)
  ultimately show ?thesis by blast
qed

theorem leaving_stream_crashes_controller_witness:
  "\<exists>s. stream_run toy_services \<lparr>ctl = pair_controller, routines = []\<rparr> s \<and>
     stream_step toy_services s (Panic ''send on closed channel'')"
  by (rule pair_admitted) (rule leaving_stream_crashes_controller [OF _ _ pair_fresh])

end
