(* ===== verification/Tun.thy ===== *)
theory Tun
  imports NetAddr
begin

text \<open>
  The tunnel devices: src/node/tun/tun_nix.go, which opens an interface of a library and
  configures it with the system's commands, and src/node/tun/tun_win.go, which opens an adapter
  and reads and writes packets through a ring of the Wintun library. The outcome of each command and the answers of the
  library are parameters. The theory shows that the configured route covers exactly the
  addresses that the node forwards, which command failures are survived, and what a
  closed device does.
\<close>

section \<open>Unix\<close>

definition MTU :: nat where "MTU = 1300"

text \<open>
  An interface \<open>'i\<close> of the TUN library: the packet read into a buffer of the given size and
  the bytes written, each or an error; its name; closing it. \<open>NewTun\<close> wraps what
  the library opens, and the methods pass its answers on.
\<close>

record 'i tun_library =
  if_Read :: "nat \<Rightarrow> 'i \<Rightarrow> bytes option \<times> 'i"
  if_Write :: "bytes \<Rightarrow> 'i \<Rightarrow> nat option \<times> 'i"
  if_Name :: "'i \<Rightarrow> string"
  if_Close :: "'i \<Rightarrow> bool \<times> 'i"

record 'i NixTun =
  ifce :: 'i

definition nix_NewTun :: "'i option \<Rightarrow> 'i NixTun option" where
  "nix_NewTun opened = (case opened of None \<Rightarrow> None | Some i \<Rightarrow> Some \<lparr>ifce = i\<rparr>)"

definition nix_Read :: "'i tun_library \<Rightarrow> nat \<Rightarrow> 'i NixTun \<Rightarrow> bytes option \<times> 'i NixTun" where
  "nix_Read T n t = (let (r, i) = if_Read T n (ifce t) in (r, t\<lparr>ifce := i\<rparr>))"

definition nix_Write :: "'i tun_library \<Rightarrow> bytes \<Rightarrow> 'i NixTun \<Rightarrow> nat option \<times> 'i NixTun" where
  "nix_Write T b t = (let (r, i) = if_Write T b (ifce t) in (r, t\<lparr>ifce := i\<rparr>))"

definition nix_Name :: "'i tun_library \<Rightarrow> 'i NixTun \<Rightarrow> string" where
  "nix_Name T t = if_Name T (ifce t)"

definition nix_Close :: "'i tun_library \<Rightarrow> 'i NixTun \<Rightarrow> bool \<times> 'i NixTun" where
  "nix_Close T t = (let (ok, i) = if_Close T (ifce t) in (ok, t\<lparr>ifce := i\<rparr>))"

definition nix_MTU :: nat where "nix_MTU = MTU"

text \<open>A command line and the commands run so far.\<close>

type_synonym argv = "string list"

definition run_command :: "(argv \<Rightarrow> bool) \<Rightarrow> argv \<Rightarrow> argv list \<Rightarrow> bool \<times> argv list" where
  "run_command exec c cs = (exec c, cs @ [c])"

definition ip_mtu :: "string \<Rightarrow> argv" where
  "ip_mtu name = [''/sbin/ip'', ''link'', ''set'', ''dev'', name, ''mtu'', ''1400'']"

definition ip_addr :: "ip6_text \<Rightarrow> string \<Rightarrow> Prefix \<Rightarrow> argv" where
  "ip_addr ip6 name addr =
     [''/sbin/ip'', ''addr'', ''add'', addr_String ip6 (pAddr addr) @ ''/32'', ''dev'', name]"

definition ip_up :: "string \<Rightarrow> argv" where
  "ip_up name = [''/sbin/ip'', ''link'', ''set'', ''dev'', name, ''up'']"

definition ip_route :: "ip6_text \<Rightarrow> Prefix \<Rightarrow> argv" where
  "ip_route ip6 addr =
     [''/sbin/ip'', ''route'', ''add'', prefix_String ip6 (Masked addr), ''via'', addr_String ip6 (pAddr addr)]"

definition ifconfig :: "ip6_text \<Rightarrow> string \<Rightarrow> Prefix \<Rightarrow> argv" where
  "ifconfig ip6 name addr =
     [''/sbin/ifconfig'', name, ''mtu'', ''1400'', addr_String ip6 (pAddr addr), addr_String ip6 (pAddr addr), ''up'']"

definition darwin_route :: "ip6_text \<Rightarrow> Prefix \<Rightarrow> argv" where
  "darwin_route ip6 addr =
     [''/sbin/route'', ''-n'', ''add'', ''-net'', prefix_String ip6 (Masked addr), addr_String ip6 (pAddr addr)]"

text \<open>
  The commands of one system in their order. A failure is returned as an error
  (\<open>False\<close>), except that of the last command, the route, which ends the process.
\<close>

fun run_all :: "(argv \<Rightarrow> bool) \<Rightarrow> argv list \<Rightarrow> argv list \<Rightarrow> (bool \<times> argv list) outcome" where
  "run_all exec [] cs = Ret (True, cs)"
| "run_all exec (c # rest) cs =
     (let (ok, cs) = run_command exec c cs
      in if ok then run_all exec rest cs
         else if rest = [] then Panic ''route add error'' else Ret (False, cs))"

definition linux_commands :: "ip6_text \<Rightarrow> string \<Rightarrow> Prefix \<Rightarrow> argv list" where
  "linux_commands ip6 name addr = [ip_mtu name, ip_addr ip6 name addr, ip_up name, ip_route ip6 addr]"

definition ConfigureIPAddress ::
  "ip6_text \<Rightarrow> string \<Rightarrow> (argv \<Rightarrow> bool) \<Rightarrow> string \<Rightarrow> Prefix \<Rightarrow> (bool \<times> argv list) outcome" where
  "ConfigureIPAddress ip6 goos exec name addr =
     (if goos = ''linux'' then
        run_all exec (linux_commands ip6 name addr) []
      else if goos = ''darwin'' then run_all exec [ifconfig ip6 name addr, darwin_route ip6 addr] []
      else Ret (False, []))"

section \<open>The routed network\<close>

lemma drop_mask: "drop_bit k (push_bit k (drop_bit k (v :: 'a::len word))) = drop_bit k v"
  by (rule bit_word_eqI) (auto simp: bit_push_bit_iff bit_drop_bit_eq dest: bit_imp_le_length)

lemma Contains_Masked:
  assumes "pAddr p = Addr4 v" and "pBits p \<le> 32"
  shows "Contains (Masked p) a = Contains p a"
proof (cases a)
  case (Addr4 w)
  have "Contains (Masked p) (Addr4 w) \<longleftrightarrow>
      drop_bit (32 - pBits p) (push_bit (32 - pBits p) (drop_bit (32 - pBits p) v)) = drop_bit (32 - pBits p) w"
    using Contains4 [of "Masked p" "push_bit (32 - pBits p) (drop_bit (32 - pBits p) v)" w] assms by (simp add: Masked_def)
  also have "\<dots> \<longleftrightarrow> Contains p (Addr4 w)" unfolding drop_mask using Contains4 [OF assms(2,1)] by simp
  finally show ?thesis by (simp add: Addr4)
qed (use assms in \<open>simp_all add: Contains_def Masked_def\<close>)

section \<open>Windows\<close>

text \<open>
  The state of a Wintun device: whether it was closed, whether the session was ended and
  the adapter closed, and the packets handed to the session. What the session
  answers when it is asked for a packet or for room is an argument.
\<close>

record wintun =
  wclosed :: bool
  once_done :: bool
  adapter_closed :: nat
  session_out :: "bytes list"

datatype rx_answer = RxPacket bytes | NoMoreItems | RxEOF | InvalidData | RxOther

datatype tx_answer = TxRoom | TxEOF | BufferOverflow | TxOther

datatype tun_error = ErrClosed | InvalidDataError | ReadFailed | SendBufferFull | WriteFailed

definition NewWinTun :: wintun where
  "NewWinTun = \<lparr>wclosed = False, once_done = False, adapter_closed = 0, session_out = []\<rparr>"

text \<open>
  Opening a device: the adapter is created, then its session is started; if that fails, the
  adapter is closed again. The second component counts the adapters that stay open.
\<close>

datatype open_error = NoAdapter | NoSession

definition win_NewTun :: "bool \<Rightarrow> bool \<Rightarrow> (open_error + wintun) \<times> nat" where
  "win_NewTun created started =
     (if \<not> created then (Inl NoAdapter, 0)
      else let adapters = 1
           in if \<not> started then (Inl NoSession, adapters - 1) else (Inr NewWinTun, adapters))"

definition win_Name :: string where "win_Name = ''WintunTestAdp''"

definition win_MTU :: nat where "win_MTU = 1400"

text \<open>
  The loop behind \<open>retry\<close>: an entry is whether the device is closed when the loop
  looks and what \<open>ReceivePacket\<close> then answers. An empty ring waits for the event and
  tries again; at the end of the input it is waiting. A packet is copied as far as the
  buffer of the caller reaches.
\<close>

fun win_retry :: "nat \<Rightarrow> (bool \<times> rx_answer) list \<Rightarrow> (tun_error + bytes) outcome" where
  "win_retry n [] = Block"
| "win_retry n ((closed, a) # as) =
     (if closed then Ret (Inl ErrClosed)
      else case a of
             RxPacket p \<Rightarrow> Ret (Inr (take n p))
           | NoMoreItems \<Rightarrow> win_retry n as
           | RxEOF \<Rightarrow> Ret (Inl ErrClosed)
           | InvalidData \<Rightarrow> Ret (Inl InvalidDataError)
           | RxOther \<Rightarrow> Ret (Inl ReadFailed))"

definition win_Read :: "nat \<Rightarrow> (bool \<times> rx_answer) list \<Rightarrow> wintun \<Rightarrow> (tun_error + bytes) outcome" where
  "win_Read n as t = (if wclosed t then Ret (Inl ErrClosed) else win_retry n as)"

definition win_Write :: "tx_answer \<Rightarrow> bytes \<Rightarrow> wintun \<Rightarrow> (tun_error + nat) \<times> wintun" where
  "win_Write a b t =
     (if wclosed t then (Inl ErrClosed, t)
      else case a of
             TxRoom \<Rightarrow> (Inr (length b), t\<lparr>session_out := session_out t @ [b]\<rparr>)
           | TxEOF \<Rightarrow> (Inl ErrClosed, t)
           | BufferOverflow \<Rightarrow> (Inl SendBufferFull, t)
           | TxOther \<Rightarrow> (Inl WriteFailed, t))"

text \<open>\<open>Close\<close> acts once; the result of closing the adapter is the argument.\<close>

definition win_Close :: "bool \<Rightarrow> wintun \<Rightarrow> bool \<times> wintun" where
  "win_Close adapter_ok t =
     (if once_done t then (True, t)
      else (adapter_ok, t\<lparr>wclosed := True, once_done := True, adapter_closed := adapter_closed t + 1\<rparr>))"

definition win_LUID :: "64 word \<Rightarrow> wintun \<Rightarrow> 64 word" where
  "win_LUID luid t = (if wclosed t then 0 else luid)"

definition win_ConfigureIPAddress :: "(64 word \<Rightarrow> Prefix \<Rightarrow> bool) \<Rightarrow> 64 word \<Rightarrow> Prefix \<Rightarrow> wintun \<Rightarrow> bool" where
  "win_ConfigureIPAddress AddIPAddress luid addr t = AddIPAddress (win_LUID luid t) addr"

datatype win_event = WWrite tx_answer bytes | WClose bool

fun win_step :: "win_event \<Rightarrow> wintun \<Rightarrow> wintun" where
  "win_step (WWrite a b) t = snd (win_Write a b t)"
| "win_step (WClose r) t = snd (win_Close r t)"

lemma win_closed_step:
  "wclosed t \<and> once_done t \<Longrightarrow> win_step e t = t"
  by (cases e) (simp_all add: win_Write_def win_Close_def)

lemma win_run_closed: "wclosed t \<and> once_done t \<Longrightarrow> fold win_step es t = t"
  by (induction es) (simp_all add: win_closed_step)

lemma win_run_inv:
  "wclosed t = once_done t \<and> adapter_closed t = (if once_done t then 1 else 0) \<Longrightarrow>
     wclosed (fold win_step es t) = once_done (fold win_step es t) \<and>
     adapter_closed (fold win_step es t) = (if once_done (fold win_step es t) then 1 else 0)"
proof (induction es arbitrary: t)
  case (Cons e es)
  have "wclosed (win_step e t) = once_done (win_step e t) \<and> adapter_closed (win_step e t) = (if once_done (win_step e t) then 1 else 0)"
    using Cons.prems by (cases e) (auto simp: win_Write_def win_Close_def split: tx_answer.splits)
  from Cons.IH [OF this] show ?case by simp
qed simp

text \<open>An adapter stays open exactly when a device is returned, and closing that device closes it.\<close>

lemma win_NewTun_adapters:
  "snd (win_NewTun c s) = (case fst (win_NewTun c s) of Inl _ \<Rightarrow> 0 | Inr t \<Rightarrow> 1)"
  "fst (win_NewTun c s) = Inr t \<Longrightarrow> adapter_closed (snd (win_Close r t)) = snd (win_NewTun c s)"
  by (auto simp: win_NewTun_def Let_def win_Close_def NewWinTun_def split: if_splits)

section \<open>Properties\<close>

text \<open>What running a list of commands up to the first failure means, without the recursion.\<close>

definition stops_at_failure :: "(argv \<Rightarrow> bool) \<Rightarrow> argv list \<Rightarrow> (bool \<times> argv list) outcome \<Rightarrow> bool" where
  "stops_at_failure exec cs r \<longleftrightarrow>
     (\<exists>k \<le> length cs. (\<forall>i < k. exec (cs ! i)) \<and> (k < length cs \<longrightarrow> \<not> exec (cs ! k)) \<and>
        r = (if k = length cs then Ret (True, cs)
             else if k + 1 = length cs then Panic ''route add error''
             else Ret (False, take (k + 1) cs)))"

lemma stops_at_failure_unique:
  assumes "stops_at_failure exec cs r" and "stops_at_failure exec cs r'"
  shows "r = r'"
proof -
  from assms obtain k k' where "k \<le> length cs" "\<forall>i < k. exec (cs ! i)" "k < length cs \<longrightarrow> \<not> exec (cs ! k)"
    and "k' \<le> length cs" "\<forall>i < k'. exec (cs ! i)" "k' < length cs \<longrightarrow> \<not> exec (cs ! k')"
    and r: "r = (if k = length cs then Ret (True, cs) else if k + 1 = length cs then Panic ''route add error''
             else Ret (False, take (k + 1) cs))"
      "r' = (if k' = length cs then Ret (True, cs) else if k' + 1 = length cs then Panic ''route add error''
             else Ret (False, take (k' + 1) cs))"
    unfolding stops_at_failure_def by blast
  then have "k = k'" by (metis le_less_trans linorder_neqE_nat order_less_le)
  with r show ?thesis by simp
qed

lemma run_all_cases:
  "\<exists>k \<le> length cs. (\<forall>i < k. exec (cs ! i)) \<and> (k < length cs \<longrightarrow> \<not> exec (cs ! k)) \<and>
     run_all exec cs ds =
       (if k = length cs then Ret (True, ds @ cs)
        else if k + 1 = length cs then Panic ''route add error'' else Ret (False, ds @ take (k + 1) cs))"
proof (induction cs arbitrary: ds)
  case (Cons c rest)
  show ?case
  proof (cases "exec c")
    case True
    from Cons.IH [of "ds @ [c]"] obtain k where k: "k \<le> length rest" "\<forall>i < k. exec (rest ! i)" "k < length rest \<longrightarrow> \<not> exec (rest ! k)"
      "run_all exec rest (ds @ [c]) = (if k = length rest then Ret (True, (ds @ [c]) @ rest)
         else if k + 1 = length rest then Panic ''route add error'' else Ret (False, (ds @ [c]) @ take (k + 1) rest))" by blast
    have "exec ((c # rest) ! i)" if "i < Suc k" for i using that True k(2) by (cases i) simp_all
    with True k show ?thesis by (intro exI [of _ "Suc k"]) (simp add: run_command_def)
  qed (auto intro!: exI [of _ 0] simp: run_command_def)
qed simp

lemma stops_at_failure_iff: "stops_at_failure exec cs r \<longleftrightarrow> r = run_all exec cs []"
proof -
  have "stops_at_failure exec cs (run_all exec cs [])"
    using run_all_cases [of cs exec "[]"] unfolding stops_at_failure_def append_Nil .
  then show ?thesis using stops_at_failure_unique by blast
qed

text \<open>
  C40 (functional). What \<open>ConfigureIPAddress\<close> runs on Linux, for an IPv4 address and any outcome
  of the commands: in this order it sets the MTU of the device to 1400, adds an address to the
  device, brings it up and adds a route, with exactly these arguments. The address text parses to
  the node's address as a single host; the network of the route parses to one that contains
  exactly the addresses to which the node forwards packets; its gateway is the node's address. The
  commands run up to the first that fails; a failure is returned as an error with the earlier
  commands in effect, but that of the route ends the process.
\<close>

theorem ConfigureIPAddress_linux:
  assumes "pAddr addr = Addr4 v" and "pBits addr \<le> 32"
  shows "\<exists>host net gw N. netip_ParsePrefix ip6 host = Some \<lparr>pAddr = pAddr addr, pBits = 32\<rparr> \<and>
     netip_ParsePrefix ip6 net = Some N \<and> (\<forall>a. Contains N a = Contains (Masked addr) a \<and> Contains N a = Contains addr a) \<and>
     netip_ParseAddr ip6 gw = Some (pAddr addr) \<and>
     stops_at_failure exec
       [[''/sbin/ip'', ''link'', ''set'', ''dev'', name, ''mtu'', ''1400''],
        [''/sbin/ip'', ''addr'', ''add'', host, ''dev'', name],
        [''/sbin/ip'', ''link'', ''set'', ''dev'', name, ''up''],
        [''/sbin/ip'', ''route'', ''add'', net, ''via'', gw]]
       (ConfigureIPAddress ip6 ''linux'' exec name addr)"
proof -
  let ?host = "addr_String ip6 (pAddr addr) @ ''/32''" and ?net = "prefix_String ip6 (Masked addr)"
    and ?gw = "addr_String ip6 (pAddr addr)"
  have t: "''/32'' = CHR ''/'' # dec_string 32" by code_simp
  have host: "netip_ParsePrefix ip6 ?host = Some \<lparr>pAddr = pAddr addr, pBits = 32\<rparr>"
    using ParsePrefix_string4 [of 32 ip6 v] assms(1) unfolding t by (simp add: addr_String_def)
  have m: "pAddr (Masked addr) = Addr4 (push_bit (32 - pBits addr) (drop_bit (32 - pBits addr) v))"
    using assms(1) by (simp add: Masked_def)
  have net: "netip_ParsePrefix ip6 ?net = Some (Masked addr)"
    using ParsePrefix_string4 [of "pBits addr" ip6 "push_bit (32 - pBits addr) (drop_bit (32 - pBits addr) v)"] assms m
    by (simp add: prefix_String_def addr_String_def Masked_def)
  have gw: "netip_ParseAddr ip6 ?gw = Some (pAddr addr)" using assms(1) by (simp add: addr_String_def)
  have "stops_at_failure exec
       [[''/sbin/ip'', ''link'', ''set'', ''dev'', name, ''mtu'', ''1400''],
        [''/sbin/ip'', ''addr'', ''add'', ?host, ''dev'', name],
        [''/sbin/ip'', ''link'', ''set'', ''dev'', name, ''up''],
        [''/sbin/ip'', ''route'', ''add'', ?net, ''via'', ?gw]]
       (ConfigureIPAddress ip6 ''linux'' exec name addr)"
    by (simp add: stops_at_failure_iff ConfigureIPAddress_def linux_commands_def ip_mtu_def ip_addr_def ip_up_def ip_route_def)
  with host net gw Contains_Masked [OF assms] show ?thesis by blast
qed

theorem ConfigureIPAddress_linux_witness:
  "\<exists>host net gw. ConfigureIPAddress \<lparr>parse6 = (\<lambda>_. None), string6 = (\<lambda>_ _. [])\<rparr> ''linux'' (\<lambda>c. c ! 2 \<noteq> ''add'' \<or> c ! 1 = ''addr'') ''tun0''
       \<lparr>pAddr = Addr4 0x64460005, pBits = 24\<rparr> = Panic ''route add error'' \<and>
     netip_ParsePrefix \<lparr>parse6 = (\<lambda>_. None), string6 = (\<lambda>_ _. [])\<rparr> host = Some \<lparr>pAddr = Addr4 0x64460005, pBits = 32\<rparr> \<and>
     netip_ParseAddr \<lparr>parse6 = (\<lambda>_. None), string6 = (\<lambda>_ _. [])\<rparr> gw = Some (Addr4 0x64460005)"
proof -
  let ?p = "\<lparr>pAddr = Addr4 0x64460005, pBits = 24\<rparr>" and ?ip6 = "\<lparr>parse6 = (\<lambda>_. None), string6 = (\<lambda>_ _. [])\<rparr>"
  let ?exec = "\<lambda>c :: argv. c ! 2 \<noteq> ''add'' \<or> c ! 1 = ''addr''"
  have "pAddr ?p = Addr4 0x64460005" "pBits ?p \<le> 32" by simp_all
  from ConfigureIPAddress_linux [OF this, of ?ip6 ?exec "''tun0''"] show ?thesis
    by (auto simp: stops_at_failure_iff run_command_def)
qed

text \<open>
  A Windows device that was closed stays closed: every later read
  reports \<open>ErrClosed\<close> without asking the session, every later write reports it and
  hands nothing to the session, and closing again does nothing, so that the adapter is
  closed exactly once, however reads, writes and closes are ordered.
\<close>

lemma closed_tunnel_stays_closed:
  assumes "fold win_step (es @ WClose r # fs) NewWinTun = t"
  shows "win_Read n as t = Ret (Inl ErrClosed) \<and> win_Write a b t = (Inl ErrClosed, t) \<and>
     win_Close r' t = (True, t) \<and> adapter_closed t = 1 \<and>
     session_out t = session_out (fold win_step es NewWinTun)"
proof -
  have inv: "wclosed (fold win_step es NewWinTun) = once_done (fold win_step es NewWinTun) \<and>
      adapter_closed (fold win_step es NewWinTun) = (if once_done (fold win_step es NewWinTun) then 1 else 0)"
    using win_run_inv [of NewWinTun es] by (simp add: NewWinTun_def)
  have "fold win_step fs (win_step (WClose r) (fold win_step es NewWinTun)) = win_step (WClose r) (fold win_step es NewWinTun)"
    using inv by (intro win_run_closed) (simp add: win_Close_def)
  then have "t = win_step (WClose r) (fold win_step es NewWinTun)" using assms by simp
  with inv show ?thesis by (simp add: win_Close_def win_Read_def win_Write_def)
qed

lemma closed_tunnel_stays_closed_example:
  "win_Write TxRoom [1, 2] (fold win_step ([WWrite TxRoom [7]] @ WClose True # [WWrite TxRoom [8], WClose False]) NewWinTun) =
     (Inl ErrClosed, fold win_step ([WWrite TxRoom [7]] @ WClose True # [WWrite TxRoom [8], WClose False]) NewWinTun)"
  using closed_tunnel_stays_closed [OF refl] by blast

end
