(* ===== verification/Sockets.thy ===== *)
theory Sockets
  imports NetAddr
begin

text \<open>
  The node's UDP socket (src/node/conn): \<open>NewConn\<close> in its two builds, the one for Unix
  (src/node/conn/conn_unix.go), which sets an option on the socket before it is bound, and the
  one for other systems (src/node/conn/conn_default.go), and the methods of \<open>Conn\<close>
  (src/node/conn/conn.go). The operating system's sockets are parameters. The theory shows
  when the two builds open the same socket and that the methods pass on what the socket answers.
\<close>

section \<open>Sockets of the system\<close>

definition UDPType :: string where "UDPType = ''udp4''"

text \<open>
  The calls on an open socket \<open>'s\<close>: the bytes read and their source, or an error (\<open>None\<close>);
  the number of bytes written; its own address; closing it; setting a deadline.
\<close>

record 's udp_calls =
  uc_ReadFromUDP :: "nat \<Rightarrow> 's \<Rightarrow> (bytes \<times> UDPAddr) option \<times> 's"
  uc_WriteToUDP :: "bytes \<Rightarrow> UDPAddr option \<Rightarrow> 's \<Rightarrow> nat option \<times> 's"
  uc_LocalAddr :: "'s \<Rightarrow> UDPAddr"
  uc_Close :: "'s \<Rightarrow> bool \<times> 's"
  uc_SetReadDeadline :: "int \<Rightarrow> 's \<Rightarrow> bool \<times> 's"

datatype 's packet_conn = UDPConn 's | OtherConn

text \<open>
  Opening a socket: whether \<open>RawConn.Control\<close> gets at the file descriptor, whether the option
  can be set, the socket bound to an address of a network, if that succeeds, and how
  \<open>ResolveUDPAddr\<close> reads the address.
\<close>

record 's udp_system =
  raw_control :: bool
  setsockopt_reuseport :: bool
  ListenPacket :: "string \<Rightarrow> UDPAddr \<Rightarrow> 's packet_conn option"
  ResolveAddr :: "string \<Rightarrow> string \<Rightarrow> UDPAddr option"

section \<open>NewConn\<close>

record 's Conn =
  uc :: 's

datatype conn_error = OptionError | ResolveError | ListenError | CastError

definition listen_text :: "u16 \<Rightarrow> string" where
  "listen_text p = ''0.0.0.0:'' @ dec_string (unat p)"

text \<open>The control function: an error of \<open>Control\<close> itself comes first. True: no error.\<close>

definition control_function :: "'s udp_system \<Rightarrow> bool" where
  "control_function S = (if \<not> raw_control S then False else setsockopt_reuseport S)"

text \<open>\<open>ListenConfig.ListenPacket\<close> resolves the address, runs the control function and binds.\<close>

definition NewConn_unix :: "'s udp_system \<Rightarrow> u16 \<Rightarrow> conn_error + 's Conn" where
  "NewConn_unix S p =
     (case ResolveAddr S UDPType (listen_text p) of
        None \<Rightarrow> Inl ResolveError
      | Some laddr \<Rightarrow>
          if \<not> control_function S then Inl OptionError
          else case ListenPacket S UDPType laddr of
                 None \<Rightarrow> Inl ListenError
               | Some OtherConn \<Rightarrow> Inl CastError
               | Some (UDPConn s) \<Rightarrow> Inr \<lparr>uc = s\<rparr>)"

text \<open>\<open>ListenUDP\<close> binds without a control function and has the concrete type.\<close>

definition NewConn_default :: "'s udp_system \<Rightarrow> u16 \<Rightarrow> conn_error + 's Conn" where
  "NewConn_default S p =
     (case ResolveAddr S UDPType (listen_text p) of
        None \<Rightarrow> Inl ResolveError
      | Some laddr \<Rightarrow>
          (case ListenPacket S UDPType laddr of
             Some (UDPConn s) \<Rightarrow> Inr \<lparr>uc = s\<rparr>
           | _ \<Rightarrow> Inl ListenError))"

section \<open>Methods\<close>

definition conn_WriteToUDP :: "'s udp_calls \<Rightarrow> bytes \<Rightarrow> UDPAddr option \<Rightarrow> 's Conn \<Rightarrow> nat option \<times> 's Conn" where
  "conn_WriteToUDP C b addr conn = (let (n, s) = uc_WriteToUDP C b addr (uc conn) in (n, conn\<lparr>uc := s\<rparr>))"

definition conn_ReadFromUDP :: "'s udp_calls \<Rightarrow> nat \<Rightarrow> 's Conn \<Rightarrow> (bytes \<times> UDPAddr) option \<times> 's Conn" where
  "conn_ReadFromUDP C n conn = (let (r, s) = uc_ReadFromUDP C n (uc conn) in (r, conn\<lparr>uc := s\<rparr>))"

definition conn_LocalAddr :: "'s udp_calls \<Rightarrow> 's Conn \<Rightarrow> UDPAddr" where
  "conn_LocalAddr C conn = uc_LocalAddr C (uc conn)"

definition conn_Close :: "'s udp_calls \<Rightarrow> 's Conn \<Rightarrow> bool \<times> 's Conn" where
  "conn_Close C conn = (let (ok, s) = uc_Close C (uc conn) in (ok, conn\<lparr>uc := s\<rparr>))"

definition conn_SetReadDeadline :: "'s udp_calls \<Rightarrow> int \<Rightarrow> 's Conn \<Rightarrow> bool \<times> 's Conn" where
  "conn_SetReadDeadline C t conn = (let (ok, s) = uc_SetReadDeadline C t (uc conn) in (ok, conn\<lparr>uc := s\<rparr>))"

section \<open>The builds agree\<close>

text \<open>
  A resolver that reads literal addresses, as package net does: the text that \<open>NewConn\<close>
  builds always names the given port on every local address.
\<close>

definition resolves_literals :: "ip6_text \<Rightarrow> 's udp_system \<Rightarrow> bool" where
  "resolves_literals ip6 S \<longleftrightarrow>
     (\<forall>t v n. netip_ParseAddrPort ip6 t = Some \<lparr>apAddr = Addr4 v, apPort = n\<rparr> \<longrightarrow>
        (\<exists>ip. ResolveAddr S UDPType t = Some \<lparr>uIP = ip, uPort = n\<rparr> \<and> IP_Equal ip (put_be 4 v)))"

lemma listen_text_resolves:
  assumes "resolves_literals ip6 S"
  obtains ip where "ResolveAddr S UDPType (listen_text p) = Some \<lparr>uIP = ip, uPort = p\<rparr>" "IP_Equal ip [0, 0, 0, 0]"
proof -
  have "string4 0 = ''0.0.0.0''" by code_simp
  then have "netip_ParseAddrPort ip6 (listen_text p) = Some \<lparr>apAddr = Addr4 0, apPort = p\<rparr>"
    using ParseAddrPort_string4 [of ip6 0 p] by (simp add: listen_text_def)
  then obtain ip where "ResolveAddr S UDPType (listen_text p) = Some \<lparr>uIP = ip, uPort = p\<rparr>" "IP_Equal ip (put_be 4 (0 :: u32))"
    using assms unfolding resolves_literals_def by blast
  then show thesis by (intro that) (simp_all add: put_be_4)
qed

text \<open>
  Every port number is one that \<open>NewConn\<close> can ask for. Where the option can be set, the two
  builds give the same connection or both fail; where it cannot, the Unix build fails before
  anything is bound.
\<close>

lemma NewConn_builds:
  assumes "resolves_literals ip6 S"
  shows "\<exists>ip. IP_Equal ip [0, 0, 0, 0] \<and>
    NewConn_unix S p =
    (if raw_control S \<and> setsockopt_reuseport S
     then (case ListenPacket S UDPType \<lparr>uIP = ip, uPort = p\<rparr> of
             Some OtherConn \<Rightarrow> Inl CastError | _ \<Rightarrow> NewConn_default S p)
     else Inl OptionError)"
proof -
  obtain ip where ip: "ResolveAddr S UDPType (listen_text p) = Some \<lparr>uIP = ip, uPort = p\<rparr>" "IP_Equal ip [0, 0, 0, 0]"
    by (rule listen_text_resolves [OF assms])
  then show ?thesis
    by (intro exI [of _ ip]) (simp add: NewConn_unix_def NewConn_default_def control_function_def split: option.split packet_conn.split)
qed

text \<open>The methods pass on the results of the socket and keep its new state.\<close>

lemma conn_methods:
  "fst (conn_WriteToUDP C b a c) = fst (uc_WriteToUDP C b a (uc c))"
  "uc (snd (conn_WriteToUDP C b a c)) = snd (uc_WriteToUDP C b a (uc c))"
  "fst (conn_ReadFromUDP C n c) = fst (uc_ReadFromUDP C n (uc c))"
  "uc (snd (conn_ReadFromUDP C n c)) = snd (uc_ReadFromUDP C n (uc c))"
  by (simp_all add: conn_WriteToUDP_def conn_ReadFromUDP_def case_prod_beta)

end
