(* ===== verification/Commands.thy ===== *)
theory Commands
  imports NodeSetup
begin

text \<open>
  The commands \<open>login\<close>, \<open>up\<close> and \<open>down\<close> of the node's command line (src/node/cmd/service.go)
  and the login in the browser (src/node/authflow.go): what they ask of the running service
  and how they end. The service is an argument, a function on its state \<open>'n\<close>; the browser, the
  HTTP listener and the OAuth library are the record \<open>browser\<close>.
\<close>

section \<open>Login in the browser\<close>

text \<open>What the OAuth library is configured with: an endpoint is its two addresses.\<close>

record oauth_config =
  oc_ClientID :: string
  oc_AuthURL :: string
  oc_TokenURL :: string
  oc_RedirectURL :: string
  oc_Scopes :: "string list"

definition auth_config :: "pb_PKCEAuthInfo \<Rightarrow> oauth_config" where
  "auth_config info = \<lparr>oc_ClientID = pk_ClientId info, oc_AuthURL = pk_AuthEndpoint info, oc_TokenURL = pk_TokenEndpoint info,
     oc_RedirectURL = pk_RedirectUri info, oc_Scopes = [''openid profile email offline_access'']\<rparr>"

text \<open>
  The library's verifier and its address for a configuration, a state, a verifier and
  further parameters; the port in the redirect address, whether the listener opens, the
  \<open>code\<close> parameter of the request that the browser sends after it opened an address (\<open>None\<close>: it
  never comes) and the access token for which the library exchanges code and verifier.
\<close>

record browser =
  verifier :: string
  AuthCodeURL :: "oauth_config \<Rightarrow> string \<Rightarrow> string \<Rightarrow> (string \<times> string) list \<Rightarrow> string"
  redirect_port :: "string \<Rightarrow> string option"
  listens :: "string \<Rightarrow> bool"
  request_code :: "string \<Rightarrow> string option"
  Exchange :: "oauth_config \<Rightarrow> string \<Rightarrow> string \<Rightarrow> string option"

datatype flow_error = BadRedirect | CannotListen

definition auth_url :: "browser \<Rightarrow> pb_PKCEAuthInfo \<Rightarrow> string" where
  "auth_url B info = AuthCodeURL B (auth_config info) ''state'' (verifier B) [(''audience'', pk_Audience info)]"

text \<open>
  The handler stores the token in a package variable, nil until then; on a missing code
  and on a failed exchange it closes the server and leaves the variable nil, and the
  function then reads the access token out of it.
\<close>

definition auth_handler :: "browser \<Rightarrow> pb_PKCEAuthInfo \<Rightarrow> string \<Rightarrow> string option" where
  "auth_handler B info code = (if code = [] then None else Exchange B (auth_config info) code (verifier B))"

definition AuthFlow :: "browser \<Rightarrow> pb_PKCEAuthInfo \<Rightarrow> (flow_error + string) outcome" where
  "AuthFlow B info =
     (case redirect_port B (pk_RedirectUri info) of
        None \<Rightarrow> Ret (Inl BadRedirect)
      | Some p \<Rightarrow>
          if \<not> listens B (CHR '':'' # p) then Ret (Inl CannotListen)
          else case request_code B (auth_url B info) of
                 None \<Rightarrow> Block
               | Some code \<Rightarrow>
                   (case auth_handler B info code of None \<Rightarrow> nil_deref | Some t \<Rightarrow> Ret (Inr t)))"

section \<open>Commands\<close>

text \<open>
  A command ends normally (\<open>True\<close>) or with a fatal log message (\<open>False\<close>). The second
  answer to a login is looked at only for an error.
\<close>

definition LoginCommand ::
  "bool \<Rightarrow> (string \<Rightarrow> 'n \<Rightarrow> (login_result \<times> 'n) outcome) \<Rightarrow> browser \<Rightarrow> 'n \<Rightarrow> (bool \<times> 'n) outcome" where
  "LoginCommand dial login B n =
     (if \<not> dial then Ret (False, n)
      else obind (login [] n) (\<lambda>(r, n).
        case r of
          LoginError \<Rightarrow> Ret (False, n)
        | LoginSuccessful \<Rightarrow> Ret (True, n)
        | NeedAccessToken info \<Rightarrow>
            obind (AuthFlow B info) (\<lambda>t.
              case t of
                Inl _ \<Rightarrow> Ret (False, n)
              | Inr token \<Rightarrow> obind (login token n) (\<lambda>(r, n). Ret (r \<noteq> LoginError, n)))))"

text \<open>\<open>up\<close> and \<open>down\<close> print the status of the answer.\<close>

definition UpCommand :: "bool \<Rightarrow> ('n \<Rightarrow> (string option \<times> 'n) outcome) \<Rightarrow> 'n \<Rightarrow> (string option \<times> 'n) outcome" where
  "UpCommand dial up n = (if \<not> dial then Ret (None, n) else up n)"

definition DownCommand :: "bool \<Rightarrow> ('n \<Rightarrow> (string option \<times> 'n) outcome) \<Rightarrow> 'n \<Rightarrow> (string option \<times> 'n) outcome" where
  "DownCommand dial down n = (if \<not> dial then Ret (None, n) else down n)"

section \<open>Properties\<close>

lemma AuthFlow_token:
  "redirect_port B (pk_RedirectUri info) = Some p \<Longrightarrow> listens B (CHR '':'' # p) \<Longrightarrow> request_code B (auth_url B info) = Some code \<Longrightarrow>
     code \<noteq> [] \<Longrightarrow> Exchange B (auth_config info) code (verifier B) = Some t \<Longrightarrow> AuthFlow B info = Ret (Inr t)"
  by (simp add: AuthFlow_def auth_handler_def)

lemma AuthFlow_no_code:
  "redirect_port B (pk_RedirectUri info) = Some p \<Longrightarrow> listens B (CHR '':'' # p) \<Longrightarrow> request_code B (auth_url B info) = Some code \<Longrightarrow>
     code = [] \<or> Exchange B (auth_config info) code (verifier B) = None \<Longrightarrow> is_panic (AuthFlow B info)"
  by (auto simp: AuthFlow_def auth_handler_def nil_deref_def)

text \<open>
  The command \<open>login\<close> ends normally although the node is not logged
  in: when the controller refuses the token that the browser brought, just as it
  refused the missing one, the command does not look at the answer. The node is as it
  was before.
\<close>

lemma login_command_hides_refusal:
  assumes "AuthFlow B info = Ret (Inr token)" and "\<not> loggedIn n"
  shows "LoginCommand True (\<lambda>_. node_Login L (LoginStatus (Some Unauthenticated)) (Some info)) B n = Ret (True, n) \<and>
     Up L io n = Ret (None, n)"
  using assms by (simp add: LoginCommand_def node_Login_def Up_def Up_during_def node_Start_def)

definition toy_browser :: browser where
  "toy_browser = \<lparr>verifier = ''v'', AuthCodeURL = (\<lambda>_ _ _ _. ''url''), redirect_port = (\<lambda>_. Some ''8090''), listens = (\<lambda>_. True), request_code = (\<lambda>_. Some ''code''),
     Exchange = (\<lambda>_ _ _. Some ''a@b'')\<rparr>"

lemma toy_browser_token: "AuthFlow toy_browser info = Ret (Inr ''a@b'')"
  by (simp add: AuthFlow_def auth_handler_def toy_browser_def)

lemma login_command_hides_refusal_example:
  "\<exists>n :: (bool \<times> nat, u64, unit) Node.
     LoginCommand True (\<lambda>_. node_Login toy_libs (LoginStatus (Some Unauthenticated)) (Some (GetPKCEAuthInfo toy_validator)))
       toy_browser n = Ret (True, n) \<and> Up toy_libs toy_start_io n = Ret (None, n)"
proof -
  have "\<not> loggedIn (blank_node () ''m'' ''box'' :: (bool \<times> nat, u64, unit) Node)" by (simp add: blank_node_def)
  from login_command_hides_refusal [OF toy_browser_token this] show ?thesis by blast
qed

end
