(* ===== verification/Service.thy ===== *)
theory Service
  imports Commands
begin

text \<open>
  The node's process (src/node/cmd): the system service and its commands, the service program
  that makes the node and serves the commands of \<open>Commands\<close>, and the root command
  (src/node/cmd/service.go, src/node/cmd/root.go, src/node/cmd/keypair.go). The library for
  system services is a parameter. The theory shows how a process ends: the package variable
  \<open>logger\<close> is set by the root command only, so that under the command \<open>run\<close> every
  message of the serving goroutine ends the process, also the one after an ordinary stop.
\<close>

section \<open>The system service\<close>

record service_config =
  sc_Name :: string
  sc_DisplayName :: string
  sc_Description :: string
  sc_Option :: "(string \<times> string) list"

text \<open>
  The library: making a service, a logger for it, and the requests to the service manager,
  each of which returns an error (\<open>False\<close>) or not. \<open>svc_Run\<close> returns when the process is told to stop.
\<close>

record 's service_library =
  service_New :: "service_config \<Rightarrow> 's option"
  svc_Logger :: "'s \<Rightarrow> bool"
  svc_Run :: "'s \<Rightarrow> bool"
  svc_Start :: "'s \<Rightarrow> bool"
  svc_Stop :: "'s \<Rightarrow> bool"
  svc_Install :: "'s \<Rightarrow> bool"
  svc_Uninstall :: "'s \<Rightarrow> bool"

definition NewService :: "'s service_library \<Rightarrow> 's option" where
  "NewService S = service_New S \<lparr>sc_Name = ''com.zeronet.node.service'', sc_DisplayName = ''Zeronet Node Service'',
     sc_Description = ''Zeronet Node Service'',
     sc_Option = [(''Restart'', ''on-success''), (''SuccessExitStatus'', ''1 2 8 SIGKILL'')]\<rparr>"

text \<open>The commands make the service and pass on one request; any error is fatal.\<close>

definition fatal_unless :: "bool \<Rightarrow> unit outcome" where
  "fatal_unless ok = (if ok then Ret () else Panic ''fatal'')"

definition StartCommand :: "'s service_library \<Rightarrow> unit outcome" where
  "StartCommand S = (case NewService S of None \<Rightarrow> fatal_unless False | Some svc \<Rightarrow> fatal_unless (svc_Start S svc))"

definition RunCommand :: "'s service_library \<Rightarrow> unit outcome" where
  "RunCommand S = (case NewService S of None \<Rightarrow> fatal_unless False | Some svc \<Rightarrow> fatal_unless (svc_Run S svc))"

definition InstallCommand :: "'s service_library \<Rightarrow> unit outcome" where
  "InstallCommand S = (case NewService S of None \<Rightarrow> fatal_unless False | Some svc \<Rightarrow> fatal_unless (svc_Install S svc))"

definition UninstallCommand :: "'s service_library \<Rightarrow> unit outcome" where
  "UninstallCommand S = (case NewService S of None \<Rightarrow> fatal_unless False | Some svc \<Rightarrow> fatal_unless (svc_Uninstall S svc))"

definition StopCommand :: "'s service_library \<Rightarrow> unit outcome" where
  "StopCommand S = (case NewService S of None \<Rightarrow> fatal_unless False | Some svc \<Rightarrow> fatal_unless (svc_Stop S svc))"

text \<open>\<open>generate\<close> makes a key pair and drops it; only an error is printed. True: one was.\<close>

definition GenerateKeypairCommand :: "'kp option \<Rightarrow> bool" where
  "GenerateKeypairCommand gen = (GenerateNewKeypair gen = None)"

text \<open>
  The root command makes a logger as well, whose errors a goroutine prints: \<open>relay_errors\<close> is
  what it prints of the values that the logger sent, nil where a message was delivered.
\<close>

definition RootCommand :: "'s service_library \<Rightarrow> unit outcome" where
  "RootCommand S =
     (case NewService S of
        None \<Rightarrow> fatal_unless False
      | Some svc \<Rightarrow> if \<not> svc_Logger S svc then fatal_unless False else fatal_unless (svc_Run S svc))"

definition relay_errors :: "string option list \<Rightarrow> string list" where
  "relay_errors errs = concat (map (\<lambda>err. case err of None \<Rightarrow> [] | Some m \<Rightarrow> [m]) errs)"

datatype command = CUp | CDown | CInstall | CUninstall | CStart | CRun | CStop | CGenerate | CLogin

definition commands :: "(string \<times> command) list" where
  "commands = [(''up'', CUp), (''down'', CDown), (''install'', CInstall), (''uninstall'', CUninstall), (''start'', CStart),
     (''run'', CRun), (''stop'', CStop), (''generate'', CGenerate), (''login'', CLogin)]"

text \<open>\<open>Execute\<close> prints the error of the command line library and exits with status 1.\<close>

definition Execute :: "bool \<Rightarrow> unit outcome" where
  "Execute ok = (if \<not> ok then Panic ''exit status 1'' else Ret ())"

section \<open>The service program\<close>

text \<open>
  The process: the program of \<open>NewNode\<close> once it was started, and the lines written to
  \<open>logger\<close>, \<open>None\<close> while that variable is nil. Calling a method of a nil interface is
  a nil dereference.
\<close>

record ('hs, 'cs, 'kp) program =
  pnode :: "('hs, 'cs, 'kp) Node"
  serving :: bool

record ('hs, 'cs, 'kp) process =
  prg :: "('hs, 'cs, 'kp) program option"
  plog :: "string list option"

definition logger_Error :: "string \<Rightarrow> ('hs, 'cs, 'kp) process \<Rightarrow> ('hs, 'cs, 'kp) process outcome" where
  "logger_Error m q = (case plog q of None \<Rightarrow> nil_deref | Some ls \<Rightarrow> Ret (q\<lparr>plog := Some (ls @ [m])\<rparr>))"

definition program_Start :: "ip6_text \<Rightarrow> u16 \<Rightarrow> 'kp new_io \<Rightarrow> ('hs, 'cs, 'kp) process \<Rightarrow> ('hs, 'cs, 'kp) process outcome" where
  "program_Start ip6 p io q =
     (case NewNode ip6 p io of
        Inl _ \<Rightarrow> Panic ''fatal''
      | Inr nn \<Rightarrow> Ret (q\<lparr>prg := Some \<lparr>pnode = made nn, serving = False\<rparr>\<rparr>))"

text \<open>
  The goroutine \<open>run\<close>: it listens and serves, and when \<open>Serve\<close> returns it logs every
  result that is not \<open>ErrServerStopped\<close>, nil among them.
\<close>

datatype serve_result = ServeNil | ErrServerStopped | ServeError string

definition run_listen :: "bool \<Rightarrow> ('hs, 'cs, 'kp) process \<Rightarrow> ('hs, 'cs, 'kp) process outcome" where
  "run_listen listening q =
     (if \<not> listening then logger_Error ''listen'' q
      else Ret (q\<lparr>prg := map_option (\<lambda>p. p\<lparr>serving := True\<rparr>) (prg q)\<rparr>))"

definition run_served :: "serve_result \<Rightarrow> ('hs, 'cs, 'kp) process \<Rightarrow> ('hs, 'cs, 'kp) process outcome" where
  "run_served r q =
     (case r of
        ErrServerStopped \<Rightarrow> Ret q
      | ServeNil \<Rightarrow> logger_Error ''<nil>'' q
      | ServeError m \<Rightarrow> logger_Error m q)"

text \<open>\<open>Stop\<close> stops the node and then the server, whatever the first said.\<close>

definition program_Stop :: "('hs, 'cs, 'kp) process \<Rightarrow> (bool \<times> ('hs, 'cs, 'kp) process) outcome" where
  "program_Stop q =
     (case prg q of
        None \<Rightarrow> nil_deref
      | Some p \<Rightarrow> (case node_Stop (pnode p) of (ok, n) \<Rightarrow> Ret (ok, q\<lparr>prg := Some (p\<lparr>pnode := n, serving := False\<rparr>)\<rparr>)))"

section \<open>How a process ends\<close>

text \<open>
  The events of a process. After \<open>Stop\<close> the documented result of \<open>Serve\<close> is nil.
\<close>

datatype process_event = PListen bool | PServed serve_result | PStop

fun process_step :: "process_event \<Rightarrow> ('hs, 'cs, 'kp) process \<Rightarrow> ('hs, 'cs, 'kp) process outcome" where
  "process_step (PListen b) q = run_listen b q"
| "process_step (PServed r) q = run_served r q"
| "process_step PStop q = obind (program_Stop q) (\<lambda>(_, q). Ret q)"

definition by_run :: "('hs, 'cs, 'kp) process" where
  "by_run = \<lparr>prg = None, plog = None\<rparr>"

definition by_root :: "('hs, 'cs, 'kp) process" where
  "by_root = \<lparr>prg = None, plog = Some []\<rparr>"

lemma commands_distinct: "distinct (map fst commands)"
  by (simp add: commands_def)

lemma service_commands_fatal:
  "NewService S = None \<Longrightarrow> is_panic (StartCommand S) \<and> is_panic (RunCommand S) \<and> is_panic (InstallCommand S) \<and>
     is_panic (UninstallCommand S) \<and> is_panic (StopCommand S) \<and> is_panic (RootCommand S)"
  by (simp add: StartCommand_def RunCommand_def InstallCommand_def UninstallCommand_def StopCommand_def RootCommand_def
      fatal_unless_def)

lemma relay_errors_delivered: "relay_errors (replicate n None) = []"
  by (induction n) (simp_all add: relay_errors_def)

text \<open>The logger of the root command is there for the whole run; under \<open>run\<close> there is none.\<close>

lemma process_step_plog:
  assumes "process_step ev q = Ret q'"
  shows "(plog q' = None) = (plog q = None)"
  using assms
  by (cases ev) (auto simp: run_listen_def run_served_def logger_Error_def program_Stop_def obind_eq_Ret nil_deref_def
      split: if_splits option.splits prod.splits serve_result.splits)

interpretation process: preserves process_step "\<lambda>q. (plog q = None) = b" for b
  by unfold_locales (use process_step_plog in blast)

lemma message_without_logger:
  assumes "plog q = None"
  shows "is_panic (process_step (PListen False) q)" and "is_panic (process_step (PServed ServeNil) q)"
    and "is_panic (process_step (PServed (ServeError m)) q)"
  using assms by (simp_all add: run_listen_def run_served_def logger_Error_def nil_deref_def)

text \<open>
  A process of the command \<open>run\<close> that made its node, listened, served and was stopped without an
  error crashes when \<open>Serve\<close> returns; the same process of the root command writes a line that
  says nil. Neither gets over an address that is in use in the same way.
\<close>

lemma stopped_process_crashes:
  assumes "program_Start ip6 pt io by_run = Ret q" and "run_events process_step (es @ [PStop]) q = Ret q'"
  shows "is_panic (process_step (PServed ServeNil) q')"
proof -
  have "plog q = None" using assms(1) by (auto simp: program_Start_def by_run_def split: sum.splits)
  then have "plog q' = None" using process.run_inv [of q True "es @ [PStop]" q'] assms(2) by simp
  then show ?thesis by (rule message_without_logger)
qed

lemma root_process_logs:
  assumes "program_Start ip6 pt io by_root = Ret q" and "run_events process_step es q = Ret q'"
  shows "\<exists>ls. plog q' = Some ls \<and> process_step (PServed ServeNil) q' = Ret (q'\<lparr>plog := Some (ls @ [''<nil>''])\<rparr>)"
proof -
  have "plog q \<noteq> None" using assms(1) by (auto simp: program_Start_def by_root_def split: sum.splits)
  then have "plog q' \<noteq> None" using process.run_inv [of q False es q'] assms(2) by simp
  then show ?thesis by (auto simp: run_served_def logger_Error_def)
qed

end
