(* ===== verification/Registry.thy ===== *)
theory Registry
  imports ControllerOps
begin

text \<open>
  A network from its first machine to its last: what a sequence of registrations
  (\<open>RegisterPeer\<close> of src/controller/controller.go with \<open>AllocatePeerIP\<close> of
  src/controller/db/ipam.go) gives out on an empty table.
\<close>

section \<open>Addresses of a prefix\<close>

lemma unat_plus_of_nat: "unat (v :: u32) + k < 2 ^ 32 \<Longrightarrow> unat (v + of_nat k) = unat v + k"
  by (simp add: unat_word_ariths(1) unat_of_nat take_bit_eq_mod)

text \<open>The host bits of a network address are zero.\<close>

lemma host_bits_zero:
  fixes v :: u32
  assumes "push_bit h (drop_bit h v) = v"
  shows "unat v mod 2 ^ h = 0" "v OR mask h = v + of_nat (2 ^ h - 1)"
proof -
  have "push_bit h (drop_bit h v) + take_bit h v = v" by (rule bits_ident)
  then have t: "take_bit h v = 0" by (simp add: assms)
  then have "unat (take_bit h v) = 0" by simp
  then show "unat v mod 2 ^ h = 0" by (simp only: unsigned_take_bit_eq take_bit_nat_def)
  have "v AND mask h = 0" using t by (simp add: take_bit_eq_mask)
  then have "v + mask h = v OR mask h" by (rule disjunctive_add_eq_or)
  then show "v OR mask h = v + of_nat (2 ^ h - 1)" by (simp add: mask_eq_exp_minus_1 of_nat_diff)
qed

lemma network_fits:
  fixes v :: u32
  assumes "unat v mod 2 ^ h = 0" and "h \<le> 32"
  shows "unat v + 2 ^ h \<le> 2 ^ 32"
proof -
  obtain q where q: "unat v = 2 ^ h * q" using assms(1) by (metis mult_div_mod_eq add.right_neutral)
  have s: "(2 :: nat) ^ 32 = 2 ^ h * 2 ^ (32 - h)" using assms(2) by (simp only: le_add_diff_inverse flip: power_add)
  have "unat v < 2 ^ 32" using unsigned_less [of v, where 'a = nat] by simp
  then have "2 ^ h * q < 2 ^ h * 2 ^ (32 - h)" unfolding q s .
  then have "q + 1 \<le> 2 ^ (32 - h)" by simp
  then have "2 ^ h * (q + 1) \<le> 2 ^ h * (2 :: nat) ^ (32 - h)" by (intro mult_le_mono) simp_all
  then show ?thesis unfolding q s by simp
qed

lemma Contains_number:
  assumes "pBits p \<le> 32" and "pAddr p = Addr4 v" and "unat v mod 2 ^ (32 - pBits p) = 0" and "unat v + k < 2 ^ 32"
  shows "Contains p (Addr4 (v + of_nat k)) \<longleftrightarrow> k < 2 ^ (32 - pBits p)"
proof -
  let ?h = "32 - pBits p"
  obtain q where q: "unat v = 2 ^ ?h * q" using assms(3) by (metis mult_div_mod_eq add.right_neutral)
  have "drop_bit ?h v = drop_bit ?h (v + of_nat k) \<longleftrightarrow> unat v div 2 ^ ?h = (unat v + k) div 2 ^ ?h"
    by (simp add: word_unat_eq_iff unat_drop_bit_eq drop_bit_nat_def unat_plus_of_nat [OF assms(4)])
  also have "\<dots> \<longleftrightarrow> k div 2 ^ ?h = 0" by (simp add: q)
  finally show ?thesis using Contains4 [OF assms(1,2)] by (simp add: div_eq_0_iff)
qed

section \<open>The next address\<close>

lemma RegisterPeer_next:
  assumes "netipx_ok (nxlib sv)" and "gorm_ok (gdb sv)" and "valid_Prefix (prefix c)" and "pAddr (prefix c) = Addr4 v"
    and "ip4_rows (ip6lib sv) (rows (gdb sv) (cdb c))" and "id_free (rows (gdb sv) (cdb c))" and "unat v + k < 2 ^ 32"
    and free: "Addr4 (v + of_nat k) \<notin> set (taken_ips (ip6lib sv) (prefix c) (rows (gdb sv) (cdb c)))"
    and taken: "\<And>i. i < k \<Longrightarrow> Addr4 (v + of_nat i) \<in> set (taken_ips (ip6lib sv) (prefix c) (rows (gdb sv) (cdb c)))"
  obtains p c' where "RegisterPeer sv now req user c = Ret (Inr p, c')"
    "rows (gdb sv) (cdb c') = rows (gdb sv) (cdb c) @ [p]" "ID p \<noteq> 0" "ID p \<notin> ID ` set (rows (gdb sv) (cdb c))"
    "IP p = string4 (v + of_nat k)" "MachineID p = lr_MachineId req" "User p = user" "prefix c' = prefix c"
proof (rule AllocatePeerIP_found [OF assms(1-5)])
  let ?t = "\<lambda>a. a \<in> set (taken_ips (ip6lib sv) (prefix c) (rows (gdb sv) (cdb c)))"
  fix r
  assume r: "AllocatePeerIP (ip6lib sv) (nxlib sv) (gdb sv) (prefix c) (cdb c) = Some (Inr (addr_String (ip6lib sv) r))"
    "first_free ?t v r"
  have le: "v \<le> v + of_nat k" using unat_plus_of_nat [OF assms(7)] by (simp add: word_le_nat_alt)
  with r(2) free obtain w where w: "r = Addr4 w" "v \<le> w" "\<not> ?t (Addr4 w)" "\<not> v + of_nat k < w"
    by (auto simp: first_free_def)
  have "w = v + of_nat (unat w - unat v)" using w(2) by (simp add: word_le_nat_alt of_nat_diff)
  moreover have "unat w - unat v \<le> k"
    using w(4) unat_plus_of_nat [OF assms(7)] by (simp add: word_less_nat_alt)
  ultimately have "w = v + of_nat k" using w(3) taken [of "unat w - unat v"] by (metis le_neq_implies_less)
  then have ip: "addr_String (ip6lib sv) r = string4 (v + of_nat k)" by (simp add: w(1) addr_String_def)
  have fresh: "string4 (v + of_nat k) \<notin> IP ` set (rows (gdb sv) (cdb c))"
    using free by (intro string4_not_stored [of _ "ip6lib sv"]) (simp add: taken_ips_def)
  show thesis
    by (rule RegisterPeer_creates [OF assms(2,6) r(1) [unfolded ip] fresh, of now req user]) (rule that)
qed

lemma id_free_short: "length rs < 2 ^ 32 - 1 \<Longrightarrow> id_free rs"
proof -
  assume "length rs < 2 ^ 32 - 1"
  moreover have "card (insert 0 (ID ` set rs)) \<le> Suc (length rs)"
    by (metis card_insert_le_m1 card_length length_map list.set_map le_SucI card_insert_if finite_set Suc_le_mono)
  ultimately have "card (insert 0 (ID ` set rs)) < CARD(u32)" by (simp add: card_word)
  then have "insert 0 (ID ` set rs) \<noteq> UNIV" by (metis less_irrefl)
  then show ?thesis by (auto simp: id_free_def)
qed

section \<open>Filling a network\<close>

definition reg_step ::
  "('db, 'set) services \<Rightarrow> instant \<times> pb_LoginPeerRequest \<times> string \<Rightarrow> 'db Controller \<Rightarrow> 'db Controller outcome" where
  "reg_step sv e c = (case e of (now, req, user) \<Rightarrow> obind (RegisterPeer sv now req user c) (\<lambda>(r, c). Ret c))"

text \<open>An IPv4 network \<open>v\<close> whose last address is \<open>v + N\<close>, and its first \<open>k\<close> hosts registered.\<close>

definition network :: "Prefix \<Rightarrow> u32 \<Rightarrow> nat \<Rightarrow> bool" where
  "network p v N \<longleftrightarrow> pBits p \<le> 32 \<and> pAddr p = Addr4 v \<and> mask_addr (pBits p) (Addr4 v) = Addr4 v \<and> N + 1 = 2 ^ (32 - pBits p)"

definition handed_out :: "('db, 'set) services \<Rightarrow> Prefix \<Rightarrow> u32 \<Rightarrow> nat \<Rightarrow> 'db Controller \<Rightarrow> bool" where
  "handed_out sv p v k c \<longleftrightarrow> prefix c = p \<and> distinct (map ID (rows (gdb sv) (cdb c))) \<and>
     map IP (rows (gdb sv) (cdb c)) = map (\<lambda>i. string4 (v + of_nat i)) [1..<Suc k]"

lemma networkD:
  assumes "network p v N"
  shows "valid_Prefix p" "unat v mod 2 ^ (32 - pBits p) = 0" "last_addr (pBits p) (Addr4 v) = Addr4 (v + of_nat N)"
    "unat v + N < 2 ^ 32"
proof -
  let ?h = "32 - pBits p"
  have N: "N = 2 ^ ?h - 1" and m: "push_bit ?h (drop_bit ?h v) = v" using assms by (auto simp: network_def)
  show "valid_Prefix p" using assms by (simp add: network_def valid_Prefix_def IsValid_def)
  show z: "unat v mod 2 ^ ?h = 0" by (rule host_bits_zero [OF m])
  show "last_addr (pBits p) (Addr4 v) = Addr4 (v + of_nat N)" using host_bits_zero(2) [OF m] by (simp add: N)
  have "unat v + 2 ^ ?h \<le> 2 ^ 32" by (rule network_fits [OF z]) simp
  then show "unat v + N < 2 ^ 32" using assms by (simp add: network_def flip: power_add)
qed

lemma handed_out_taken:
  assumes "network p v N" and "handed_out sv p v k c"
  shows "set (taken_ips ip6 p (rows (gdb sv) (cdb c))) = (\<lambda>i. Addr4 (v + of_nat i)) ` ({0, N} \<union> {1..k})"
proof -
  have "List.map_filter (netip_ParseAddr ip6) (map (\<lambda>i. string4 (v + of_nat i)) xs) = map (\<lambda>i. Addr4 (v + of_nat i)) xs" for xs
    by (induction xs) (simp_all add: map_filter_simps)
  then have "parsed_ips ip6 (rows (gdb sv) (cdb c)) = map (\<lambda>i. Addr4 (v + of_nat i)) [1..<Suc k]"
    using assms(2) by (simp only: parsed_ips_def handed_out_def)
  moreover have "mask_addr (pBits p) (pAddr p) = Addr4 v" using assms(1) by (simp add: network_def)
  moreover have "last_addr (pBits p) (pAddr p) = Addr4 (v + of_nat N)"
    using assms(1) networkD(3) [OF assms(1)] by (simp add: network_def)
  ultimately show ?thesis by (auto simp: taken_ips_def)
qed

lemma same_number: "unat (v :: u32) + i < 2 ^ 32 \<Longrightarrow> unat v + j < 2 ^ 32 \<Longrightarrow> v + of_nat i = v + of_nat j \<longleftrightarrow> i = j"
  using unat_plus_of_nat [of v i] unat_plus_of_nat [of v j] by (metis add_left_cancel)

text \<open>The next machine gets the next number; behind the last host comes the number after the broadcast address.\<close>

lemma register_next:
  assumes "netipx_ok (nxlib sv)" and "gorm_ok (gdb sv)" and "network p v N" and "handed_out sv p v k c"
    and "m = k + 1 \<and> k + 1 < N \<or> m = N + 1 \<and> k + 1 = N" and "unat v + m < 2 ^ 32"
  obtains q c' where "RegisterPeer sv now req user c = Ret (Inr q, c')" "IP q = string4 (v + of_nat m)"
    "MachineID q = lr_MachineId req" "User q = user" "rows (gdb sv) (cdb c') = rows (gdb sv) (cdb c) @ [q]"
    "m = k + 1 \<Longrightarrow> handed_out sv p v m c'"
proof -
  note net = networkD [OF assms(3)] and taken = handed_out_taken [OF assms(3,4)]
  have c: "prefix c = p" "map IP (rows (gdb sv) (cdb c)) = map (\<lambda>i. string4 (v + of_nat i)) [1..<Suc k]"
    "distinct (map ID (rows (gdb sv) (cdb c)))" using assms(4) by (simp_all add: handed_out_def)
  have len: "length (rows (gdb sv) (cdb c)) = k" using arg_cong [OF c(2), of length] by simp
  have k: "k < 2 ^ 32 - 1" using assms(5) net(4) by auto
  have pv: "valid_Prefix (prefix c)" "pAddr (prefix c) = Addr4 v" using assms(3) net(1) c(1) by (simp_all add: network_def)
  have ip4: "ip4_rows (ip6lib sv) (rows (gdb sv) (cdb c))"
  proof -
    have "a \<in> set (taken_ips (ip6lib sv) p (rows (gdb sv) (cdb c)))" if "a \<in> set (parsed_ips (ip6lib sv) (rows (gdb sv) (cdb c)))" for a
      using that by (simp add: taken_ips_def)
    then show ?thesis unfolding ip4_rows_def list_all_iff taken by fastforce
  qed
  have free: "Addr4 (v + of_nat m) \<notin> set (taken_ips (ip6lib sv) (prefix c) (rows (gdb sv) (cdb c)))"
  proof
    assume "Addr4 (v + of_nat m) \<in> set (taken_ips (ip6lib sv) (prefix c) (rows (gdb sv) (cdb c)))"
    then obtain i where i: "i \<in> {0, N} \<union> {1..k}" "v + of_nat m = v + of_nat i" unfolding c(1) taken by blast
    have "unat v + i < 2 ^ 32" "i \<noteq> m" using i(1) assms(5) net(4) by auto
    with i(2) same_number [OF assms(6), of i] show False by blast
  qed
  have before: "Addr4 (v + of_nat i) \<in> set (taken_ips (ip6lib sv) (prefix c) (rows (gdb sv) (cdb c)))" if "i < m" for i
  proof -
    have "i \<in> {0, N} \<union> {1..k}" using that assms(5) by auto
    then show ?thesis unfolding c(1) taken by (rule imageI)
  qed
  obtain q c' where q: "RegisterPeer sv now req user c = Ret (Inr q, c')"
    "rows (gdb sv) (cdb c') = rows (gdb sv) (cdb c) @ [q]" "ID q \<notin> ID ` set (rows (gdb sv) (cdb c))"
    "IP q = string4 (v + of_nat m)" "MachineID q = lr_MachineId req" "User q = user" "prefix c' = prefix c"
    using RegisterPeer_next [OF assms(1,2) pv ip4 id_free_short assms(6) free before, of now req user] k len by metis
  show thesis
    by (rule that [OF q(1,4,5,6,2)]) (use q c in \<open>simp add: handed_out_def\<close>)
qed

lemma register_all:
  assumes "netipx_ok (nxlib sv)" and "gorm_ok (gdb sv)" and "network p v N"
  shows "handed_out sv p v k c \<Longrightarrow> k + length reqs < N \<Longrightarrow>
     \<exists>c'. run_events (reg_step sv) reqs c = Ret c' \<and> handed_out sv p v (k + length reqs) c' \<and>
       map (\<lambda>r. (MachineID r, User r)) (rows (gdb sv) (cdb c')) =
         map (\<lambda>r. (MachineID r, User r)) (rows (gdb sv) (cdb c)) @ map (\<lambda>(_, req, u). (lr_MachineId req, u)) reqs"
proof (induction reqs arbitrary: k c)
  case (Cons e reqs)
  obtain now req u where e: "e = (now, req, u)" by (cases e)
  have m: "k + 1 = k + 1 \<and> k + 1 < N \<or> k + 1 = N + 1 \<and> k + 1 = N" "unat v + (k + 1) < 2 ^ 32"
    using Cons.prems(2) networkD(4) [OF assms(3)] by auto
  obtain q c1 where q: "RegisterPeer sv now req u c = Ret (Inr q, c1)" "MachineID q = lr_MachineId req" "User q = u"
    "rows (gdb sv) (cdb c1) = rows (gdb sv) (cdb c) @ [q]" "handed_out sv p v (k + 1) c1"
    using register_next [OF assms Cons.prems(1) m, of now req u] by metis
  from Cons.IH [OF q(5)] Cons.prems(2) show ?case by (simp add: reg_step_def e q(1-4))
qed simp

text \<open>
  C24 (bounds, functional). The life of a network: on an empty table the k-th machine to
  register gets the k-th address of the controller's IPv4 network, for every k up to the
  number of its hosts, with keys that are all different. When all hosts are taken, a further
  registration is not refused: it succeeds with the address behind the broadcast address,
  which is not in the network.
\<close>

theorem registrations_fill_network:
  assumes "netipx_ok (nxlib sv)" and "gorm_ok (gdb sv)" and "network (prefix c) v N"
    and "rows (gdb sv) (cdb c) = []" and "length reqs < N"
  shows "\<exists>c'. run_events (reg_step sv) reqs c = Ret c' \<and>
     map IP (rows (gdb sv) (cdb c')) = map (\<lambda>i. string4 (v + of_nat i)) [1..<Suc (length reqs)] \<and>
     map (\<lambda>r. (MachineID r, User r)) (rows (gdb sv) (cdb c')) = map (\<lambda>(_, req, u). (lr_MachineId req, u)) reqs \<and>
     distinct (map ID (rows (gdb sv) (cdb c'))) \<and>
     (\<forall>i \<in> {1..length reqs}. Contains (prefix c) (Addr4 (v + of_nat i))) \<and>
     (length reqs + 1 = N \<and> unat v + N + 1 < 2 ^ 32 \<longrightarrow>
        (\<exists>q c''. RegisterPeer sv now req user c' = Ret (Inr q, c'') \<and> IP q = string4 (v + of_nat (N + 1)) \<and>
           \<not> Contains (prefix c) (Addr4 (v + of_nat (N + 1)))))"
proof -
  note net = networkD [OF assms(3)]
  have n: "pBits (prefix c) \<le> 32" "pAddr (prefix c) = Addr4 v" "N + 1 = 2 ^ (32 - pBits (prefix c))"
    using assms(3) by (simp_all add: network_def)
  have 0: "handed_out sv (prefix c) v 0 c" using assms(4) by (simp add: handed_out_def)
  obtain c' where c': "run_events (reg_step sv) reqs c = Ret c'" "handed_out sv (prefix c) v (length reqs) c'"
    "map (\<lambda>r. (MachineID r, User r)) (rows (gdb sv) (cdb c')) = map (\<lambda>(_, req, u). (lr_MachineId req, u)) reqs"
    using register_all [OF assms(1-3) 0, of reqs] assms(4,5) by auto
  have inside: "Contains (prefix c) (Addr4 (v + of_nat i)) \<longleftrightarrow> i < N + 1" if "unat v + i < 2 ^ 32" for i
    using Contains_number [OF n(1,2) net(2) that] n(3) by simp
  have over: "\<exists>q c''. RegisterPeer sv now req user c' = Ret (Inr q, c'') \<and> IP q = string4 (v + of_nat (N + 1)) \<and>
      \<not> Contains (prefix c) (Addr4 (v + of_nat (N + 1)))" if full: "length reqs + 1 = N" "unat v + N + 1 < 2 ^ 32"
  proof -
    have m: "N + 1 = length reqs + 1 \<and> length reqs + 1 < N \<or> N + 1 = N + 1 \<and> length reqs + 1 = N" "unat v + (N + 1) < 2 ^ 32"
      using full by simp_all
    obtain q c'' where "RegisterPeer sv now req user c' = Ret (Inr q, c'')" "IP q = string4 (v + of_nat (N + 1))"
      using register_next [OF assms(1-3) c'(2) m, of now req user] by metis
    with inside [OF m(2)] show ?thesis by auto
  qed
  show ?thesis
  proof (intro exI [of _ c'] conjI ballI impI)
    show "Contains (prefix c) (Addr4 (v + of_nat i))" if "i \<in> {1..length reqs}" for i
      using that assms(5) net(4) inside [of i] by auto
  qed (use c' over in \<open>simp_all add: handed_out_def\<close>)
qed

text \<open>The default network 100.70.0.0/24: 254 machines, and the one after them gets 100.70.1.0.\<close>

lemma home_network: "network (home_prefix 24) 0x64460000 255"
proof -
  have "push_bit 8 (drop_bit 8 0x64460000) = (0x64460000 :: u32)" by code_simp
  then show ?thesis by (simp add: network_def home_prefix_def)
qed

theorem registrations_fill_network_witness:
  "\<exists>c' q c''. run_events (reg_step toy_services) (replicate 254 (7, \<lparr>lr_MachineId = ''m'', lr_PublicKey = ''k'', lr_Hostname = [],
       lr_Endpoint = [], lr_AccessToken = []\<rparr>, ''u'')) (NewController [] (home_prefix 24) toy_validator) = Ret c' \<and>
     length (rows (gdb toy_services) (cdb c')) = 254 \<and>
     RegisterPeer toy_services 8 \<lparr>lr_MachineId = ''x'', lr_PublicKey = ''k'', lr_Hostname = [],
       lr_Endpoint = [], lr_AccessToken = []\<rparr> ''u'' c' = Ret (Inr q, c'') \<and> IP q = string4 0x64460100"
proof -
  let ?r = "\<lambda>m. \<lparr>lr_MachineId = m, lr_PublicKey = ''k'', lr_Hostname = [], lr_Endpoint = [], lr_AccessToken = []\<rparr>"
  let ?c = "NewController [] (home_prefix 24) toy_validator" and ?reqs = "replicate 254 (7 :: instant, ?r ''m'', ''u'')"
  have h: "netipx_ok (nxlib toy_services)" "gorm_ok (gdb toy_services)" "network (prefix ?c) 0x64460000 255"
    "rows (gdb toy_services) (cdb ?c) = []" "length ?reqs < 255"
    using home_network by (simp_all add: toy_services_def list_netipx_ok table_gorm_ok NewController_def) (simp add: table_gorm_def)
  from registrations_fill_network [OF h, of 8 "?r ''x''" "''u''"] obtain c' where c':
    "run_events (reg_step toy_services) ?reqs ?c = Ret c'"
    "map IP (rows (gdb toy_services) (cdb c')) = map (\<lambda>i. string4 (0x64460000 + of_nat i)) [1..<Suc (length ?reqs)]"
    "length ?reqs + 1 = 255 \<and> unat (0x64460000 :: u32) + 255 + 1 < 2 ^ 32 \<longrightarrow>
       (\<exists>q c''. RegisterPeer toy_services 8 (?r ''x'') ''u'' c' = Ret (Inr q, c'') \<and> IP q = string4 (0x64460000 + of_nat (255 + 1)))"
    by meson
  have "length (rows (gdb toy_services) (cdb c')) = 254" using arg_cong [OF c'(2), of length] by simp
  moreover from c'(3) obtain q c'' where "RegisterPeer toy_services 8 (?r ''x'') ''u'' c' = Ret (Inr q, c'')" "IP q = string4 0x64460100"
    by auto
  ultimately show ?thesis using c'(1) by blast
qed

end
