(* ===== verification/Server.thy ===== *)
theory Server
  imports Grpc Registry
begin

text \<open>
  The controller as a process (src/controller/cmd/root.go): its flags, the opening of the
  database (src/controller/db/db.go), the token validator (src/controller/auth/oauth.go),
  the logging interceptor (src/controller/middleware/interceptors.go), and the goroutines
  of its two servers from the start to the exit. What the operating system, the database,
  the identity provider and the server libraries answer are parameters.
\<close>

section \<open>Flags and answers\<close>

record flags =
  storePath :: string
  prefix_flag :: string
  autoCert :: bool
  grpcPort :: u16
  httpPort :: u16
  debug :: bool

definition default_flags :: flags where
  "default_flags = \<lparr>storePath = ''store.db'', prefix_flag = ''100.70.0.0/24'', autoCert = False,
     grpcPort = 50000, httpPort = 8080, debug = False\<rparr>"

text \<open>The answer to the request for the provider's configuration.\<close>

datatype config_reply = ConfigUnreachable | ConfigUndecodable | ConfigDecoded OpenIDConfig

record 'db host =
  gorm_Open :: "string \<Rightarrow> 'db option"
  sql_DB :: "'db \<Rightarrow> bool"
  SetMaxIdleConns :: "nat \<Rightarrow> 'db \<Rightarrow> 'db"
  SetMaxOpenConns :: "nat \<Rightarrow> 'db \<Rightarrow> 'db"
  Ping :: "'db \<Rightarrow> bool"
  AutoMigrate :: "'db \<Rightarrow> bool \<times> 'db"
  Getenv :: "string \<Rightarrow> string"
  config_get :: "string \<Rightarrow> config_reply"
  keyfunc :: "string list \<Rightarrow> bool"
  RegisterHandler :: "string \<Rightarrow> bool"

section \<open>The store and the validator\<close>

definition db_New :: "'db host \<Rightarrow> string \<Rightarrow> 'db option" where
  "db_New h path =
     (case gorm_Open h (''file:'' @ path @ ''?cache=shared&_journal_mode=WAL'') of
        None \<Rightarrow> None
      | Some db \<Rightarrow>
          if \<not> sql_DB h db then None
          else let db = SetMaxOpenConns h 3 (SetMaxIdleConns h 3 db)
               in if \<not> Ping h db then None
                  else let (err, db) = AutoMigrate h db in Some db)"

definition getOpenIDConfiguration :: "'db host \<Rightarrow> string \<Rightarrow> OpenIDConfig option" where
  "getOpenIDConfiguration h url =
     (case config_get h url of ConfigUnreachable \<Rightarrow> None | ConfigUndecodable \<Rightarrow> None | ConfigDecoded config \<Rightarrow> Some config)"

definition NewTokenValidator :: "'db host \<Rightarrow> TokenValidator option" where
  "NewTokenValidator h =
     (case getOpenIDConfiguration h (Getenv h ''OPENID_CONFIG_URL'') of
        None \<Rightarrow> None
      | Some config \<Rightarrow>
          if \<not> keyfunc h [JWKSEndpoint config] then None
          else Some \<lparr>tv_config = config, clientID = Getenv h ''OPENID_CLIENT_ID'', audience = Getenv h ''OPENID_AUDIENCE'',
                 redirectUri = Getenv h ''OPENID_CALLBACK_URL'', userCache = []\<rparr>)"

section \<open>Interceptors\<close>

definition log_method :: "string \<Rightarrow> string" where
  "log_method full =
     (let splitMethod = split_char (CHR ''/'') full
      in if length splitMethod < 3 then full else splitMethod ! 2)"

text \<open>The peer of a request; the code ignores that there may be none.\<close>

definition NewUnaryLogInterceptor ::
  "string option \<Rightarrow> string \<Rightarrow> ('req \<Rightarrow> 'resp) \<Rightarrow> 'req \<Rightarrow> (string \<times> 'resp) outcome" where
  "NewUnaryLogInterceptor p full handler req =
     (case p of
        None \<Rightarrow> Panic ''nil pointer''
      | Some addr \<Rightarrow> Ret (''--> unary log interceptor: '' @ log_method full @ '' - peer: '' @ addr, handler req))"

datatype interceptor = LogInterceptor | AuthInterceptor

section \<open>Start\<close>

datatype log_level = DebugLevel | InfoLevel

datatype fatal = StoreFailed | ParsingPrefix | CreatingTokenValidator | RegisteringGateway

record 'db server =
  level :: log_level
  controller :: "'db Controller"
  interceptors :: "interceptor list"
  grpc_listen :: string
  gateway_dials :: string
  gateway_listen :: string

definition start_server :: "'db host \<Rightarrow> ip6_text \<Rightarrow> flags \<Rightarrow> fatal + 'db server" where
  "start_server h ip6 f =
     (case db_New h (storePath f) of
        None \<Rightarrow> Inl StoreFailed
      | Some db \<Rightarrow>
          (case netip_ParsePrefix ip6 (prefix_flag f) of
             None \<Rightarrow> Inl ParsingPrefix
           | Some pfix \<Rightarrow>
               (case NewTokenValidator h of
                  None \<Rightarrow> Inl CreatingTokenValidator
                | Some tokenValidator \<Rightarrow>
                    if \<not> RegisterHandler h ''localhost:50000'' then Inl RegisteringGateway
                    else Inr \<lparr>level = (if debug f then DebugLevel else InfoLevel),
                           controller = NewController db pfix tokenValidator, interceptors = [LogInterceptor],
                           grpc_listen = CHR '':'' # dec_string (unat (grpcPort f)),
                           gateway_dials = ''localhost:50000'', gateway_listen = '':8080''\<rparr>)))"

datatype http_target = GatewayMux | OpenAPIHandler

definition gateway_handler :: "string \<Rightarrow> http_target" where
  "gateway_handler path = (if take 4 path = ''/api'' then GatewayMux else OpenAPIHandler)"

section \<open>The goroutines of the servers\<close>

text \<open>
  Three goroutines of an error group: one per server and one that waits for the
  context and stops both servers. The first error, or a signal, cancels the context.
  The clean-up returns the error of the gateway's registration, which is nil there.
\<close>

datatype stop_call = GracefulStop | GrpcStop | Shutdown | HttpClose

datatype shutdown_reply = ShutdownDone | DeadlineExceeded | ShutdownError

definition StopHTTPServer :: "shutdown_reply \<Rightarrow> stop_call list" where
  "StopHTTPServer r = Shutdown # (if r = DeadlineExceeded then [HttpClose] else [])"

definition StopGRPCServer :: "bool \<Rightarrow> stop_call list" where
  "StopGRPCServer timed_out = GracefulStop # (if timed_out then [GrpcStop] else [])"

text \<open>What the goroutines of the servers return: listening may fail, serving ends with or without an error.\<close>

definition grpc_routine :: "'e option \<Rightarrow> 'e option \<Rightarrow> 'e option" where
  "grpc_routine listen serve = (case listen of Some err \<Rightarrow> Some err | None \<Rightarrow> serve)"

datatype 'e http_end = ErrServerClosed | HttpError 'e

definition gateway_routine :: "'e http_end \<Rightarrow> 'e option" where
  "gateway_routine r = (case r of ErrServerClosed \<Rightarrow> None | HttpError err \<Rightarrow> Some err)"

datatype 'e server_event =
    Signal
  | GrpcEnds "'e option" "'e option"
  | GatewayEnds "'e http_end"
  | Cleanup bool shutdown_reply

record 'e servers =
  cancelled :: bool
  first_err :: "'e option"
  grpc_done :: bool
  http_done :: bool
  cleanup_done :: bool
  calls :: "stop_call list"

definition servers_start :: "'e servers" where
  "servers_start = \<lparr>cancelled = False, first_err = None, grpc_done = False, http_done = False, cleanup_done = False, calls = []\<rparr>"

text \<open>\<open>errgroup.Group\<close>: the first error of a goroutine is kept and cancels the context.\<close>

definition eg_return :: "'e option \<Rightarrow> 'e servers \<Rightarrow> 'e servers" where
  "eg_return err s =
     (case err of
        None \<Rightarrow> s
      | Some e \<Rightarrow> if first_err s = None then s\<lparr>first_err := Some e, cancelled := True\<rparr> else s)"

inductive server_step :: "'e servers \<Rightarrow> 'e server_event \<Rightarrow> 'e servers \<Rightarrow> bool" where
  signal: "server_step s Signal (s\<lparr>cancelled := True\<rparr>)"
| grpc: "\<not> grpc_done s \<Longrightarrow>
    server_step s (GrpcEnds listen serve) (eg_return (grpc_routine listen serve) (s\<lparr>grpc_done := True\<rparr>))"
| gateway: "\<not> http_done s \<Longrightarrow>
    server_step s (GatewayEnds r) (eg_return (gateway_routine r) (s\<lparr>http_done := True\<rparr>))"
| cleanup: "\<not> cleanup_done s \<Longrightarrow> cancelled s \<Longrightarrow>
    server_step s (Cleanup timed_out reply)
      (eg_return None (s\<lparr>cleanup_done := True, calls := calls s @ StopGRPCServer timed_out @ StopHTTPServer reply\<rparr>))"

inductive_cases server_stepE [elim!]:
  "server_step s Signal t" "server_step s (GrpcEnds l r) t" "server_step s (GatewayEnds g) t" "server_step s (Cleanup b r) t"

inductive server_run :: "'e server_event list \<Rightarrow> 'e servers \<Rightarrow> bool" where
  start: "server_run [] servers_start"
| more: "server_run es s \<Longrightarrow> server_step s e t \<Longrightarrow> server_run (es @ [e]) t"

text \<open>\<open>Wait\<close> returns when the three are done; an error is then fatal.\<close>

definition all_done :: "'e servers \<Rightarrow> bool" where
  "all_done s \<longleftrightarrow> grpc_done s \<and> http_done s \<and> cleanup_done s"

text \<open>The error an event makes its goroutine return.\<close>

fun event_error :: "'e server_event \<Rightarrow> 'e option" where
  "event_error (GrpcEnds listen serve) = grpc_routine listen serve"
| "event_error (GatewayEnds r) = gateway_routine r"
| "event_error _ = None"

section \<open>Starting\<close>

text \<open>
  What it takes to start, and that a failed migration is not one of the reasons not to:
  the store is then used with whatever table it has.
\<close>

lemma db_New_Some:
  "db_New h path = Some db \<longleftrightarrow>
     (\<exists>d. gorm_Open h (''file:'' @ path @ ''?cache=shared&_journal_mode=WAL'') = Some d \<and> sql_DB h d \<and>
        Ping h (SetMaxOpenConns h 3 (SetMaxIdleConns h 3 d)) \<and>
        db = snd (AutoMigrate h (SetMaxOpenConns h 3 (SetMaxIdleConns h 3 d))))"
  by (auto simp: db_New_def Let_def case_prod_beta split: option.splits)

lemma start_server_Inr:
  assumes "start_server h ip6 f = Inr s"
  obtains db P tv where "db_New h (storePath f) = Some db" "netip_ParsePrefix ip6 (prefix_flag f) = Some P"
    "NewTokenValidator h = Some tv" "controller s = NewController db P tv" "interceptors s = [LogInterceptor]"
  using assms by (auto simp: start_server_def split: option.splits if_splits)

lemma default_prefix: "netip_ParsePrefix ip6 (prefix_flag default_flags) = Some (home_prefix 24)"
proof -
  have "prefix_flag default_flags = string4 0x64460000 @ CHR ''/'' # dec_string 24" by code_simp
  then show ?thesis using ParsePrefix_string4 [of 24 ip6 "0x64460000"] by (simp add: home_prefix_def)
qed

text \<open>
  The controller as it is started by default, on an empty table: the machines that
  register get 100.70.0.1, 100.70.0.2 and so on, and no update channel is open.
\<close>

lemma default_server_numbers_machines:
  assumes "start_server h ip6 default_flags = Inr s" and "netipx_ok (nxlib sv)" and "gorm_ok (gdb sv)"
    and "rows (gdb sv) (cdb (controller s)) = []" and "length reqs < 255"
  shows "\<exists>c'. run_events (reg_step sv) reqs (controller s) = Ret c' \<and>
     map IP (rows (gdb sv) (cdb c')) = map (\<lambda>i. string4 (0x64460000 + of_nat i)) [1..<Suc (length reqs)]"
proof -
  obtain db P tv where c: "netip_ParsePrefix ip6 (prefix_flag default_flags) = Some P" "controller s = NewController db P tv"
    using start_server_Inr [OF assms(1)] .
  then have "handed_out sv (home_prefix 24) 0x64460000 0 (controller s)"
    using assms(4) default_prefix [of ip6] by (simp add: handed_out_def NewController_def)
  from register_all [OF assms(2,3) home_network this, of reqs] assms(5) show ?thesis
    by (auto simp: handed_out_def)
qed

text \<open>Whatever the flags say, the gateway dials port 50000 and listens on port 8080, and there is no authorisation interceptor.\<close>

lemma flags_without_effect:
  assumes "start_server h ip6 f = Inr s"
  shows "gateway_dials s = ''localhost:50000'' \<and> gateway_listen s = '':8080'' \<and> AuthInterceptor \<notin> set (interceptors s) \<and>
    start_server h ip6 (f\<lparr>httpPort := p, autoCert := a\<rparr>) = Inr s"
  using assms by (auto simp: start_server_def split: option.splits if_splits)

section \<open>Requests\<close>

text \<open>The logged name of a method \<open>/service/method\<close>; the handler's answer is passed on.\<close>

lemma log_interceptor_transparent:
  assumes "CHR ''/'' \<notin> set svc" and "CHR ''/'' \<notin> set m"
  shows "NewUnaryLogInterceptor (Some addr) (CHR ''/'' # svc @ CHR ''/'' # m) handler req =
    Ret (''--> unary log interceptor: '' @ m @ '' - peer: '' @ addr, handler req)"
  using split_char_append [OF assms(1), of m] split_char_append [of "CHR ''/''" "[]"] assms
  by (simp add: NewUnaryLogInterceptor_def log_method_def Let_def)

lemma gateway_handler_mux [simp]: "gateway_handler (''/api'' @ rest) = GatewayMux"
  by (simp add: gateway_handler_def)

section \<open>From the start to the exit\<close>

definition first_error :: "'e server_event list \<Rightarrow> 'e option" where
  "first_error es = (case List.map_filter event_error es of [] \<Rightarrow> None | e # _ \<Rightarrow> Some e)"

lemma first_error_snoc:
  "first_error (es @ [e]) = (case first_error es of None \<Rightarrow> event_error e | Some x \<Rightarrow> Some x)"
proof -
  have "List.map_filter event_error (es @ [e]) = List.map_filter event_error es @ List.map_filter event_error [e]"
    by (induction es) (simp_all add: map_filter_simps split: option.splits)
  moreover have "List.map_filter event_error [e] = (case event_error e of None \<Rightarrow> [] | Some x \<Rightarrow> [x])"
    by (simp add: map_filter_simps split: option.splits)
  ultimately show ?thesis by (auto simp: first_error_def split: list.splits option.splits)
qed

definition stop_calls :: "'e server_event list \<Rightarrow> stop_call list" where
  "stop_calls es = concat (map (\<lambda>e. case e of Cleanup t r \<Rightarrow> StopGRPCServer t @ StopHTTPServer r | _ \<Rightarrow> []) es)"

definition servers_inv :: "'e server_event list \<Rightarrow> 'e servers \<Rightarrow> bool" where
  "servers_inv es s \<longleftrightarrow> first_err s = first_error es \<and> cancelled s = (Signal \<in> set es \<or> first_error es \<noteq> None) \<and>
     calls s = stop_calls es \<and> cleanup_done s = (\<exists>t r. Cleanup t r \<in> set es) \<and> (cleanup_done s \<longrightarrow> cancelled s) \<and>
     length (filter (\<lambda>e. \<exists>t r. e = Cleanup t r) es) = (if cleanup_done s then 1 else 0)"

lemma eg_return_simps [simp]:
  "cancelled (eg_return err s) = (cancelled s \<or> (err \<noteq> None \<and> first_err s = None))"
  "first_err (eg_return err s) = (case first_err s of None \<Rightarrow> err | Some x \<Rightarrow> Some x)"
  "calls (eg_return err s) = calls s" "cleanup_done (eg_return err s) = cleanup_done s"
  "grpc_done (eg_return err s) = grpc_done s" "http_done (eg_return err s) = http_done s"
  by (auto simp: eg_return_def split: option.splits)

lemma server_step_inv:
  assumes "servers_inv es s" and "server_step s e t"
  shows "servers_inv (es @ [e]) t"
  using assms(2)
proof cases
  case signal
  then show ?thesis using assms(1) by (auto simp: servers_inv_def first_error_snoc stop_calls_def split: option.splits)
next
  case grpc
  then show ?thesis using assms(1) by (auto simp: servers_inv_def first_error_snoc stop_calls_def split: option.splits)
next
  case gateway
  then show ?thesis using assms(1) by (auto simp: servers_inv_def first_error_snoc stop_calls_def split: option.splits)
next
  case cleanup
  then show ?thesis using assms(1) by (auto simp: servers_inv_def first_error_snoc stop_calls_def split: option.splits)
qed

lemma server_run_inv: "server_run es s \<Longrightarrow> servers_inv es s"
proof (induction rule: server_run.induct)
  case start
  show ?case by (simp add: servers_inv_def servers_start_def first_error_def stop_calls_def map_filter_simps)
qed (rule server_step_inv)

text \<open>
  C29 (invariant). The controller's two servers live and die together. In every run the
  servers are asked to stop exactly when a signal came or one of them ended with an error,
  at most once, gracefully first, and the hard stop follows only after the time-out; the
  process ends only after both have been asked to stop and have returned, and it then
  ends with the error that came first in time, or with success when there was none.
\<close>

theorem servers_stop_together:
  assumes "server_run es s"
  shows "first_err s = first_error es \<and> cancelled s = (Signal \<in> set es \<or> first_error es \<noteq> None) \<and>
     (\<not> cleanup_done s \<longrightarrow> calls s = []) \<and>
     (cleanup_done s \<longrightarrow> cancelled s \<and>
       (\<exists>timed_out r. Cleanup timed_out r \<in> set es \<and> calls s =
          [GracefulStop] @ (if timed_out then [GrpcStop] else []) @ [Shutdown] @ (if r = DeadlineExceeded then [HttpClose] else []))) \<and>
     (all_done s \<longrightarrow> Signal \<in> set es \<or> first_error es \<noteq> None)"
proof -
  note inv = server_run_inv [OF assms, unfolded servers_inv_def]
  have one: "stop_calls es = concat (map (\<lambda>e. case e of Cleanup t r \<Rightarrow> StopGRPCServer t @ StopHTTPServer r | _ \<Rightarrow> [])
      (filter (\<lambda>e. \<exists>t r. e = Cleanup t r) es))"
    unfolding stop_calls_def by (induction es) (auto split: server_event.splits)
  have c: "\<exists>timed_out r. Cleanup timed_out r \<in> set es \<and> calls s =
      [GracefulStop] @ (if timed_out then [GrpcStop] else []) @ [Shutdown] @ (if r = DeadlineExceeded then [HttpClose] else [])"
    if "cleanup_done s"
  proof -
    have "length (filter (\<lambda>e. \<exists>t r. e = Cleanup t r) es) = 1" using inv that by simp
    then obtain e where e: "filter (\<lambda>e. \<exists>t r. e = Cleanup t r) es = [e]" by (auto simp: length_Suc_conv)
    then have "e \<in> set (filter (\<lambda>e. \<exists>t r. e = Cleanup t r) es)" by simp
    then obtain t r where r: "e = Cleanup t r" "Cleanup t r \<in> set es" by auto
    have "calls s = StopGRPCServer t @ StopHTTPServer r" using inv one e r(1) by simp
    with r(2) show ?thesis by (intro exI [of _ t] exI [of _ r]) (simp add: StopGRPCServer_def StopHTTPServer_def)
  qed
  have "filter (\<lambda>e. \<exists>t r. e = Cleanup t r) es = []" if "\<not> cleanup_done s" using inv that by simp
  then have none: "calls s = []" if "\<not> cleanup_done s" using inv one that by simp
  have "first_err s = first_error es" "cancelled s = (Signal \<in> set es \<or> first_error es \<noteq> None)" "cleanup_done s \<longrightarrow> cancelled s"
    using inv by blast+
  with c none show ?thesis unfolding all_done_def by blast
qed

text \<open>The gateway's port is taken: both servers are stopped and the process ends with that error.\<close>

theorem servers_stop_together_witness:
  "\<exists>s. server_run [GatewayEnds (HttpError ''in use''), Cleanup False ShutdownDone, GrpcEnds None None] s \<and>
     all_done s \<and> first_err s = Some ''in use'' \<and> calls s = [GracefulStop, Shutdown]"
proof -
  define s1 where "s1 = eg_return (gateway_routine (HttpError ''in use'')) (servers_start\<lparr>http_done := True\<rparr>)"
  define s2 where "s2 = eg_return None (s1\<lparr>cleanup_done := True, calls := calls s1 @ StopGRPCServer False @ StopHTTPServer ShutdownDone\<rparr>)"
  define s3 where "s3 = eg_return (grpc_routine None None) (s2\<lparr>grpc_done := True\<rparr>)"
  have "server_step servers_start (GatewayEnds (HttpError ''in use'')) s1"
    using server_step.gateway [of servers_start "HttpError ''in use''"] by (simp add: s1_def servers_start_def)
  from more [OF start this] have 1: "server_run [GatewayEnds (HttpError ''in use'')] s1" by simp
  have "server_step s1 (Cleanup False ShutdownDone) s2"
    unfolding s2_def by (rule server_step.cleanup) (simp_all add: s1_def servers_start_def gateway_routine_def)
  from more [OF 1 this] have 2: "server_run [GatewayEnds (HttpError ''in use''), Cleanup False ShutdownDone] s2" by simp
  have "server_step s2 (GrpcEnds None None) s3"
    unfolding s3_def by (rule server_step.grpc) (simp add: s2_def s1_def servers_start_def)
  from more [OF 2 this] have 3: "server_run [GatewayEnds (HttpError ''in use''), Cleanup False ShutdownDone, GrpcEnds None None] s3" by simp
  have d: "all_done s3" "cleanup_done s3" by (simp_all add: all_done_def s3_def s2_def s1_def servers_start_def)
  have "first_err s3 = Some ''in use''" "calls s3 = [GracefulStop, Shutdown]"
    using servers_stop_together [OF 3] d(2) by (auto simp: first_error_def map_filter_simps gateway_routine_def)
  with 3 d(1) show ?thesis by blast
qed

end
