(* ===== verification/Logger.thy ===== *)
theory Logger
  imports Prelude
begin

text \<open>
  The logger of src/pkg/logger/logger.go: lines on a buffered channel, written when the
  level allows. The text of a line is made by package \<open>fmt\<close>, of which the verbs v, s and
  d for strings and integers are modelled; a format with flags, widths or other verbs has
  no value here. The colours are put around a text by a library, which is a parameter.
\<close>

section \<open>Package fmt\<close>

datatype fmt_arg = FStr string | FInt int

definition int_string :: "int \<Rightarrow> string" where
  "int_string i = (if i < 0 then CHR ''-'' # dec_string (nat (- i)) else dec_string (nat i))"

fun arg_type :: "fmt_arg \<Rightarrow> string" where
  "arg_type (FStr s) = ''string''"
| "arg_type (FInt i) = ''int''"

fun arg_text :: "fmt_arg \<Rightarrow> string" where
  "arg_text (FStr s) = s"
| "arg_text (FInt i) = int_string i"

text \<open>An operand of the wrong type for its verb is printed with its type.\<close>

definition bad_verb :: "char \<Rightarrow> fmt_arg \<Rightarrow> string" where
  "bad_verb v a = ''%!'' @ [v] @ ''('' @ arg_type a @ ''='' @ arg_text a @ '')''"

fun fmt_verb :: "char \<Rightarrow> fmt_arg \<Rightarrow> string option" where
  "fmt_verb v (FStr s) =
     (if v = CHR ''v'' \<or> v = CHR ''s'' then Some s else if v = CHR ''d'' then Some (bad_verb v (FStr s)) else None)"
| "fmt_verb v (FInt i) =
     (if v = CHR ''v'' \<or> v = CHR ''d'' then Some (int_string i) else if v = CHR ''s'' then Some (bad_verb v (FInt i)) else None)"

text \<open>Operands that no verb takes are appended.\<close>

fun extra_args :: "fmt_arg list \<Rightarrow> string" where
  "extra_args [] = []"
| "extra_args [a] = arg_type a @ ''='' @ arg_text a"
| "extra_args (a # b # as) = arg_type a @ ''='' @ arg_text a @ '', '' @ extra_args (b # as)"

definition extra :: "fmt_arg list \<Rightarrow> string" where
  "extra as = (if as = [] then [] else ''%!(EXTRA '' @ extra_args as @ '')'')"

definition is_letter :: "char \<Rightarrow> bool" where
  "is_letter c \<longleftrightarrow>
     (let n = (of_char c :: nat) in 65 \<le> n \<and> n \<le> 90 \<or> 97 \<le> n \<and> n \<le> 122)"

fun Sprintf :: "string \<Rightarrow> fmt_arg list \<Rightarrow> string option" where
  "Sprintf [] as = Some (extra as)"
| "Sprintf (c # f) as =
     (if c \<noteq> CHR ''%'' then map_option ((#) c) (Sprintf f as)
      else case f of
             [] \<Rightarrow> Some (''%!(NOVERB)'' @ extra as)
           | v # f' \<Rightarrow>
               if v = CHR ''%'' then map_option ((#) v) (Sprintf f' as)
               else if \<not> is_letter v then None
               else case as of
                      [] \<Rightarrow> map_option ((@) (''%!'' @ [v] @ ''(MISSING)'')) (Sprintf f' [])
                    | a # as' \<Rightarrow>
                        (case fmt_verb v a of
                           None \<Rightarrow> None
                         | Some t \<Rightarrow> map_option ((@) t) (Sprintf f' as')))"

text \<open>\<open>Sprintln\<close> puts a space between all operands, \<open>Sprint\<close> only between two that are not strings.\<close>

fun Sprintln :: "fmt_arg list \<Rightarrow> string" where
  "Sprintln [] = [CHR 0x0A]"
| "Sprintln [a] = arg_text a @ [CHR 0x0A]"
| "Sprintln (a # b # as) = arg_text a @ '' '' @ Sprintln (b # as)"

fun Sprint :: "fmt_arg list \<Rightarrow> string" where
  "Sprint [] = []"
| "Sprint [a] = arg_text a"
| "Sprint (a # b # as) =
     arg_text a @ (case (a, b) of (FInt _, FInt _) \<Rightarrow> '' '' | _ \<Rightarrow> []) @ Sprint (b # as)"

section \<open>The logger\<close>

definition LogBuffer :: nat where "LogBuffer = 10"

text \<open>The constants count the lines of their block, so \<open>LogLevelNone\<close> is 1.\<close>

definition LogLevelNone :: int where "LogLevelNone = 1"
definition LogLevelInfo :: int where "LogLevelInfo = 2"
definition LogLevelWarn :: int where "LogLevelWarn = 3"
definition LogLevelError :: int where "LogLevelError = 4"
definition LogLevelDebug :: int where "LogLevelDebug = 5"

lemmas level_defs = LogLevelNone_def LogLevelInfo_def LogLevelWarn_def LogLevelError_def LogLevelDebug_def

record Logger =
  logs :: "string list"
  logs_closed :: bool
  LogPrefix :: string
  LogLevel :: int

datatype colour = FgYellow | FgRed | FgGreen

text \<open>\<open>color.New(c).Sprintf\<close> wraps the formatted text in the codes of the colour.\<close>

type_synonym painter = "colour \<Rightarrow> string \<Rightarrow> string"

definition color_Sprintf :: "painter \<Rightarrow> colour \<Rightarrow> string \<Rightarrow> fmt_arg list \<Rightarrow> string option" where
  "color_Sprintf wrap c f as = map_option (wrap c) (Sprintf f as)"

definition logger_New :: Logger where
  "logger_New = \<lparr>logs = [], logs_closed = False, LogPrefix = [], LogLevel = 0\<rparr>"

definition SetLogLevel :: "int \<Rightarrow> Logger \<Rightarrow> Logger" where
  "SetLogLevel lv l =
     (if lv < LogLevelNone then l
      else if lv > LogLevelDebug then l
      else l\<lparr>LogLevel := lv\<rparr>)"

definition SetPrefix :: "string \<Rightarrow> Logger \<Rightarrow> Logger" where
  "SetPrefix p l = l\<lparr>LogPrefix := p\<rparr>"

text \<open>A receive from \<open>Logs\<close>: a line, the end of a closed channel (\<open>None\<close>), or waiting.\<close>

definition Logs_recv :: "Logger \<Rightarrow> (string option \<times> Logger) outcome" where
  "Logs_recv l =
     (case chan_recv (logs l) of
        Some (x, q) \<Rightarrow> Ret (Some x, l\<lparr>logs := q\<rparr>)
      | None \<Rightarrow> if logs_closed l then Ret (None, l) else Block)"

definition logger_Close :: "Logger \<Rightarrow> Logger outcome" where
  "logger_Close l =
     (if logs_closed l then Panic ''close of closed channel'' else Ret (l\<lparr>logs_closed := True\<rparr>))"

definition log_send :: "string \<Rightarrow> Logger \<Rightarrow> Logger outcome" where
  "log_send s l =
     (if logs_closed l then Panic ''send on closed channel''
      else obind (chan_send_wait LogBuffer s (logs l)) (\<lambda>q. Ret (l\<lparr>logs := q\<rparr>)))"

definition Printf :: "string \<Rightarrow> fmt_arg list \<Rightarrow> Logger \<Rightarrow> Logger outcome option" where
  "Printf f v l = map_option (\<lambda>s. log_send s l) (Sprintf f v)"

definition Println :: "fmt_arg list \<Rightarrow> Logger \<Rightarrow> Logger outcome" where
  "Println v l = log_send (Sprintln v) l"

definition Print :: "fmt_arg list \<Rightarrow> Logger \<Rightarrow> Logger outcome" where
  "Print v l = log_send (Sprint v) l"

definition Info :: "fmt_arg list \<Rightarrow> Logger \<Rightarrow> Logger outcome option" where
  "Info v l =
     (if LogLevelInfo \<le> LogLevel l then map_option (\<lambda>s. Print [FStr s] l) (Sprintf ''INFO: %s'' v)
      else Some (Ret l))"

definition Infof :: "string \<Rightarrow> fmt_arg list \<Rightarrow> Logger \<Rightarrow> Logger outcome option" where
  "Infof f v l =
     (if LogLevelInfo \<le> LogLevel l then Printf (''INFO: '' @ f) v l else Some (Ret l))"

text \<open>The result of the coloured format is the text of \<open>Warn\<close>, but the format of \<open>Warnf\<close>.\<close>

definition Warn :: "painter \<Rightarrow> fmt_arg list \<Rightarrow> Logger \<Rightarrow> Logger outcome option" where
  "Warn wrap v l =
     (if LogLevelWarn \<le> LogLevel l
      then map_option (\<lambda>s. Print [FStr s] l) (color_Sprintf wrap FgYellow ''WARN: %s'' v)
      else Some (Ret l))"

definition Warnf :: "painter \<Rightarrow> string \<Rightarrow> fmt_arg list \<Rightarrow> Logger \<Rightarrow> Logger outcome option" where
  "Warnf wrap f v l =
     (if LogLevelWarn \<le> LogLevel l
      then Option.bind (color_Sprintf wrap FgYellow (''WARN: '' @ f) v) (\<lambda>s. Printf s [] l)
      else Some (Ret l))"

definition Error :: "painter \<Rightarrow> fmt_arg list \<Rightarrow> Logger \<Rightarrow> Logger outcome option" where
  "Error wrap v l =
     (if LogLevelError \<le> LogLevel l
      then map_option (\<lambda>s. Print [FStr s] l) (color_Sprintf wrap FgRed ''ERROR: %s'' v)
      else Some (Ret l))"

definition Errorf :: "painter \<Rightarrow> string \<Rightarrow> fmt_arg list \<Rightarrow> Logger \<Rightarrow> Logger outcome option" where
  "Errorf wrap f v l =
     (if LogLevelError \<le> LogLevel l
      then Option.bind (color_Sprintf wrap FgRed (''ERROR: '' @ f) v) (\<lambda>s. Printf s [] l)
      else Some (Ret l))"

definition Debug :: "painter \<Rightarrow> fmt_arg list \<Rightarrow> Logger \<Rightarrow> Logger outcome option" where
  "Debug wrap v l =
     (if LogLevelDebug \<le> LogLevel l
      then map_option (\<lambda>s. Print [FStr s] l) (color_Sprintf wrap FgGreen ''DEBUG: %s'' v)
      else Some (Ret l))"

definition Debugf :: "painter \<Rightarrow> string \<Rightarrow> fmt_arg list \<Rightarrow> Logger \<Rightarrow> Logger outcome option" where
  "Debugf wrap f v l =
     (if LogLevelDebug \<le> LogLevel l
      then Option.bind (color_Sprintf wrap FgGreen (''ERROR: '' @ f) v) (\<lambda>s. Printf s [] l)
      else Some (Ret l))"

section \<open>Formatting\<close>

lemma Sprintf_plain:
  "CHR ''%'' \<notin> set s \<Longrightarrow> Sprintf (s @ f) as = map_option ((@) s) (Sprintf f as)"
  by (cases "Sprintf f as"; induction s) auto

lemma Sprintf_text: "CHR ''%'' \<notin> set s \<Longrightarrow> Sprintf s [] = Some s"
  using Sprintf_plain [of s "[]" "[]"] by (simp add: extra_def)

lemma Sprintf_one:
  assumes "CHR ''%'' \<notin> set s"
  shows "Sprintf (s @ ''%s'') [FStr x] = Some (s @ x)"
  using Sprintf_plain [OF assms, of "''%s''" "[FStr x]"] by (simp add: is_letter_def extra_def)

text \<open>Escaping makes any text a format of itself.\<close>

fun escape :: "string \<Rightarrow> string" where
  "escape [] = []"
| "escape (c # s) = (if c = CHR ''%'' then ''%%'' else [c]) @ escape s"

lemma Sprintf_escape: "Sprintf (escape s) [] = Some s"
  by (induction s) (auto simp: extra_def)

section \<open>The channel of lines\<close>

text \<open>A line waits for a reader when ten lines are unread; lines are read in order.\<close>

lemma log_send_cases:
  "log_send s l =
     (if logs_closed l then Panic ''send on closed channel''
      else if length (logs l) < LogBuffer then Ret (l\<lparr>logs := logs l @ [s]\<rparr>) else Block)"
  by (simp add: log_send_def)

lemma lines_in_order:
  "\<not> logs_closed l \<Longrightarrow> length (logs l) + length ss \<le> LogBuffer \<Longrightarrow>
     run_events log_send ss l = Ret (l\<lparr>logs := logs l @ ss\<rparr>)"
  by (induction ss arbitrary: l) (simp_all add: log_send_cases)

lemma closed_logger:
  assumes "logger_Close l = Ret l'"
  shows "is_panic (Print v l')" "is_panic (logger_Close l')" "logs l = [] \<Longrightarrow> Logs_recv l' = Ret (None, l')"
  using assms by (auto simp: logger_Close_def Print_def log_send_cases Logs_recv_def split: if_splits)

section \<open>Levels\<close>

text \<open>
  A level outside the five is ignored, although the code assigns the nearest one to its
  parameter; a new logger is below all levels and writes nothing but \<open>Print\<close>.
\<close>

lemma SetLogLevel_range:
  "LogLevel (SetLogLevel lv l) = (if 1 \<le> lv \<and> lv \<le> 5 then lv else LogLevel l)"
  by (simp add: SetLogLevel_def level_defs)

lemma silent_levels:
  assumes "LogLevel l < LogLevelInfo"
  shows "Info v l = Some (Ret l)" "Infof f v l = Some (Ret l)" "Warn w v l = Some (Ret l)" "Warnf w f v l = Some (Ret l)"
    "Error w v l = Some (Ret l)" "Errorf w f v l = Some (Ret l)" "Debug w v l = Some (Ret l)" "Debugf w f v l = Some (Ret l)"
  using assms
  by (simp_all add: level_defs Info_def Infof_def Warn_def Warnf_def Error_def Errorf_def Debug_def Debugf_def)

section \<open>Formats that are formatted twice\<close>

lemma Infof_writes:
  assumes "LogLevelInfo \<le> LogLevel l" and "CHR ''%'' \<notin> set s"
  shows "Infof (s @ ''%s'') [FStr x] l = Some (log_send (''INFO: '' @ s @ x) l)"
proof -
  have "CHR ''%'' \<notin> set (''INFO: '' @ s)" using assms(2) by simp
  from Sprintf_one [OF this, of x] assms(1) show ?thesis by (simp add: Infof_def Printf_def del: Sprintf.simps)
qed

text \<open>
  \<open>Warnf\<close> writes what \<open>Infof\<close> would when the coloured text has no percent sign; one in an
  operand is read as a verb of the second format.
\<close>

lemma Warnf_writes:
  assumes "LogLevelWarn \<le> LogLevel l" and "Sprintf (''WARN: '' @ f) v = Some t" and "CHR ''%'' \<notin> set (w FgYellow t)"
  shows "Warnf w f v l = Some (log_send (w FgYellow t) l)"
  using assms(1,2) Sprintf_text [OF assms(3)] by (simp add: Warnf_def color_Sprintf_def Printf_def del: Sprintf.simps)

lemma Warnf_percent:
  assumes "LogLevelWarn \<le> LogLevel l" and "CHR ''%'' \<notin> set x"
  shows "Warnf (\<lambda>_ s. s) ''%s'' [FStr (x @ ''%'')] l = Some (log_send (''WARN: '' @ x @ ''%!(NOVERB)'') l)"
proof -
  have a: "Sprintf (''WARN: '' @ ''%s'') [FStr (x @ ''%'')] = Some (''WARN: '' @ x @ ''%'')" by (rule Sprintf_one) simp
  have "CHR ''%'' \<notin> set (''WARN: '' @ x)" using assms(2) by simp
  from Sprintf_plain [OF this, of "''%''" "[]"] have b: "Sprintf (''WARN: '' @ x @ ''%'') [] = Some (''WARN: '' @ x @ ''%!(NOVERB)'')"
    by (simp add: extra_def)
  show ?thesis using assms(1) a b by (simp add: Warnf_def color_Sprintf_def Printf_def del: Sprintf.simps)
qed

text \<open>A debug line is labelled as an error.\<close>

lemma Debugf_label:
  assumes "LogLevel l = LogLevelDebug" and "CHR ''%'' \<notin> set f"
  shows "Debugf (\<lambda>_ s. s) f [] l = Some (log_send (''ERROR: '' @ f) l)"
proof -
  have "CHR ''%'' \<notin> set (''ERROR: '' @ f)" using assms(2) by simp
  from Sprintf_text [OF this] assms(1) show ?thesis by (simp add: Debugf_def color_Sprintf_def Printf_def del: Sprintf.simps)
qed

end
