(* ===== verification/Spec2Isabelle.thy ===== *)
theory Spec2Isabelle
  imports Isolation Races Streams Tun Sockets Service Server Logger
begin

text \<open>
  ZeroNet (caldog20/zeronet): an overlay network in Go. A controller keeps a table of
  peers, hands out addresses and forwards updates; a node on every machine reads packets
  from a tunnel device, encrypts them with a Noise session per remote peer and sends
  them as UDP datagrams to the peer's node.

  \<^bold>\<open>Parts and theories.\<close> Names of definitions are those of the source.

  \<^item> \<open>Prelude\<close>: results of Go code that may panic or wait for ever (\<open>outcome\<close>), byte
    slices with capacity, big-endian numbers, decimal text, splitting of strings, buffered
    channels (locale \<open>bounded_fifo\<close>), runs of events and their invariants (locales
    \<open>preserves\<close>, \<open>preserves_when\<close>), codecs (locales \<open>codec\<close>, \<open>strict_codec\<close>).
  \<^item> \<open>Header\<close>: src/pkg/header/header.go, the sixteen bytes in front of every datagram.
  \<^item> \<open>NetAddr\<close>: the parts of \<open>net/netip\<close> and \<open>net\<close> the program uses, and the address
    helpers of src/node/helpers.go.
  \<^item> \<open>Base64\<close>: \<open>encoding/base64\<close> and \<open>DecodeBase64Key\<close> of src/node/helpers.go.
  \<^item> \<open>Buffers\<close>: src/node/queue.go, the pooled packet buffers (locale \<open>buffer_pool\<close>).
  \<^item> \<open>PeerTransport\<close>: src/node/noise.go, src/node/peer.go, src/node/peer_transport.go, one
    remote peer: its struct as the record \<open>Peer\<close>, its routines, timers and entry points as
    functions on \<open>Peer \<times> world\<close>, where \<open>world\<close> holds the pools and what was sent.
    \<open>PeerInvariant\<close> collects them as the events of \<open>peer_step\<close> and proves the invariant
    \<open>peer_wf\<close> operation by operation; \<open>PeerSafety\<close> adds what holds of the buffers;
    \<open>Timers\<close> takes the expiry of a timer and the run of its callback apart (\<open>timed_step\<close>), as
    \<open>time.AfterFunc\<close> does; \<open>PeerProperties\<close> states what follows.
  \<^item> \<open>NodeCore\<close>: src/node/node.go, src/node/packets.go, src/node/grpcclient.go,
    src/node/stun.go, src/node/service.go; peers live on a heap and the two maps hold
    addresses, as the Go maps hold pointers. \<open>NodeProperties\<close> proves what it does.
  \<^item> \<open>NodeSetup\<close>: creation of a node (\<open>NewNode\<close>, key files and outbound address of
    src/node/helpers.go), the reading loops of src/node/packets.go, the STUN ticker, the
    receiving goroutine of src/node/grpcclient.go, and all of it as the events of a node's life.
  \<^item> \<open>NodeInvariant\<close>: the invariant \<open>node_wf\<close> of a node with all its peers and pools, kept by
    every operation. \<open>NodeSafety\<close>: the events of a node (\<open>node_step\<close>), the routines of its peers, the late callbacks
    of their timers and the goroutines that stop them among them, and what can crash it. \<open>Isolation\<close>: runs of a node against runs of one of its
    peers alone. \<open>Races\<close>: a handshake timer whose callback comes after the session is complete.
  \<^item> \<open>Tunnel\<close>: two peers and a network that may lose, repeat and reorder datagrams.
    \<open>Overlay\<close>: the same with the two nodes around the peers.
  \<^item> \<open>Tun\<close>: src/node/tun, the devices on Unix and Windows, their opening and configuration.
    \<open>Sockets\<close>: src/node/conn, the UDP socket of both builds.
  \<^item> \<open>Commands\<close>: src/node/authflow.go and the commands of src/node/cmd/service.go that call
    the running node. \<open>Service\<close>: the rest of src/node/cmd, the service program, the commands
    that manage it, and the root command.
  \<^item> \<open>PeerTypes\<close>: src/controller/types/peer.go and the protocol messages. \<open>Store\<close>:
    src/controller/db/peer.go over an object mapper that is a parameter (locale
    \<open>peer_store\<close>). \<open>Ipam\<close>: src/controller/db/ipam.go. \<open>Auth\<close>: src/controller/util.go,
    src/controller/auth/jwt.go, src/controller/auth/oauth.go and
    src/controller/middleware/interceptors.go. \<open>Updates\<close>: src/controller/peer_updates.go,
    the update channels. \<open>ControllerOps\<close>: src/controller/controller.go; \<open>Registry\<close>: sequences
    of registrations. \<open>Grpc\<close>: src/controller/grpc_v1.go (locale \<open>guarded_rpc\<close>).
    \<open>Streams\<close>: the update streams of all clients as goroutines that interleave at every
    channel operation, an inductive step relation. \<open>Server\<close>: src/controller/cmd/root.go and
    src/controller/db/db.go, the process from its flags to its exit.
  \<^item> \<open>Logger\<close>: src/pkg/logger/logger.go, with the part of package \<open>fmt\<close> it is modelled on.
  \<^item> This theory: the controller and the nodes together.

  \<^bold>\<open>How the parts interact.\<close> A datagram enters at \<open>ReadUDPPackets_step\<close>, is parsed by
    \<open>Parse\<close> and dispatched by \<open>OnUDPPacket\<close> through the id map to a peer's channel, where
    the routines \<open>Handshake\<close> and \<open>Inbound\<close> take it. A packet of the tunnel enters at
    \<open>ReadTunPackets_step\<close>, is routed by \<open>OnTunnelPacket\<close> through the address map, queued by
    \<open>OutboundPacket\<close> and sent by \<open>Outbound\<close>. The controller's updates (\<open>UpdateStream_init\<close>,
    \<open>PeerConnectedEvent\<close>, \<open>PeerPunchRequest\<close>, \<open>PeerForcedLogoutEvent\<close>) reach the node's
    \<open>HandleUpdate\<close>, which adds and changes peers and has them stopped: \<open>StopAllPeers\<close> only notes
    which goroutines were started (\<open>stops\<close>), \<open>run_stop\<close> is the run of one, at any later time.
    While a node starts, the goroutine of its update stream already works (the argument \<open>early\<close> of
    \<open>node_Run\<close>).

  \<^bold>\<open>Parameters.\<close> Code outside the repository is an argument: the Noise library
    (\<open>noise_lib\<close>), the object mapper (\<open>gorm\<close>), IP sets (\<open>netipx\<close>), the identity provider
    (\<open>idp\<close>), STUN, IPv4 headers and name resolution (\<open>node_libs\<close>), the text form of IPv6
    addresses (\<open>ip6_text\<close>), YAML, the file system, UDP sockets (\<open>udp_system\<close>, \<open>udp_calls\<close>), the
    browser with the OAuth library (\<open>browser\<close>), tunnel devices (\<open>tun_library\<close>), the answers of the
    Windows driver and of commands, the service manager (\<open>service_library\<close>), what the database and
    the servers of the controller answer (\<open>host\<close>, \<open>server_event\<close>), the colours of the logger and
    the choices of \<open>sync.Pool\<close> (\<open>pick\<close>). What is assumed of them is stated as named hypotheses (\<open>noise_ik\<close>,
    \<open>cipher_law\<close>, \<open>tag_law\<close>, \<open>handshake_law\<close>, \<open>gorm_ok\<close>, \<open>gorm_creates\<close>, \<open>netipx_ok\<close>) and
    each has an instance that satisfies it (\<open>toy_noise\<close>, \<open>table_gorm\<close>, \<open>list_netipx\<close>). Whether the Noise
    library accepts the key of a peer (\<open>accepts_key\<close>) is not assumed: theorems say what happens in
    either case. The object mapper refuses a record whose address another record has
    (\<open>ip_clash\<close>: the unique index of src/controller/types/peer.go).

  \<^bold>\<open>Panics, waiting, time.\<close> A nil dereference, an index or slice out of range, an explicit
    panic or fatal log, unlocking a free mutex and sending on or closing a closed channel
    are \<open>Panic\<close>; waiting that nothing in the modelled step can end is \<open>Block\<close>. Timers are
    armed or stopped. In \<open>peer_step\<close> an expiry runs the callback at once; in \<open>timed_step\<close>, on
    which the invariants of peers and nodes rest, callbacks also run late, after their timer was stopped, or
    repeatedly. The one exception is named in those theorems (\<open>timely\<close>): no callback of the
    handshake timer on a peer in session, which the code does not prevent and which \<open>Races\<close> shows to be fatal. Numbers have the width of the source
    (\<open>u8\<close> to \<open>u64\<close>), lengths are natural numbers, instants integers in nanoseconds. The
    search for a free address is a partial function whose undefined value means that the
    loop does not end; \<open>Ipam\<close> proves that it ends after at most two more rounds than there are
    stored peers. Nothing else needs fuel.

  \<^bold>\<open>Groups of lemmas.\<close> Invariants along all runs (\<open>peer\<close>, \<open>chan_inv\<close>, \<open>maps\<close>,
    \<open>known\<close>, \<open>updates\<close>: interpretations of \<open>preserves\<close>; \<open>timed\<close>, \<open>timed_safe\<close>, \<open>node\<close>, \<open>life\<close>: of
    \<open>preserves_when\<close>, behind \<open>peer_state_machine\<close>, \<open>data_path_never_panics\<close>,
    \<open>traffic_never_crashes_node\<close> and \<open>running_nodes_are_logged_in\<close>;
    \<open>interleaved_streams_invariant\<close>, \<open>servers_stop_together\<close>: by rule induction); the type safety
    of a whole node under every interleaving (\<open>traffic_never_crashes_node\<close>) and the equivalence of
    a node with its peers run one by one (\<open>peers_are_isolated\<close>); the outcome
    of every operation on every branch, crashes included
    (\<open>Handshake_completes_or_crashes\<close>, \<open>Stop_outcome\<close>, \<open>Down_outcome\<close>,
    \<open>known_peer_update\<close>, \<open>refused_login_crashes_node\<close>, \<open>late_retry_crashes_node\<close>); delivery end to end
    (\<open>datagram_dispatch\<close>, \<open>tunnel_packet_routing\<close>, \<open>session_delivers\<close>,
    \<open>first_packet_delivered\<close>, \<open>packet_crosses_overlay\<close>); allocation and registration up to
    the last address (\<open>registrations_fill_network\<close>) and through the login command
    (\<open>login_command_registers\<close>); authorisation of the controller's methods; update streams
    that block each other or crash the controller (\<open>simultaneous_streams_deadlock\<close>,
    \<open>leaving_stream_crashes_controller\<close>); round trips of headers, keys and addresses.

  \<^bold>\<open>Not modelled.\<close> The parsing of command lines and the HTTP servers, whose handlers are
    modelled, are those of libraries, as is every system call below a socket, a device or the
    service manager. Dialling the controller is a result that \<open>NewNode\<close> gets. Generated
    protocol code, which is not in the repository. Of package \<open>fmt\<close>, formats with flags, widths
    or other verbs than v, s and d. Messages of package \<open>log\<close>, except in \<open>Logger\<close> and \<open>Service\<close>.
    Of the concurrency: the routines of a peer interleave event by event and the update
    streams operation by operation; each event of a node, a request or a run of \<open>Stop\<close> included, is
    atomic, so data races inside one are not seen. A range over a \<open>sync.Map\<close> visits the keys present at its start and reads
    each value when it is visited.
\<close>

section \<open>Login\<close>

text \<open>The controller's answer as the node's gRPC client reports it.\<close>

definition reply_of :: "status + pb_PeerConfig \<Rightarrow> login_reply" where
  "reply_of r = (case r of Inr cfg \<Rightarrow> LoginReply cfg | Inl (c, _) \<Rightarrow> LoginStatus (Some c))"

lemma use_config_of_prefix:
  assumes "pAddr P = Addr4 v" and "pBits P \<le> 32" and "pc_Prefix cfg = prefix_String ip6 P" and "pc_TunnelIp cfg = string4 w"
  shows "use_config L cfg n = Ret (LoginSuccessful, n\<lparr>node_id := pc_PeerId cfg,
    node_ip := \<lparr>pAddr = Addr4 w, pBits = pBits P\<rparr>, loggedIn := True\<rparr>)"
proof -
  have "split_char (CHR ''/'') (pc_Prefix cfg) = [string4 v, dec_string (pBits P)]"
    using assms(1,3) by (simp add: prefix_String_def addr_String_def slash_not_in_string4 slash_not_in_dec_string)
  moreover have "netip_ParsePrefix (ip6t L) (string4 w @ CHR ''/'' # dec_string (pBits P)) = Some \<lparr>pAddr = Addr4 w, pBits = pBits P\<rparr>"
    using assms(2) by (rule ParsePrefix_string4)
  ultimately show ?thesis by (simp add: use_config_cases assms(4))
qed

text \<open>
  The first login of a machine, from the node's request to the node's
  configuration: with a valid machine id that is not stored, an access token that the
  provider accepts and a free address in the controller's IPv4 prefix, the controller
  stores one new peer for the token's user, and the node logs in with that peer's id
  and with the allocated address and the prefix length of the controller as its own: the
  address is in the controller's prefix and belongs to no other peer.
\<close>

lemma first_login_configures_node:
  assumes "netipx_ok (nxlib sv)" and "gorm_ok (gdb sv)" and "valid_Prefix (prefix c)" and "pAddr (prefix c) = Addr4 v"
    and "ip4_rows (ip6lib sv) (rows (gdb sv) (cdb c))" and "id_free (rows (gdb sv) (cdb c))"
    and "v \<le> u" and "Contains (prefix c) (Addr4 u)"
    and "Addr4 u \<notin> set (taken_ips (ip6lib sv) (prefix c) (rows (gdb sv) (cdb c)))"
    and "validateMachineID (machineID n)" and "GetPeerByMachineID (gdb sv) (machineID n) (cdb c) = None"
    and "fst (ValidateAccessToken (provider sv) token (validator c)) = Inr user"
  shows "\<exists>p cfg c' n' w. grpc_LoginPeer sv now (login_request L token n) c = Ret (Inr cfg, c') \<and>
     node_Login L (reply_of (Inr cfg)) pkce n = Ret (LoginSuccessful, n') \<and>
     rows (gdb sv) (cdb c') = rows (gdb sv) (cdb c) @ [p] \<and> User p = user \<and> MachineID p = machineID n \<and>
     node_id n' = ID p \<and> ID p \<notin> ID ` set (rows (gdb sv) (cdb c)) \<and> loggedIn n' \<and>
     node_ip n' = \<lparr>pAddr = Addr4 w, pBits = pBits (prefix c)\<rparr> \<and> IP p = string4 w \<and>
     Contains (prefix c) (Addr4 w) \<and> IP p \<notin> IP ` set (rows (gdb sv) (cdb c))"
proof -
  define va where "va = validateAccessToken sv token c"
  obtain t where v: "ValidateAccessToken (provider sv) token (validator c) = (Inr user, t)"
    using assms(12) by (cases "ValidateAccessToken (provider sv) token (validator c)") auto
  have va: "va = (Inr user, c\<lparr>validator := t\<rparr>)" by (simp add: va_def validateAccessToken_def v)
  let ?c = "c\<lparr>validator := t\<rparr>" and ?req = "login_request L token n"
  have h: "valid_Prefix (prefix ?c)" "pAddr (prefix ?c) = Addr4 v" "ip4_rows (ip6lib sv) (rows (gdb sv) (cdb ?c))"
    "id_free (rows (gdb sv) (cdb ?c))" "Contains (prefix ?c) (Addr4 u)"
    "Addr4 u \<notin> set (taken_ips (ip6lib sv) (prefix ?c) (rows (gdb sv) (cdb ?c)))"
    using assms(3-6,8,9) by simp_all
  obtain p c' w where r: "RegisterPeer sv now ?req user ?c = Ret (Inr p, c')"
    "rows (gdb sv) (cdb c') = rows (gdb sv) (cdb c) @ [p]" "ID p \<notin> ID ` set (rows (gdb sv) (cdb c))"
    "IP p = string4 w" "Contains (prefix c) (Addr4 w)" "IP p \<notin> IP ` set (rows (gdb sv) (cdb c))"
    "MachineID p = machineID n" "User p = user" "PrefixStr p = prefix_String (ip6lib sv) (prefix c)"
    using RegisterPeer_free [OF assms(1,2) h(1-4) assms(7) h(5,6), of now ?req user] by (auto simp: login_request_def)
  have "grpc_LoginPeer sv now ?req c = Ret (Inr (ProtoConfig p), c')"
    using assms(10,11) va r(1) by (simp add: grpc_LoginPeer_def login_request_def va_def)
  moreover have "pBits (prefix c) \<le> 32" using assms(3,4) by (simp add: valid_Prefix_def)
  then have "use_config L (ProtoConfig p) n = Ret (LoginSuccessful, n\<lparr>node_id := ID p,
      node_ip := \<lparr>pAddr = Addr4 w, pBits = pBits (prefix c)\<rparr>, loggedIn := True\<rparr>)"
    using use_config_of_prefix [OF assms(4) _ _, of "ProtoConfig p" "ip6lib sv" w L n] r(4,9) by (simp add: ProtoConfig_def)
  ultimately show ?thesis
    using r(2-8) by (intro exI [of _ p] exI [of _ "ProtoConfig p"] exI [of _ c'])
      (auto simp: node_Login_def reply_of_def)
qed

definition toy_newcomer :: "string \<Rightarrow> (bool \<times> nat, u64, unit) Node" where
  "toy_newcomer m = toy_node\<lparr>heap := [], maps_id := [], maps_ip := [], loggedIn := False, node_running := False, machineID := m\<rparr>"

lemma first_login_configures_node_example:
  "\<exists>cfg c' n'. grpc_LoginPeer toy_services 5 (login_request toy_libs ''a@b'' (toy_newcomer home_machine)) small_controller = Ret (Inr cfg, c') \<and>
     node_Login toy_libs (reply_of (Inr cfg)) None (toy_newcomer home_machine) = Ret (LoginSuccessful, n') \<and>
     loggedIn n' \<and> node_id n' \<noteq> 1 \<and> pBits (node_ip n') = 24"
proof -
  have v: "validateMachineID (machineID (toy_newcomer home_machine))" by (simp add: toy_newcomer_def member_lookup)
  have g: "GetPeerByMachineID (gdb toy_services) (machineID (toy_newcomer home_machine)) (cdb small_controller) = None"
    using store.by_machine [OF small_controller_facts(2)] small_controller_facts(10)
    by (simp add: toy_newcomer_def home_peer_def zero_DBPeer_def home_machine_def)
  have u: "fst (ValidateAccessToken (provider toy_services) ''a@b'' (validator small_controller)) = Inr ''a@b''"
    by (simp add: ValidateAccessToken_def toy_services_def toy_idp_def validateAudience_def GetUser_def GetUserInfo_def
        small_controller_def NewController_def toy_validator_def)
  have i: "ID (home_peer 1) = 1" "pBits (prefix small_controller) = 24"
    by (simp_all add: home_peer_def small_controller_def NewController_def home_prefix_def)
  obtain p :: DBPeer and cfg c' n' w where r: "grpc_LoginPeer toy_services 5 (login_request toy_libs ''a@b'' (toy_newcomer home_machine)) small_controller = Ret (Inr cfg, c')"
    "node_Login toy_libs (reply_of (Inr cfg)) None (toy_newcomer home_machine) = Ret (LoginSuccessful, n')"
    "node_id n' = ID p" "ID p \<notin> ID ` set [home_peer 1]" "loggedIn n'" "node_ip n' = \<lparr>pAddr = Addr4 w, pBits = pBits (prefix small_controller)\<rparr>"
    using first_login_configures_node [OF small_controller_facts(1-9) v g u, of 5 toy_libs None, unfolded small_controller_facts(10)] by blast
  then show ?thesis using i by (intro exI [of _ cfg] exI [of _ c'] exI [of _ n']) simp
qed

section \<open>The login command\<close>

text \<open>What the node's service and the controller do for one request of the command.\<close>

definition login_rpc ::
  "('db, 'set) services \<Rightarrow> instant \<Rightarrow> ('hs, 'cs, 'kp) node_libs \<Rightarrow> string \<Rightarrow> ('hs, 'cs, 'kp) Node \<times> 'db Controller \<Rightarrow>
     (login_result \<times> ('hs, 'cs, 'kp) Node \<times> 'db Controller) outcome" where
  "login_rpc sv now L token s =
     (case s of (n, c) \<Rightarrow>
        obind (grpc_LoginPeer sv now (login_request L token n) c) (\<lambda>(r, c).
        obind (node_Login L (reply_of r) (Some (GetPKCEAuthInfo (validator c))) n) (\<lambda>(x, n). Ret (x, n, c))))"

text \<open>
  C18 (functional). The command \<open>login\<close> on a new machine, through the node's service,
  the controller and the browser: the first request has no access token and is refused
  with "unauthenticated", the browser fetches a token, and the second request registers
  the machine. The command ends normally; the controller has stored exactly one new
  peer, for the token's user and with an address of its network that no other peer has,
  and the node is logged in with that peer's id and address.
\<close>

theorem login_command_registers:
  assumes "netipx_ok (nxlib sv)" and "gorm_ok (gdb sv)" and "valid_Prefix (prefix c)" and "pAddr (prefix c) = Addr4 v"
    and "ip4_rows (ip6lib sv) (rows (gdb sv) (cdb c))" and "id_free (rows (gdb sv) (cdb c))"
    and "v \<le> u" and "Contains (prefix c) (Addr4 u)"
    and "Addr4 u \<notin> set (taken_ips (ip6lib sv) (prefix c) (rows (gdb sv) (cdb c)))"
    and "validateMachineID (machineID n)" and "GetPeerByMachineID (gdb sv) (machineID n) (cdb c) = None"
    and "ValidateAccessToken (provider sv) [] (validator c) = (Inl e, tv)"
    and "AuthFlow B (GetPKCEAuthInfo tv) = Ret (Inr token)"
    and "fst (ValidateAccessToken (provider sv) token tv) = Inr user"
  shows "\<exists>p n' c' w. LoginCommand True (login_rpc sv now L) B (n, c) = Ret (True, n', c') \<and>
     rows (gdb sv) (cdb c') = rows (gdb sv) (cdb c) @ [p] \<and> User p = user \<and> MachineID p = machineID n \<and>
     loggedIn n' \<and> node_id n' = ID p \<and> ID p \<notin> ID ` set (rows (gdb sv) (cdb c)) \<and>
     node_ip n' = \<lparr>pAddr = Addr4 w, pBits = pBits (prefix c)\<rparr> \<and> IP p = string4 w \<and>
     Contains (prefix c) (Addr4 w) \<and> IP p \<notin> IP ` set (rows (gdb sv) (cdb c))"
proof -
  let ?c = "c\<lparr>validator := tv\<rparr>"
  have "grpc_LoginPeer sv now (login_request L [] n) c = Ret (Inl (Unauthenticated, ''access token''), ?c)"
    using assms(10-12) by (simp add: grpc_LoginPeer_def login_request_def validateAccessToken_def)
  then have first: "login_rpc sv now L [] (n, c) = Ret (NeedAccessToken (GetPKCEAuthInfo tv), n, ?c)"
    by (simp add: login_rpc_def node_Login_def reply_of_def)
  have h: "valid_Prefix (prefix ?c)" "pAddr (prefix ?c) = Addr4 v" "ip4_rows (ip6lib sv) (rows (gdb sv) (cdb ?c))"
    "id_free (rows (gdb sv) (cdb ?c))" "Contains (prefix ?c) (Addr4 u)"
    "Addr4 u \<notin> set (taken_ips (ip6lib sv) (prefix ?c) (rows (gdb sv) (cdb ?c)))"
    "GetPeerByMachineID (gdb sv) (machineID n) (cdb ?c) = None" "fst (ValidateAccessToken (provider sv) token (validator ?c)) = Inr user"
    using assms(3-6,8,9,11,14) by simp_all
  obtain p cfg c' n' w where r: "grpc_LoginPeer sv now (login_request L token n) ?c = Ret (Inr cfg, c')"
    "\<And>pkce. node_Login L (reply_of (Inr cfg)) pkce n = Ret (LoginSuccessful, n')"
    "rows (gdb sv) (cdb c') = rows (gdb sv) (cdb c) @ [p] \<and> User p = user \<and> MachineID p = machineID n \<and>
     node_id n' = ID p \<and> ID p \<notin> ID ` set (rows (gdb sv) (cdb c)) \<and> loggedIn n' \<and>
     node_ip n' = \<lparr>pAddr = Addr4 w, pBits = pBits (prefix c)\<rparr> \<and> IP p = string4 w \<and>
     Contains (prefix c) (Addr4 w) \<and> IP p \<notin> IP ` set (rows (gdb sv) (cdb c))"
    using first_login_configures_node [OF assms(1,2) h(1-4) assms(7) h(5,6) assms(10) h(7,8), of now L] 
    by (auto simp: node_Login_def reply_of_def)
  have "LoginCommand True (login_rpc sv now L) B (n, c) = Ret (True, n', c')"
    by (simp add: LoginCommand_def first assms(13)) (simp add: login_rpc_def r(1,2))
  with r(3) show ?thesis by blast
qed

text \<open>A provider that refuses the empty token.\<close>

definition strict_services :: "(DBPeer list, Addr list) services" where
  "strict_services = toy_services\<lparr>provider := toy_idp\<lparr>idp_parse := (\<lambda>s. if s = [] then None else idp_parse toy_idp s)\<rparr>\<rparr>"

theorem login_command_registers_witness:
  "\<exists>n' c'. LoginCommand True (login_rpc strict_services 5 toy_libs) toy_browser (toy_newcomer home_machine, small_controller) = Ret (True, n', c') \<and>
     loggedIn n' \<and> node_id n' \<noteq> 1 \<and> pBits (node_ip n') = 24"
proof -
  have s: "nxlib strict_services = nxlib toy_services" "gdb strict_services = gdb toy_services" "ip6lib strict_services = ip6lib toy_services"
    by (simp_all add: strict_services_def)
  have v: "validateMachineID (machineID (toy_newcomer home_machine))" by (simp add: toy_newcomer_def member_lookup)
  have g: "GetPeerByMachineID (gdb strict_services) (machineID (toy_newcomer home_machine)) (cdb small_controller) = None"
    using store.by_machine [OF small_controller_facts(2)] small_controller_facts(10)
    by (simp add: s toy_newcomer_def home_peer_def zero_DBPeer_def home_machine_def)
  have r: "ValidateAccessToken (provider strict_services) [] (validator small_controller) = (Inl ParsingAccessToken, validator small_controller)"
    by (simp add: ValidateAccessToken_def strict_services_def toy_services_def)
  have u: "fst (ValidateAccessToken (provider strict_services) ''a@b'' (validator small_controller)) = Inr ''a@b''"
    by (simp add: ValidateAccessToken_def strict_services_def toy_services_def toy_idp_def validateAudience_def GetUser_def
        GetUserInfo_def small_controller_def NewController_def toy_validator_def)
  have i: "ID (home_peer 1) = 1" "pBits (prefix small_controller) = 24"
    by (simp_all add: home_peer_def small_controller_def NewController_def home_prefix_def)
  note facts = small_controller_facts(1-9) [folded s]
  obtain p :: DBPeer and n' c' w where
    "LoginCommand True (login_rpc strict_services 5 toy_libs) toy_browser (toy_newcomer home_machine, small_controller) = Ret (True, n', c')"
    "loggedIn n'" "node_id n' = ID p" "ID p \<notin> ID ` set [home_peer 1]"
    "node_ip n' = \<lparr>pAddr = Addr4 w, pBits = pBits (prefix small_controller)\<rparr>"
    using login_command_registers [OF facts v g r toy_browser_token u, of 5 toy_libs, unfolded s small_controller_facts(10)] by blast
  then show ?thesis using i by (intro exI [of _ n'] exI [of _ c']) simp
qed

section \<open>Refused logins\<close>

text \<open>
  C22 (error). A refusal of the controller that takes the node down: when the machine's
  peer is disabled, or its authentication has expired and the node presents a valid
  token of another user, the controller answers with "permission denied" and leaves its
  table as it is, and the node that receives the answer crashes in \<open>Login\<close>.
\<close>

theorem refused_login_crashes_node:
  assumes "validateMachineID (machineID n)" and "GetPeerByMachineID (gdb sv) (machineID n) (cdb c) = Some p"
    and "Disabled p \<or> IsAuthExpired now p \<and>
      (\<exists>user. user \<noteq> User p \<and> fst (ValidateAccessToken (provider sv) token (validator c)) = Inr user)"
  shows "\<exists>m c'. grpc_LoginPeer sv now (login_request L token n) c = Ret (Inl (PermissionDenied, m), c') \<and>
     cdb c' = cdb c \<and> is_panic (node_Login L (reply_of (Inl (PermissionDenied, m))) pkce n)"
proof -
  have crash: "is_panic (node_Login L (reply_of (Inl (PermissionDenied, m))) pkce n)" for m
    by (simp add: node_Login_def reply_of_def nil_deref_def)
  show ?thesis
  proof (cases "Disabled p")
    case True
    with assms(1,2) crash show ?thesis by (simp add: grpc_LoginPeer_def login_request_def)
  next
    case False
    with assms(3) obtain user where u: "IsAuthExpired now p" "user \<noteq> User p"
      "fst (ValidateAccessToken (provider sv) token (validator c)) = Inr user" by blast
    then obtain t where "ValidateAccessToken (provider sv) token (validator c) = (Inr user, t)"
      by (cases "ValidateAccessToken (provider sv) token (validator c)") auto
    then have "validateAccessToken sv token c = (Inr user, c\<lparr>validator := t\<rparr>)" by (simp add: validateAccessToken_def)
    with False u assms(1,2) crash show ?thesis by (simp add: grpc_LoginPeer_def login_request_def)
  qed
qed

theorem refused_login_crashes_node_witness:
  "\<exists>m c'. grpc_LoginPeer toy_services 5 (login_request toy_libs [] (toy_newcomer home_machine))
       (NewController [member\<lparr>Disabled := True\<rparr>] (home_prefix 24) toy_validator) = Ret (Inl (PermissionDenied, m), c') \<and>
     is_panic (node_Login toy_libs (reply_of (Inl (PermissionDenied, m))) None (toy_newcomer home_machine))"
proof -
  let ?c = "NewController [member\<lparr>Disabled := True\<rparr>] (home_prefix 24) toy_validator"
  have m: "machineID (toy_newcomer home_machine) = home_machine" by (simp add: toy_newcomer_def)
  have v: "validateMachineID (machineID (toy_newcomer home_machine))" by (simp add: m member_lookup)
  have g: "GetPeerByMachineID (gdb toy_services) (machineID (toy_newcomer home_machine)) (cdb ?c) = Some (member\<lparr>Disabled := True\<rparr>)"
    by (simp add: m GetPeerByMachineID_def toy_services_def table_gorm_def NewController_def member_def)
  have d: "Disabled (member\<lparr>Disabled := True\<rparr>) \<or> IsAuthExpired 5 (member\<lparr>Disabled := True\<rparr>) \<and>
      (\<exists>user. user \<noteq> User (member\<lparr>Disabled := True\<rparr>) \<and> fst (ValidateAccessToken (provider toy_services) [] (validator ?c)) = Inr user)"
    by simp
  from refused_login_crashes_node [OF v g d, of toy_libs None] show ?thesis by blast
qed

section \<open>The first update\<close>

lemma enumerated_nth: "distinct ks \<Longrightarrow> k < length ks \<Longrightarrow> enumerated a ks m (ks ! k) = Some (a + k)"
proof (induction ks arbitrary: a m k)
  case (Cons x ks)
  have keep: "x \<notin> set ys \<Longrightarrow> enumerated b ys f x = f x" for b f and ys :: "'a list"
    by (induction ys arbitrary: b f) auto
  show ?case using Cons keep [of ks] by (cases k) auto
qed simp

lemma UpdateStream_init_list:
  assumes "gorm_ok (gdb sv)"
  shows "UpdateStream_init sv i c = Inr \<lparr>ur_UpdateType = INIT, ur_PeerList = Some
    \<lparr>pl_Peers = map Proto (filter (\<lambda>p. Connected p \<and> ID p \<noteq> i) (rows (gdb sv) (cdb c))),
     pl_Count = of_nat (length (filter (\<lambda>p. Connected p \<and> ID p \<noteq> i) (rows (gdb sv) (cdb c))))\<rparr>, ur_PunchEndpoint = []\<rparr>"
  by (simp add: UpdateStream_init_def GetConnectedPeers_def store_lists [OF assms] Let_def conj_commute)

text \<open>
  C19 (functional). What a node that opens its update stream learns. The first update
  lists every stored peer that is marked connected, except the node's own. If the key,
  the address and the endpoint of all of these parse, the node then knows each of them
  under its id, with its stored key, address, name and endpoint, running and without a
  session; it knows no other new peer. But keys and endpoints are stored unchecked: a
  single connected peer with a key that is not base64 crashes every node that connects.
\<close>

theorem newcomer_learns_connected_peers:
  assumes "gorm_ok (gdb sv)" and "keys_ok (rows (gdb sv) (cdb c))"
  shows "\<exists>u. UpdateStream_init sv i c = Inr u \<and>
     (if \<forall>p \<in> set (rows (gdb sv) (cdb c)). Connected p \<and> ID p \<noteq> i \<longrightarrow> peer_parses L (Proto p)
      then \<exists>n'. HandleUpdate L u n = Ret n' \<and>
        (\<forall>p \<in> set (rows (gdb sv) (cdb c)). Connected p \<and> ID p \<noteq> i \<longrightarrow>
           (\<exists>a. lookupPeer (ID p) n' = Some a \<and> length (heap n) \<le> a \<and> heap n' ! a = started (described L (Proto p)))) \<and>
        length (heap n') = length (heap n) + length (filter (\<lambda>p. Connected p \<and> ID p \<noteq> i) (rows (gdb sv) (cdb c)))
      else is_panic (HandleUpdate L u n))"
proof -
  let ?rs = "rows (gdb sv) (cdb c)"
  define ps where "ps = filter (\<lambda>p. Connected p \<and> ID p \<noteq> i) ?rs"
  obtain u where u: "UpdateStream_init sv i c = Inr u" "HandleUpdate L u n = handleInitialSync L (map Proto ps) n"
    using UpdateStream_init_list [OF assms(1), of i c] by (simp add: HandleUpdate_def ps_def)
  have all: "(\<forall>p \<in> set ?rs. Connected p \<and> ID p \<noteq> i \<longrightarrow> peer_parses L (Proto p)) \<longleftrightarrow> list_all (peer_parses L) (map Proto ps)"
    by (auto simp: list_all_iff ps_def)
  show ?thesis
  proof (cases "list_all (peer_parses L) (map Proto ps)")
    case True
    obtain n' where n': "handleInitialSync L (map Proto ps) n = Ret n'"
      "heap n' = heap n @ map (\<lambda>rp. started (described L rp)) (map Proto ps)"
      "map_of (maps_id n') = enumerated (length (heap n)) (map pb_Id (map Proto ps)) (map_of (maps_id n))"
      using handleInitialSync_adds [OF True, of n] by blast
    have ids: "map pb_Id (map Proto ps) = map ID ps" by (simp add: Proto_def)
    have d: "distinct (map ID ps)" using keys_ok_filter [OF assms(2)] by (simp add: ps_def keys_ok_def)
    have "\<exists>a. lookupPeer (ID p) n' = Some a \<and> length (heap n) \<le> a \<and> heap n' ! a = started (described L (Proto p))"
      if p: "p \<in> set ?rs" "Connected p \<and> ID p \<noteq> i" for p
    proof -
      have "p \<in> set ps" using p by (simp add: ps_def)
      then obtain k where k: "k < length ps" "ps ! k = p" by (auto simp: in_set_conv_nth)
      then have "lookupPeer (ID p) n' = Some (length (heap n) + k)"
        using enumerated_nth [OF d, of k "length (heap n)" "map_of (maps_id n)"] n'(3) [unfolded ids] by (simp add: lookupPeer_def)
      with k show ?thesis by (simp add: n'(2) nth_append)
    qed
    then show ?thesis using u n'(1,2) True all by (auto simp: ps_def)
  next
    case False
    with u all handleInitialSync_fails [OF False, of n] show ?thesis by auto
  qed
qed

theorem newcomer_learns_connected_peers_witness:
  "\<exists>u. UpdateStream_init toy_services 2 (NewController [home_peer 1\<lparr>Connected := True, NoisePublicKey := ''!''\<rparr>] (home_prefix 24) toy_validator) = Inr u \<and>
     is_panic (HandleUpdate toy_libs u (toy_newcomer home_machine))"
proof -
  let ?p = "home_peer 1\<lparr>Connected := True, NoisePublicKey := ''!''\<rparr>"
  let ?c = "NewController [?p] (home_prefix 24) toy_validator"
  have r: "rows (gdb toy_services) (cdb ?c) = [?p]" by (simp add: toy_services_def table_gorm_def NewController_def)
  have i: "ID ?p = 1" by (simp add: home_peer_def)
  have k: "keys_ok (rows (gdb toy_services) (cdb ?c))" unfolding r by (simp add: keys_ok_def i)
  have "\<not> peer_parses toy_libs (Proto ?p)"
    by (simp add: peer_parses_def Proto_def DecodeBase64Key_def DecodeString_def line_break_def)
  then have "\<not> (\<forall>p \<in> set (rows (gdb toy_services) (cdb ?c)). Connected p \<and> ID p \<noteq> 2 \<longrightarrow> peer_parses toy_libs (Proto p))"
    unfolding r using i by simp
  with newcomer_learns_connected_peers [OF home_controller_ok(1) k, of 2 toy_libs "toy_newcomer home_machine"]
  show ?thesis by (simp only: if_False) 
qed

section \<open>Endpoints\<close>

text \<open>The node's calls to the controller; an error of the answer is only logged.\<close>

definition client_UpdateEndpoint ::
  "('db, 'set) services \<Rightarrow> instant \<Rightarrow> string \<Rightarrow> string \<Rightarrow> 'db Controller \<Rightarrow> 'db Controller" where
  "client_UpdateEndpoint sv now m endpoint c =
     snd (grpc_UpdateEndpoint sv now \<lparr>ue_MachineId = m, ue_Endpoint = endpoint\<rparr> c)"

definition node_RequestPunch ::
  "('db, 'set) services \<Rightarrow> instant \<Rightarrow> u32 \<Rightarrow> ('hs, 'cs, 'kp) Node \<Rightarrow> 'db Controller \<Rightarrow> 'db Controller outcome" where
  "node_RequestPunch sv now i n c =
     obind (grpc_Punch sv now \<lparr>pr_MachineId = machineID n, pr_DstPeerId = i, pr_Endpoint = discoveredEndpoint n\<rparr> c)
       (\<lambda>(_, c). Ret c)"

text \<open>
  C20 (functional). The endpoint that a node discovers is published once. A STUN
  answer with a new address is remembered and sent to the controller, which, for an
  authorised peer, stores it in that peer's record - the one every newcomer's initial
  list is made from - and in no other. The same answer again changes nothing and sends
  nothing.
\<close>

theorem discovered_endpoint_is_published:
  assumes "gorm_ok (gdb sv)" and "keys_ok (rows (gdb sv) (cdb c))" and "authorised sv now (machineID n) c = Some p"
    and "decodeStunMessage L message = Some endpoint" and "endpoint \<noteq> discoveredEndpoint n" and "endpoint \<noteq> []"
  shows "endpoint_rpcs (handleStunMessage L message n) = endpoint_rpcs n @ [endpoint] \<and>
     handleStunMessage L message (handleStunMessage L message n) = handleStunMessage L message n \<and>
     rows (gdb sv) (cdb (client_UpdateEndpoint sv now (machineID n) endpoint c)) =
       map (\<lambda>r. if r = p then r\<lparr>Endpoint := endpoint, UpdatedAt := stamp (gdb sv) (cdb c)\<rparr> else r) (rows (gdb sv) (cdb c))"
proof -
  have a: "validateMachineID (machineID n)" "GetPeerByMachineID (gdb sv) (machineID n) (cdb c) = Some p"
    "\<not> Disabled p" "LoggedIn p" "\<not> IsAuthExpired now p"
    using assms(3) by (auto simp: authorised_def split: if_splits option.splits)
  have p: "p \<in> set (rows (gdb sv) (cdb c))" using store.by_machine_row [OF assms(1) a(2)] by blast
  then have nz: "ID p \<noteq> 0" using assms(2) by (auto simp: keys_ok_def)
  have same: "ID r = ID p \<longleftrightarrow> r = p" if "r \<in> set (rows (gdb sv) (cdb c))" for r
    using assms(2) p that by (auto simp: keys_ok_def distinct_map inj_on_def)
  have "rows (gdb sv) (cdb (client_UpdateEndpoint sv now (machineID n) endpoint c)) =
      upd_row (ID p) (\<lambda>r. r\<lparr>Endpoint := endpoint, UpdatedAt := stamp (gdb sv) (cdb c)\<rparr>) (rows (gdb sv) (cdb c))"
    using a assms(6) store.set_endpoint [OF assms(1) nz, of endpoint "cdb c"]
    by (simp add: client_UpdateEndpoint_def grpc_UpdateEndpoint_def IsDisabled_def IsLoggedIn_def Let_def case_prod_beta)
  also have "\<dots> = map (\<lambda>r. if r = p then r\<lparr>Endpoint := endpoint, UpdatedAt := stamp (gdb sv) (cdb c)\<rparr> else r) (rows (gdb sv) (cdb c))"
    unfolding upd_row_def using same by (intro map_cong) auto
  finally show ?thesis using assms(4,5) by (simp add: handleStunMessage_def)
qed

theorem discovered_endpoint_is_published_witness:
  "\<exists>r. rows (gdb toy_services) (cdb (client_UpdateEndpoint toy_services 5 home_machine ''1.2.3.4:5'' home_controller)) = [r] \<and>
     Endpoint r = ''1.2.3.4:5''"
proof -
  let ?L = "toy_libs\<lparr>stun_Decode := (\<lambda>_. True), XORMapped := (\<lambda>_. Some ''1.2.3.4:5'')\<rparr>" and ?n = "toy_newcomer home_machine"
  have m: "machineID ?n = home_machine" "discoveredEndpoint ?n = []" by (simp_all add: toy_newcomer_def toy_node_def)
  have "authorised toy_services 5 (machineID ?n) home_controller = Some member"
    by (simp add: m authorised_def member_lookup) (simp add: IsAuthExpired_iff member_def home_peer_def zero_DBPeer_def Hour_def)
  from discovered_endpoint_is_published [OF home_controller_ok(1,3) this, of ?L "[]" "''1.2.3.4:5''"] m
  show ?thesis by (simp add: home_controller_ok(2) decodeStunMessage_def)
qed

section \<open>Punching\<close>

lemma punch_message_wire: "punch_message i = wire \<lparr>Version = HeaderVersion, Type = MsgPunch, SenderIndex = i, Counter = 0, Padding = HeaderPadding\<rparr>"
  by (simp add: punch_message_def Encode_def scap_def make_slice_def HeaderLen_def encodeToSlice_wire NewHeader_def Let_def)

text \<open>
  C21 (functional). A punch request on its way. When an authorised peer asks for a
  punch of a stored peer whose stream waits for updates, the controller hands exactly one
  punch update with the requester's endpoint to that stream. The node at its other end
  answers it with one datagram to that endpoint - sixteen bytes, a header of type
  punch with the node's id - and changes nothing else. The node that receives the
  datagram drops it: no peer is touched and nothing is sent.
\<close>

theorem punch_request_path:
  assumes "authorised sv now m c = Some p" and "ep \<noteq> []" and "GetPeerbyID (gdb sv) dst (cdb c) = Some q"
    and "map_of (peerChannels c) dst = Some a" and "a < length (chans c)" and "\<not> cclosed (chans c ! a)" and "ready (chans c ! a)"
    and "ResolveUDPAddr L ep = Some ua" and "world_ok (nworld r)"
  shows "\<exists>c' u. rpc_Punch dst sv now m ep c = Ret (None, c') \<and> got (chans c' ! a) = got (chans c ! a) @ [u] \<and>
     (\<forall>b < length (chans c). b \<noteq> a \<longrightarrow> chans c' ! b = chans c ! b) \<and> cdb c' = cdb c \<and>
     HandleUpdate L u n = Ret (n\<lparr>nworld := (nworld n)\<lparr>udp_out := udp_out (nworld n) @ [(punch_message (node_id n), ua)]\<rparr>\<rparr>) \<and>
     length (punch_message (node_id n)) = 16 \<and>
     (\<exists>r'. ReadUDPPackets_step L' (Some (punch_message (node_id n), src)) r = Ret r' \<and> heap r' = heap r \<and>
        udp_out (nworld r') = udp_out (nworld r) \<and> tun_out (nworld r') = tun_out (nworld r))"
proof -
  let ?u = "\<lparr>ur_UpdateType = PUNCH, ur_PeerList = None, ur_PunchEndpoint = ep\<rparr>"
  let ?ch = "chans c ! a"
  let ?c = "c\<lparr>chans := (chans c)[a := ?ch\<lparr>ready := False, got := got ?ch @ [?u]\<rparr>]\<rparr>"
  have "rpc_Punch dst sv now m ep c = Ret (None, ?c)"
    using assms(1-7) by (auto simp: rpc_Punch_def grpc_Punch_def authorised_def IsDisabled_def IsLoggedIn_def
        PeerPunchRequest_def send_to_def chan_put_def split: if_splits option.splits)
  moreover have "HandleUpdate L ?u n = Ret (n\<lparr>nworld := (nworld n)\<lparr>udp_out := udp_out (nworld n) @ [(punch_message (node_id n), ua)]\<rparr>\<rparr>)"
    using assms(8) by (simp add: HandleUpdate_def handlePeerPunchRequest_def send_udp_def)
  moreover have len: "length (punch_message (node_id n)) = 16"
    unfolding punch_message_wire by (simp add: wire_def)
  moreover have "udp_target (take BufferSize (punch_message (node_id n))) r = None"
    using len by (simp add: BufferSize_def udp_target_def) (simp add: punch_message_wire header_at_wire [where rest = "[]", simplified] message_types)
  with ReadUDPPackets_dispatch [OF assms(9), where datagram = "punch_message (node_id n)" and L = L' and a = src]
  have "\<exists>r'. ReadUDPPackets_step L' (Some (punch_message (node_id n), src)) r = Ret r' \<and> heap r' = heap r \<and>
      udp_out (nworld r') = udp_out (nworld r) \<and> tun_out (nworld r') = tun_out (nworld r)" by auto
  ultimately show ?thesis using assms(5) by (intro exI [of _ ?c] exI [of _ ?u]) simp
qed

definition waiting_controller :: "DBPeer list Controller" where
  "waiting_controller = home_controller\<lparr>peerChannels := [(1, 0)], chans := [new_chan\<lparr>ready := True\<rparr>]\<rparr>"

theorem punch_request_path_witness:
  "\<exists>c' u. rpc_Punch 1 toy_services 5 home_machine ''1.2.3.4:5'' waiting_controller = Ret (None, c') \<and> got (chans c' ! 0) = [u] \<and>
     (\<exists>n'. HandleUpdate toy_libs u toy_node = Ret n' \<and> udp_out (nworld n') = [(punch_message 5, udp_addr 3)])"
proof -
  have c: "cdb waiting_controller = cdb home_controller" "peerChannels waiting_controller = [(1, 0)]"
    "chans waiting_controller = [new_chan\<lparr>ready := True\<rparr>]" by (simp_all add: waiting_controller_def)
  have "\<not> IsAuthExpired 5 member" "LoggedIn member" "\<not> Disabled member"
    by (simp_all add: IsAuthExpired_iff member_def home_peer_def zero_DBPeer_def Hour_def)
  then have auth: "authorised toy_services 5 home_machine waiting_controller = Some member"
    by (simp add: authorised_def c member_lookup)
  have g: "GetPeerbyID (gdb toy_services) 1 (cdb waiting_controller) = Some member"
    unfolding c using store.by_id [OF home_controller_ok(1)] home_controller_ok(2) member_lookup(2) by simp
  have r: "map_of (peerChannels waiting_controller) 1 = Some 0" "0 < length (chans waiting_controller)"
    "\<not> cclosed (chans waiting_controller ! 0)" "ready (chans waiting_controller ! 0)" "got (chans waiting_controller ! 0) = []"
    by (simp_all add: c new_chan_def)
  have l: "ResolveUDPAddr toy_libs ''1.2.3.4:5'' = Some (udp_addr 3)" by (simp add: toy_libs_def)
  have w: "world_ok (nworld toy_node)" and n: "udp_out (nworld toy_node) = []" "node_id toy_node = 5"
    by (simp_all add: toy_node_def quiet_world_ok) (simp add: quiet_world_def)
  have ep: "''1.2.3.4:5'' \<noteq> []" by simp
  from punch_request_path [OF auth ep g r(1-4) l w, of toy_node toy_libs "udp_addr 1"] show ?thesis
    unfolding r(5) n append_Nil by fastforce
qed

end
